(* ===== verification/Prelude.thy ===== *)
theory Prelude
  imports Main "HOL-Library.Word"
begin

text \<open>
  Shared vocabulary of the development: the collections of rewrite rules that the component
  theories extend, and the generic facts on lists, options, sums and numbers that several
  components use. Nothing here models code of the repository.
\<close>

text \<open>
  \<open>go_strings\<close> collects the characteristic equations of the string functions,
  \<open>netip_simps\<close> those of addresses and prefixes, \<open>conn_simps\<close> the unfolding of the
  operations that talk to the Infoblox appliance.
\<close>

named_theorems go_strings
named_theorems netip_simps
named_theorems conn_simps

subsection \<open>Lists\<close>

lemma takeWhile_neq_append [simp]:
  "x \<notin> set xs \<Longrightarrow> takeWhile (\<lambda>c. c \<noteq> x) (xs @ x # ys) = xs"
  by (induction xs) auto

lemma dropWhile_neq_append [simp]:
  "x \<notin> set xs \<Longrightarrow> dropWhile (\<lambda>c. c \<noteq> x) (xs @ x # ys) = x # ys"
  by (induction xs) auto

lemma append_sep_inject:
  assumes "x \<notin> set as" and "x \<notin> set bs" and "as @ x # cs = bs @ x # ds"
  shows "as = bs \<and> cs = ds"
proof -
  have "as = bs"
    using assms takeWhile_neq_append [of x as cs] takeWhile_neq_append [of x bs ds] by metis
  with assms(3) show ?thesis by simp
qed

lemma append_sep_inject_last:
  assumes "x \<notin> set cs" and "x \<notin> set ds" and "as @ x # cs = bs @ x # ds"
  shows "as = bs \<and> cs = ds"
proof -
  have "rev cs @ x # rev as = rev ds @ x # rev bs"
    using assms(3) by (metis append.assoc append_Cons append_Nil rev.simps(2) rev_append)
  then have "rev cs = rev ds \<and> rev as = rev bs"
    using assms(1,2) append_sep_inject [of x "rev cs" "rev ds" "rev as" "rev bs"] by simp
  then show ?thesis by simp
qed

lemma length_eq_4: "length xs = 4 \<Longrightarrow> \<exists>a b c d. xs = [a, b, c, d]"
  by (auto simp: numeral_eq_Suc length_Suc_conv)

lemma length_eq_8:
  "length xs = 8 \<Longrightarrow> \<exists>a b c d e f g h. xs = [a, b, c, d, e, f, g, h]"
  by (auto simp: numeral_eq_Suc length_Suc_conv)

subsection \<open>Fallible results\<close>

text \<open>A fallible operation returns \<open>Inl\<close> of its error or \<open>Inr\<close> of its value.\<close>

abbreviation is_ok :: "'e + 'a \<Rightarrow> bool" where
  "is_ok r \<equiv> (case r of Inl _ \<Rightarrow> False | Inr _ \<Rightarrow> True)"

lemma is_okE: "is_ok r \<Longrightarrow> (\<And>v. r = Inr v \<Longrightarrow> P) \<Longrightarrow> P"
  by (cases r) auto

end
