(* ===== verification/GoStrings.thy ===== *)
theory GoStrings
  imports Prelude
begin

text \<open>
  The functions of Go's packages \<open>strings\<close> and \<open>strconv\<close> that the repository calls. Go strings
  are byte sequences, and so is HOL's \<open>string\<close> (a list of 8-bit characters): lengths and
  comparisons count bytes on both sides.
\<close>

subsection \<open>Package strings\<close>

definition HasPrefix :: "string \<Rightarrow> string \<Rightarrow> bool" where
  "HasPrefix s p \<longleftrightarrow> length p \<le> length s \<and> take (length p) s = p"

definition HasSuffix :: "string \<Rightarrow> string \<Rightarrow> bool" where
  "HasSuffix s t \<longleftrightarrow> length t \<le> length s \<and> drop (length s - length t) s = t"

fun Contains :: "string \<Rightarrow> string \<Rightarrow> bool" where
  "Contains [] t \<longleftrightarrow> t = []"
| "Contains (c # cs) t \<longleftrightarrow> HasPrefix (c # cs) t \<or> Contains cs t"

text \<open>
  \<open>strings.Cut\<close>: the text before and after the first occurrence of the separator, and
  whether there is one. Without one Go returns the whole text, the empty text and false.
\<close>

fun cut_opt :: "string \<Rightarrow> string \<Rightarrow> (string \<times> string) option" where
  "cut_opt [] sep = (if sep = [] then Some ([], []) else None)"
| "cut_opt (c # cs) sep =
     (if HasPrefix (c # cs) sep then Some ([], drop (length sep) (c # cs))
      else map_option (\<lambda>(b, a). (c # b, a)) (cut_opt cs sep))"

definition Cut :: "string \<Rightarrow> string \<Rightarrow> string \<times> string \<times> bool" where
  "Cut s sep = (case cut_opt s sep of
     None \<Rightarrow> (s, [], False)
   | Some (b, a) \<Rightarrow> (b, a, True))"

text \<open>\<open>strings.Split\<close> at a one-byte separator, and \<open>strings.SplitN\<close> with limit 2.\<close>

fun Split :: "string \<Rightarrow> char \<Rightarrow> string list" where
  "Split [] sep = [[]]"
| "Split (c # cs) sep =
     (if c = sep then [] # Split cs sep
      else (case Split cs sep of [] \<Rightarrow> [[c]] | p # ps \<Rightarrow> (c # p) # ps))"

definition SplitN2 :: "string \<Rightarrow> char \<Rightarrow> string list" where
  "SplitN2 s sep =
     (if sep \<in> set s
      then [takeWhile (\<lambda>c. c \<noteq> sep) s, tl (dropWhile (\<lambda>c. c \<noteq> sep) s)]
      else [s])"

fun Join :: "string list \<Rightarrow> string \<Rightarrow> string" where
  "Join [] sep = []"
| "Join [x] sep = x"
| "Join (x # y # ys) sep = x @ sep @ Join (y # ys) sep"

subsection \<open>Decimal numbers: strconv.Itoa, strconv.Atoi and net.dtoi\<close>

definition is_digit :: "char \<Rightarrow> bool" where
  "is_digit c \<longleftrightarrow> 48 \<le> (of_char c :: int) \<and> (of_char c :: int) \<le> 57"

definition digit_val :: "char \<Rightarrow> int" where
  "digit_val c = of_char c - 48"

definition digit_char :: "nat \<Rightarrow> char" where
  "digit_char d = char_of (48 + d)"

fun Itoa :: "nat \<Rightarrow> string" where
  "Itoa n = (if n < 10 then [digit_char n] else Itoa (n div 10) @ [digit_char (n mod 10)])"

declare Itoa.simps [simp del]

definition dec_value :: "string \<Rightarrow> int" where
  "dec_value s = foldl (\<lambda>n c. n * 10 + digit_val c) 0 s"

text \<open>
  \<open>strconv.Atoi\<close> on 64-bit integers: an optional sign, then at least one digit; a value
  outside the range of \<open>int\<close> is an error.
\<close>

definition Atoi :: "string \<Rightarrow> int option" where
  "Atoi s =
     (let neg = (case s of [] \<Rightarrow> False | c # _ \<Rightarrow> c = CHR ''-'');
          body = (case s of [] \<Rightarrow> []
                  | c # cs \<Rightarrow> if c = CHR ''-'' \<or> c = CHR ''+'' then cs else s)
      in if body = [] \<or> \<not> list_all is_digit body then None
         else let v = dec_value body
              in if neg then (if v \<le> 2 ^ 63 then Some (- v) else None)
                 else (if v < 2 ^ 63 then Some v else None))"

text \<open>
  \<open>net.dtoi\<close>: the value of the leading digits, how many bytes they take, and whether there
  was at least one digit and the value stayed below \<open>0xFFFFFF\<close>.
\<close>

fun dtoi_loop :: "string \<Rightarrow> int \<Rightarrow> nat \<Rightarrow> int \<times> nat \<times> bool" where
  "dtoi_loop [] n i = (if i = 0 then (0, 0, False) else (n, i, True))"
| "dtoi_loop (c # cs) n i =
     (if is_digit c then
        (let n' = n * 10 + digit_val c
         in if n' \<ge> 16777215 then (16777215, i, False) else dtoi_loop cs n' (Suc i))
      else if i = 0 then (0, 0, False) else (n, i, True))"

definition dtoi :: "string \<Rightarrow> int \<times> nat \<times> bool" where
  "dtoi s = dtoi_loop s 0 0"

subsection \<open>Facts about the string functions\<close>

lemma HasPrefix_append [simp, go_strings]: "HasPrefix (p @ s) p"
  by (simp add: HasPrefix_def)

lemma HasPrefix_iff: "HasPrefix s p \<longleftrightarrow> (\<exists>r. s = p @ r)"
  by (metis HasPrefix_append HasPrefix_def append_take_drop_id)

lemma HasSuffix_append [simp, go_strings]: "HasSuffix (p @ s) s"
  by (simp add: HasSuffix_def)

lemma HasSuffix_iff: "HasSuffix s t \<longleftrightarrow> (\<exists>r. s = r @ t)"
  by (metis HasSuffix_append HasSuffix_def append_take_drop_id)

lemma HasSuffix_Nil [simp, go_strings]: "HasSuffix s []"
  by (simp add: HasSuffix_def)

lemma Split_nonempty [simp]: "Split s sep \<noteq> []"
  by (induction s) (auto split: list.splits)

lemma Split_no_sep: "sep \<notin> set s \<Longrightarrow> Split s sep = [s]"
  by (induction s) auto

lemma Split_sep: "sep \<notin> set a \<Longrightarrow> Split (a @ sep # b) sep = a # Split b sep"
  by (induction a) auto

lemma SplitN2_sep [go_strings]: "sep \<notin> set a \<Longrightarrow> SplitN2 (a @ sep # b) sep = [a, b]"
  by (simp add: SplitN2_def)

lemma SplitN2_no_sep [go_strings]: "sep \<notin> set a \<Longrightarrow> SplitN2 a sep = [a]"
  by (simp add: SplitN2_def)

lemma cut_opt_SomeD: "cut_opt s sep = Some (b, a) \<Longrightarrow> s = b @ sep @ a"
proof (induction s sep arbitrary: b a rule: cut_opt.induct)
  case (1 sep)
  then show ?case by (simp split: if_splits)
next
  case (2 c cs sep)
  show ?case
  proof (cases "HasPrefix (c # cs) sep")
    case True
    then obtain r where r: "c # cs = sep @ r" by (auto simp: HasPrefix_iff)
    from 2(2) True have "b = []" and "a = drop (length sep) (c # cs)" by auto
    with r show ?thesis by simp
  next
    case False
    with 2(2) obtain b' where "cut_opt cs sep = Some (b', a)" and "b = c # b'"
      by auto
    with 2(1) [OF False] show ?thesis by simp
  qed
qed

lemma cut_opt_char_no: "x \<notin> set s \<Longrightarrow> cut_opt s [x] = None"
  by (induction s) (auto simp: HasPrefix_def)

lemma cut_opt_char: "x \<notin> set a \<Longrightarrow> cut_opt (a @ x # b) [x] = Some (a, b)"
  by (induction a) (auto simp: HasPrefix_def)

lemma Cut_char [go_strings]: "x \<notin> set a \<Longrightarrow> Cut (a @ x # b) [x] = (a, b, True)"
  by (simp add: Cut_def cut_opt_char)

lemma Cut_char_no [go_strings]: "x \<notin> set s \<Longrightarrow> Cut s [x] = (s, [], False)"
  by (simp add: Cut_def cut_opt_char_no)

subsection \<open>Facts about decimal numbers\<close>

lemma of_char_char_of_nat: "(of_char (char_of (n :: nat)) :: int) = int (n mod 256)"
  by (metis of_char_of of_nat_of_char)

lemma digit_val_digit_char [simp]: "d < 10 \<Longrightarrow> digit_val (digit_char d) = int d"
  by (simp add: digit_val_def digit_char_def of_char_char_of_nat)

lemma is_digit_digit_char [simp]: "d < 10 \<Longrightarrow> is_digit (digit_char d)"
  by (simp add: is_digit_def digit_char_def of_char_char_of_nat)

lemma digit_char_inj: "d < 10 \<Longrightarrow> e < 10 \<Longrightarrow> digit_char d = digit_char e \<Longrightarrow> d = e"
  by (metis digit_val_digit_char of_nat_eq_iff)

lemma Itoa_nonempty [simp]: "Itoa n \<noteq> []"
  by (subst Itoa.simps) simp

lemma Itoa_digits: "list_all is_digit (Itoa n)"
proof (induction n rule: Itoa.induct)
  case (1 n)
  then show ?case by (subst Itoa.simps) auto
qed

lemma dec_value_snoc [simp]: "dec_value (s @ [c]) = dec_value s * 10 + digit_val c"
  by (simp add: dec_value_def)

lemma dec_value_Itoa [simp]: "dec_value (Itoa n) = int n"
proof (induction n rule: Itoa.induct)
  case (1 n)
  show ?case
  proof (cases "n < 10")
    case True
    then show ?thesis by (subst Itoa.simps) (simp add: dec_value_def)
  next
    case False
    with 1 have "dec_value (Itoa (n div 10)) = int (n div 10)" by simp
    moreover have "int (n div 10) * 10 + int (n mod 10) = int n"
      by (simp add: zdiv_int zmod_int)
    ultimately show ?thesis using False by (subst Itoa.simps) simp
  qed
qed

lemma Itoa_inj: "Itoa m = Itoa n \<longleftrightarrow> m = n"
  by (metis dec_value_Itoa of_nat_eq_iff)

lemma Itoa_head:
  assumes "10 \<le> n"
  shows "\<exists>c cs. Itoa n = c # cs \<and> cs \<noteq> [] \<and> c \<noteq> digit_char 0"
  using assms
proof (induction n rule: Itoa.induct)
  case (1 n)
  then have not_small: "\<not> n < 10" by simp
  show ?case
  proof (cases "n div 10 < 10")
    case True
    with 1(2) have "0 < n div 10" by simp
    with True have "digit_char (n div 10) \<noteq> digit_char 0"
      using digit_char_inj [of "n div 10" 0] by auto
    moreover have "Itoa n = [digit_char (n div 10), digit_char (n mod 10)]"
      using not_small True by (subst Itoa.simps, subst Itoa.simps) simp
    ultimately show ?thesis by simp
  next
    case False
    with 1(1) [OF not_small] obtain c cs
      where "Itoa (n div 10) = c # cs" and "c \<noteq> digit_char 0"
      by auto
    with not_small show ?thesis by (subst Itoa.simps) simp
  qed
qed

end
