(* ===== verification/Netip.thy ===== *)
theory Netip
  imports GoStrings
begin

unbundle bit_operations_syntax

text \<open>
  The part of Go's standard packages \<open>net/netip\<close> and \<open>net\<close> that the repository uses: parsing and
  printing of addresses and prefixes, containment of an address in a prefix, and the CIDR
  parser of package \<open>net\<close> that the webhook calls. Errors carry no more than their presence
  here (\<open>None\<close>): the callers only compare them with nil or quote the input in a message.
\<close>

subsection \<open>Addresses\<close>

text \<open>
  \<open>netip.Addr\<close>: the zero value (which is not a valid address and which the Infoblox client
  returns for "no address"), an IPv4 address, or an IPv6 address with its zone.
\<close>

datatype addr = ZeroAddr | V4 "32 word" | V6 "128 word" string

definition IsValid :: "addr \<Rightarrow> bool" where
  "IsValid a \<longleftrightarrow> a \<noteq> ZeroAddr"

fun Is4 :: "addr \<Rightarrow> bool" where
  "Is4 (V4 _) = True"
| "Is4 _ = False"

fun Is6 :: "addr \<Rightarrow> bool" where
  "Is6 (V6 _ _) = True"
| "Is6 _ = False"

fun BitLen :: "addr \<Rightarrow> nat" where
  "BitLen ZeroAddr = 0"
| "BitLen (V4 _) = 32"
| "BitLen (V6 _ _) = 128"

fun hasZone :: "addr \<Rightarrow> bool" where
  "hasZone (V6 _ z) = (z \<noteq> [])"
| "hasZone _ = False"

definition bytes_int :: "int list \<Rightarrow> int" where
  "bytes_int bs = foldl (\<lambda>n b. n * 256 + b) 0 bs"

subsection \<open>Parsing IPv4\<close>

text \<open>
  \<open>parseIPv4Fields\<close>: \<open>fields\<close> are the octets finished so far, \<open>val\<close> and \<open>dig\<close> the value and
  the number of digits of the current one, \<open>bnd\<close> holds at the start of the text and right
  after a dot.
\<close>

fun v4_loop :: "string \<Rightarrow> int list \<Rightarrow> int \<Rightarrow> nat \<Rightarrow> bool \<Rightarrow> int list option" where
  "v4_loop [] fields val dig bnd =
     (if length fields < 3 then None else Some (fields @ [val]))"
| "v4_loop (c # cs) fields val dig bnd =
     (if is_digit c then
        (if dig = 1 \<and> val = 0 then None
         else let val' = val * 10 + digit_val c
              in if val' > 255 then None else v4_loop cs fields val' (Suc dig) False)
      else if c = CHR ''.'' then
        (if bnd \<or> cs = [] then None
         else if length fields = 3 then None
         else v4_loop cs (fields @ [val]) 0 0 True)
      else None)"

definition parseIPv4Fields :: "string \<Rightarrow> int list option" where
  "parseIPv4Fields s = v4_loop s [] 0 0 True"

definition parseIPv4 :: "string \<Rightarrow> addr option" where
  "parseIPv4 s = map_option (\<lambda>fs. V4 (word_of_int (bytes_int fs))) (parseIPv4Fields s)"

subsection \<open>Parsing IPv6\<close>

definition hex_val :: "char \<Rightarrow> int option" where
  "hex_val c =
     (let n = (of_char c :: int)
      in if 48 \<le> n \<and> n \<le> 57 then Some (n - 48)
         else if 97 \<le> n \<and> n \<le> 102 then Some (n - 87)
         else if 65 \<le> n \<and> n \<le> 70 then Some (n - 55)
         else None)"

text \<open>
  The inner loop of \<open>parseIPv6\<close> reads one hexadecimal group: \<open>None\<close> for more than four digits
  or a value of \<open>2 ^ 16\<close> or more, otherwise the number of digits, the value and the rest.
\<close>

fun hex_scan :: "string \<Rightarrow> nat \<Rightarrow> int \<Rightarrow> (nat \<times> int \<times> string) option" where
  "hex_scan [] off acc = Some (off, acc, [])"
| "hex_scan (c # cs) off acc =
     (case hex_val c of
        None \<Rightarrow> Some (off, acc, c # cs)
      | Some d \<Rightarrow>
          (let acc' = acc * 16 + d
           in if off > 3 then None
              else if acc' > 65535 then None
              else hex_scan cs (Suc off) acc'))"

text \<open>
  The outer loop: \<open>ip\<close> is the prefix of the 16 bytes written so far (the code's index \<open>i\<close> is its
  length) and \<open>ell\<close> the position of the ellipsis, if one was seen.
\<close>

function v6_loop ::
  "string \<Rightarrow> int list \<Rightarrow> nat option \<Rightarrow> (string \<times> int list \<times> nat option) option" where
  "v6_loop s ip ell =
     (if \<not> length ip < 16 then Some (s, ip, ell)
      else case hex_scan s 0 0 of
        None \<Rightarrow> None
      | Some (off, acc, rest) \<Rightarrow>
          if off = 0 then None
          else if rest \<noteq> [] \<and> hd rest = CHR ''.'' then
            (if ell = None \<and> length ip \<noteq> 12 then None
             else if length ip + 4 > 16 then None
             else case parseIPv4Fields s of
                None \<Rightarrow> None
              | Some fs \<Rightarrow> Some ([], ip @ fs, ell))
          else
            (let ip' = ip @ [acc div 256, acc mod 256]
             in case rest of
                [] \<Rightarrow> Some ([], ip', ell)
              | c # r1 \<Rightarrow>
                  if c \<noteq> CHR '':'' then None
                  else case r1 of
                    [] \<Rightarrow> None
                  | d # r2 \<Rightarrow>
                      if d = CHR '':'' then
                        (if ell \<noteq> None then None
                         else if r2 = [] then Some ([], ip', Some (length ip'))
                         else v6_loop r2 ip' (Some (length ip')))
                      else v6_loop r1 ip' ell))"
  by pat_completeness auto
termination
  by (relation "measure (\<lambda>(s, ip, ell). 16 - length ip)") auto

declare v6_loop.simps [simp del]

definition expand_ellipsis :: "int list \<Rightarrow> nat option \<Rightarrow> int list option" where
  "expand_ellipsis ip ell =
     (if length ip < 16 then
        (case ell of
           None \<Rightarrow> None
         | Some e \<Rightarrow> Some (take e ip @ replicate (16 - length ip) 0 @ drop e ip))
      else if ell \<noteq> None then None
      else Some ip)"

definition parseIPv6_body :: "string \<Rightarrow> string \<Rightarrow> addr option" where
  "parseIPv6_body s zone =
     (let lead = HasPrefix s ''::''; s1 = (if lead then drop 2 s else s)
      in if lead \<and> s1 = [] then Some (V6 0 zone)
         else case v6_loop s1 [] (if lead then Some 0 else None) of
           None \<Rightarrow> None
         | Some (rest, ip, ell) \<Rightarrow>
             if rest \<noteq> [] then None
             else map_option (\<lambda>bs. V6 (word_of_int (bytes_int bs)) zone)
                    (expand_ellipsis ip ell))"

definition parseIPv6 :: "string \<Rightarrow> addr option" where
  "parseIPv6 inp =
     (if CHR ''%'' \<in> set inp then
        (let s = takeWhile (\<lambda>c. c \<noteq> CHR ''%'') inp;
             zone = tl (dropWhile (\<lambda>c. c \<noteq> CHR ''%'') inp)
         in if zone = [] then None else parseIPv6_body s zone)
      else parseIPv6_body inp [])"

definition ParseAddr :: "string \<Rightarrow> addr option" where
  "ParseAddr s =
     (case List.find (\<lambda>c. c = CHR ''.'' \<or> c = CHR '':'' \<or> c = CHR ''%'') s of
        None \<Rightarrow> None
      | Some c \<Rightarrow>
          if c = CHR ''.'' then parseIPv4 s
          else if c = CHR '':'' then parseIPv6 s
          else None)"

subsection \<open>Printing\<close>

definition octet :: "32 word \<Rightarrow> nat \<Rightarrow> nat" where
  "octet w k = nat (uint w div 256 ^ k mod 256)"

definition string4 :: "32 word \<Rightarrow> string" where
  "string4 w =
     Itoa (octet w 3) @ ''.'' @ Itoa (octet w 2) @ ''.'' @
     Itoa (octet w 1) @ ''.'' @ Itoa (octet w 0)"

definition v6u16 :: "128 word \<Rightarrow> nat \<Rightarrow> int" where
  "v6u16 w i = uint w div 65536 ^ (7 - i) mod 65536"

definition hex_char :: "int \<Rightarrow> char" where
  "hex_char d = char_of (if d < 10 then 48 + d else 87 + d)"

definition appendHex :: "int \<Rightarrow> string" where
  "appendHex x =
     (if x \<ge> 4096 then [hex_char (x div 4096)] else []) @
     (if x \<ge> 256 then [hex_char (x div 256 mod 16)] else []) @
     (if x \<ge> 16 then [hex_char (x div 16 mod 16)] else []) @
     [hex_char (x mod 16)]"

text \<open>
  \<open>appendTo6\<close> first looks for the longest run of at least two zero groups, the leftmost one
  if several are as long; \<open>(0, 0)\<close> stands for the code's \<open>(255, 255)\<close>, the empty run.
\<close>

definition zero_run_at :: "int list \<Rightarrow> nat \<Rightarrow> nat" where
  "zero_run_at gs i = length (takeWhile (\<lambda>g. g = 0) (drop i gs))"

definition zero_run :: "int list \<Rightarrow> (nat \<times> nat) option" where
  "zero_run gs =
     foldl (\<lambda>best i.
              let l = zero_run_at gs i
              in if l \<ge> 2 \<and> l > (case best of None \<Rightarrow> 0 | Some (zs, ze) \<Rightarrow> ze - zs)
                 then Some (i, i + l) else best)
           None [0..<8]"

function print6 :: "int list \<Rightarrow> (nat \<times> nat) option \<Rightarrow> nat \<Rightarrow> string" where
  "print6 gs run i =
     (if \<not> i < 8 then []
      else case run of
        Some (zs, ze) \<Rightarrow>
          if i = zs \<and> zs < ze then
            ''::'' @ (if ze \<ge> 8 then [] else appendHex (gs ! ze) @ print6 gs run (Suc ze))
          else (if i > 0 then '':'' else []) @ appendHex (gs ! i) @ print6 gs run (Suc i)
      | None \<Rightarrow>
          (if i > 0 then '':'' else []) @ appendHex (gs ! i) @ print6 gs run (Suc i))"
  by pat_completeness auto
termination
  by (relation "measure (\<lambda>(gs, run, i). 8 - i)") auto

declare print6.simps [simp del]

definition string6 :: "128 word \<Rightarrow> string" where
  "string6 w = (let gs = map (v6u16 w) [0..<8] in print6 gs (zero_run gs) 0)"

definition Is4In6 :: "128 word \<Rightarrow> bool" where
  "Is4In6 w \<longleftrightarrow> drop_bit 32 w = 65535"

fun AddrString :: "addr \<Rightarrow> string" where
  "AddrString ZeroAddr = ''invalid IP''"
| "AddrString (V4 w) = string4 w"
| "AddrString (V6 w z) =
     (if Is4In6 w then ''::ffff:'' @ string4 (ucast w) else string6 w) @
     (if z = [] then [] else ''%'' @ z)"

subsection \<open>Prefixes\<close>

text \<open>A valid \<open>netip.Prefix\<close>: an address, host bits included, and the prefix length.\<close>

datatype prefix = Prefix (PrefixAddr: addr) (Bits: nat)

definition ParsePrefix :: "string \<Rightarrow> prefix option" where
  "ParsePrefix s =
     (if CHR ''/'' \<notin> set s then None
      else
        let bitsStr = rev (takeWhile (\<lambda>c. c \<noteq> CHR ''/'') (rev s));
            addrStr = rev (tl (dropWhile (\<lambda>c. c \<noteq> CHR ''/'') (rev s)))
        in case ParseAddr addrStr of
             None \<Rightarrow> None
           | Some ip \<Rightarrow>
               if Is6 ip \<and> hasZone ip then None
               else if length bitsStr > 1 \<and> \<not> (is_digit (hd bitsStr) \<and> hd bitsStr \<noteq> CHR ''0'')
                 then None
               else case Atoi bitsStr of
                 None \<Rightarrow> None
               | Some bits \<Rightarrow>
                   (let maxBits = (if Is6 ip then 128 else 32)
                    in if bits < 0 \<or> bits > maxBits then None
                       else Some (Prefix ip (nat bits))))"

definition PrefixString :: "prefix \<Rightarrow> string" where
  "PrefixString p = AddrString (PrefixAddr p) @ ''/'' @ Itoa (Bits p)"

definition mask6 :: "nat \<Rightarrow> 128 word" where
  "mask6 n = NOT (mask (128 - n))"

definition PrefixContains :: "prefix \<Rightarrow> addr \<Rightarrow> bool" where
  "PrefixContains p ip =
     (if hasZone ip then False
      else case (PrefixAddr p, ip) of
        (V4 a, V4 b) \<Rightarrow> drop_bit (32 - Bits p) (b XOR a) = 0
      | (V6 a _, V6 b _) \<Rightarrow> (b XOR a) AND mask6 (Bits p) = 0
      | _ \<Rightarrow> False)"

subsection \<open>The CIDR parser of package net\<close>

text \<open>
  The network part of \<open>net.ParseCIDR\<close>'s result: the masked address, 4 or 16 bytes long as the
  mask is, and the length of the mask.
\<close>

datatype ipnet = IPNet4 "32 word" nat | IPNet6 "128 word" nat

definition ParseCIDR :: "string \<Rightarrow> ipnet option" where
  "ParseCIDR s =
     (let (a, m, found) = Cut s ''/''
      in if \<not> found then None
         else case ParseAddr a of
           None \<Rightarrow> None
         | Some ip \<Rightarrow>
             if hasZone ip then None
             else
               (let (n, i, ok) = dtoi m
                in if \<not> ok \<or> i \<noteq> length m \<or> n > int (BitLen ip) then None
                   else case ip of
                     V4 w \<Rightarrow> Some (IPNet4 (w AND NOT (mask (32 - nat n))) (nat n))
                   | V6 w _ \<Rightarrow> Some (IPNet6 (w AND NOT (mask (128 - nat n))) (nat n))
                   | ZeroAddr \<Rightarrow> None))"

text \<open>
  \<open>net.IP.String\<close> and \<open>net.IPNet.String\<close>: an address of 16 bytes that is an embedded IPv4
  address prints in dotted form, and then the mask counts its last 32 bits only.
\<close>

fun NetIPString :: "ipnet \<Rightarrow> string" where
  "NetIPString (IPNet4 w _) = string4 w"
| "NetIPString (IPNet6 w _) = (if Is4In6 w then string4 (ucast w) else string6 w)"

fun IPNetString :: "ipnet \<Rightarrow> string" where
  "IPNetString (IPNet4 w n) = string4 w @ ''/'' @ Itoa n"
| "IPNetString (IPNet6 w n) =
     (if Is4In6 w then string4 (ucast w) @ ''/'' @ Itoa (n - 96)
      else string6 w @ ''/'' @ Itoa n)"

end
