(* ===== verification/ApiTypes.thy ===== *)
theory ApiTypes
  imports Netip
begin

text \<open>
  The data that the components exchange: error values and messages, the API objects of
  \<open>api/v1alpha1\<close>, the objects of Cluster API that the provider reads and writes, and the
  functions of the Kubernetes libraries that the repository calls, as a parameter.
\<close>

subsection \<open>Messages and errors\<close>

text \<open>
  A message is literal text or a format with its arguments; the formatted text itself is
  never inspected by the code, so it is not rendered.
\<close>

datatype "text" = Text string | Fmt string "text list"

text \<open>
  Errors of the Infoblox library: a \<open>*ibclient.NotFoundError\<close> (which the code recognises by a
  type assertion) or any other error, each with its \<open>Error()\<close> text.
\<close>

datatype ib_error = NotFoundError string | IBError string

fun ib_text :: "ib_error \<Rightarrow> string" where
  "ib_text (NotFoundError s) = s"
| "ib_text (IBError s) = s"

text \<open>Errors of the Kubernetes client: \<open>apierrors.IsNotFound\<close> tells the first kind apart.\<close>

datatype kube_error = KubeNotFound string | KubeError string

fun IsNotFound :: "kube_error \<Rightarrow> bool" where
  "IsNotFound (KubeNotFound _) = True"
| "IsNotFound (KubeError _) = False"

text \<open>
  Go error values: a library's error, \<open>errors.New\<close> or \<open>fmt.Errorf\<close> without a wrapped error,
  \<open>fmt.Errorf\<close> with \<open>%w\<close>, \<open>errors.Join\<close>, and \<open>kerrors.NewAggregate\<close> applied to a list that
  may contain nil. \<open>ParseError\<close> is the error a parser of the standard library returns for
  the given input. \<open>Panic\<close> is not an error value of Go: it stands for a run-time panic
  that ends the call, and every caller passes it on unchanged.
\<close>

datatype error =
    OfIB ib_error
  | OfKube kube_error
  | ErrorText "text"
  | Wrap string error
  | Joined "error list"
  | Aggregate "error option list"
  | ParseError string
  | Panic string

fun Error :: "error \<Rightarrow> text" where
  "Error (OfIB e) = Text (ib_text e)"
| "Error (OfKube (KubeNotFound s)) = Text s"
| "Error (OfKube (KubeError s)) = Text s"
| "Error (ErrorText t) = t"
| "Error (Wrap s e) = Fmt s [Error e]"
| "Error (Joined es) = Fmt ''errors.Join'' (map Error es)"
| "Error (Aggregate es) = Fmt ''aggregate'' (map (\<lambda>o'. case o' of None \<Rightarrow> Text [] | Some e \<Rightarrow> Error e) es)"
| "Error (ParseError s) = Fmt ''parse error'' [Text s]"
| "Error (Panic s) = Text s"

text \<open>
  \<open>fmt.Errorf\<close> with \<open>%w\<close> around the error of a call that may also panic: the panic leaves
  the caller before it wraps anything.
\<close>

definition wrap_call :: "string \<Rightarrow> error \<Rightarrow> error" where
  "wrap_call fmt e = (case e of Panic msg \<Rightarrow> Panic msg | _ \<Rightarrow> Wrap fmt e)"

definition panic_of :: "error \<Rightarrow> string option" where
  "panic_of e = (case e of Panic msg \<Rightarrow> Some msg | _ \<Rightarrow> None)"

lemma panic_of_Some_iff [simp]: "panic_of e = Some msg \<longleftrightarrow> e = Panic msg"
  by (cases e) (auto simp: panic_of_def)

lemma panic_of_Panic [simp]: "panic_of (Panic msg) = Some msg"
  by simp

subsection \<open>Conditions\<close>

datatype cond_status = ConditionTrue | ConditionFalse | ConditionUnknown

record condition =
  cond_Type :: string
  cond_Status :: cond_status
  cond_Reason :: string
  cond_Message :: "text"

definition ReadyCondition :: string where
  "ReadyCondition = ''Ready''"

definition ReadyReason :: string where
  "ReadyReason = ''Ready''"

definition PoolNotReadyReason :: string where
  "PoolNotReadyReason = ''PoolNotReady''"

definition AddressAllocatedReason :: string where
  "AddressAllocatedReason = ''AddressAllocated''"

definition AllocationFailedReason :: string where
  "AllocationFailedReason = ''AllocationFailed''"

definition AuthenticationFailedReason :: string where
  "AuthenticationFailedReason = ''AuthenticationFailed''"

definition NetworkViewNotFoundReason :: string where
  "NetworkViewNotFoundReason = ''NetworkViewNotFound''"

definition DNSViewNotFoundReason :: string where
  "DNSViewNotFoundReason = ''DNSViewNotFound''"

definition NetworkNotFoundReason :: string where
  "NetworkNotFoundReason = ''NetworkNotFound''"

definition ConfigurationValidReason :: string where
  "ConfigurationValidReason = ''ConfigurationValid''"

lemmas reason_defs = ReadyReason_def PoolNotReadyReason_def AddressAllocatedReason_def
  AllocationFailedReason_def AuthenticationFailedReason_def NetworkViewNotFoundReason_def
  DNSViewNotFoundReason_def NetworkNotFoundReason_def ConfigurationValidReason_def

text \<open>A Ready condition with the given status, reason and message.\<close>

definition ready_cond :: "cond_status \<Rightarrow> string \<Rightarrow> text \<Rightarrow> condition" where
  "ready_cond st reason msg =
     \<lparr>cond_Type = ReadyCondition, cond_Status = st, cond_Reason = reason, cond_Message = msg\<rparr>"

subsection \<open>InfobloxIPPool\<close>

record Subnet =
  CIDR :: string
  Gateway :: string

record InfobloxIPPoolSpec =
  InstanceRef :: string
  Subnets :: "Subnet list"
  NetworkView :: string
  DNSView :: string
  DNSZone :: string

record InfobloxIPPool =
  p_Group :: string
  p_Kind :: string
  p_Name :: string
  p_Namespace :: string
  p_Annotations :: "string \<rightharpoonup> string"
  p_Finalizers :: "string list"
  p_DeletionTimestamp :: "string option"
  p_Spec :: InfobloxIPPoolSpec
  p_Conditions :: "condition list"

definition pool_GetConditions :: "InfobloxIPPool \<Rightarrow> condition list" where
  "pool_GetConditions i = p_Conditions i"

definition pool_SetConditions :: "InfobloxIPPool \<Rightarrow> condition list \<Rightarrow> InfobloxIPPool" where
  "pool_SetConditions i conds = i\<lparr>p_Conditions := conds\<rparr>"

subsection \<open>InfobloxInstance\<close>

record InfobloxInstanceSpec =
  i_Host :: string
  i_Port :: string
  i_WAPIVersion :: string
  i_CredentialsSecretRef :: string
  i_DefaultNetworkView :: string
  i_DefaultDNSView :: string
  i_DisableTLSVerification :: bool
  i_CustomCAPath :: string

record InfobloxInstance =
  i_Name :: string
  i_Spec :: InfobloxInstanceSpec
  i_Conditions :: "condition list"

definition instance_GetConditions :: "InfobloxInstance \<Rightarrow> condition list" where
  "instance_GetConditions i = i_Conditions i"

definition instance_SetConditions ::
  "InfobloxInstance \<Rightarrow> condition list \<Rightarrow> InfobloxInstance" where
  "instance_SetConditions i conds = i\<lparr>i_Conditions := conds\<rparr>"

subsection \<open>Cluster API objects\<close>

record OwnerReference =
  or_APIVersion :: string
  or_Kind :: string
  or_Name :: string

record GroupKind =
  gk_Group :: string
  gk_Kind :: string

record IPPoolReference =
  ref_APIGroup :: string
  ref_Kind :: string
  ref_Name :: string

text \<open>The annotation map of a claim may be nil: reading it is allowed, writing is not.\<close>

record IPAddressClaim =
  c_APIVersion :: string
  c_Name :: string
  c_Namespace :: string
  c_Annotations :: "(string \<rightharpoonup> string) option"
  c_OwnerReferences :: "OwnerReference list"
  c_PoolRef :: IPPoolReference
  c_Conditions :: "condition list"

record IPAddress =
  a_APIVersion :: string
  a_Name :: string
  a_Namespace :: string
  a_PoolRef :: IPPoolReference
  a_Address :: string
  a_Prefix :: "32 word option"
  a_Gateway :: string

subsection \<open>The Kubernetes libraries\<close>

text \<open>
  The library functions the controllers call on metadata and conditions:
  \<open>conditions.Set\<close> and \<open>conditions.IsFalse\<close> of Cluster API on a list of conditions,
  \<open>controllerutil.AddFinalizer\<close> and \<open>RemoveFinalizer\<close> (the new list and whether it changed),
  and the group of \<open>schema.ParseGroupVersion\<close>.
\<close>

record kube_lib =
  lib_Set :: "condition list \<Rightarrow> condition \<Rightarrow> condition list"
  lib_IsFalse :: "condition list \<Rightarrow> string \<Rightarrow> bool"
  lib_AddFinalizer :: "string list \<Rightarrow> string \<Rightarrow> string list \<times> bool"
  lib_RemoveFinalizer :: "string list \<Rightarrow> string \<Rightarrow> string list \<times> bool"
  lib_ParseGroup :: "string \<Rightarrow> string"

text \<open>
  Their documented behaviour, as far as the properties need it: after \<open>Set\<close>, a condition
  type is False exactly if the condition just set is; \<open>AddFinalizer\<close> adds a finalizer that
  is not there and reports it; \<open>RemoveFinalizer\<close> leaves every other finalizer.
\<close>

definition lib_ok :: "kube_lib \<Rightarrow> bool" where
  "lib_ok L \<longleftrightarrow>
     (\<forall>cs c. lib_IsFalse L (lib_Set L cs c) (cond_Type c) = (cond_Status c = ConditionFalse)) \<and>
     (\<forall>fs f. lib_AddFinalizer L fs f = (if f \<in> set fs then (fs, False) else (fs @ [f], True))) \<and>
     (\<forall>fs f. lib_RemoveFinalizer L fs f = (filter (\<lambda>g. g \<noteq> f) fs, f \<in> set fs))"

text \<open>An instance of the documented behaviour, for closed examples.\<close>

definition example_lib :: kube_lib where
  "example_lib =
     \<lparr>lib_Set = (\<lambda>cs c. filter (\<lambda>d. cond_Type d \<noteq> cond_Type c) cs @ [c]),
      lib_IsFalse = (\<lambda>cs t. list_ex (\<lambda>d. cond_Type d = t \<and> cond_Status d = ConditionFalse) cs),
      lib_AddFinalizer = (\<lambda>fs f. if f \<in> set fs then (fs, False) else (fs @ [f], True)),
      lib_RemoveFinalizer = (\<lambda>fs f. (filter (\<lambda>g. g \<noteq> f) fs, f \<in> set fs)),
      lib_ParseGroup = (\<lambda>v. case Split v CHR ''/'' of [g, _] \<Rightarrow> g | _ \<Rightarrow> [])\<rparr>"

lemma example_lib_ok: "lib_ok example_lib"
  by (auto simp: lib_ok_def example_lib_def list_ex_iff)

subsection \<open>Objects with conditions\<close>

text \<open>
  \<open>conditions.Set\<close> works on any object with \<open>GetConditions\<close> and \<open>SetConditions\<close>. What the
  controllers rely on is that the two are a getter and a setter of one field.
\<close>

locale conditions_object =
  fixes getc :: "'o \<Rightarrow> condition list"
    and setc :: "'o \<Rightarrow> condition list \<Rightarrow> 'o"
  assumes get_set: "getc (setc i cs) = cs"
    and set_set: "setc (setc i cs) ds = setc i ds"
begin

lemma set_twice: "setc (setc i (lib_Set L (getc i) c)) (lib_Set L (getc (setc i (lib_Set L (getc i) c))) d)
    = setc i (lib_Set L (lib_Set L (getc i) c) d)"
  by (simp add: get_set set_set)

lemma is_false_after_set:
  assumes "lib_ok L"
  shows "lib_IsFalse L (getc (setc i (lib_Set L cs c))) (cond_Type c) \<longleftrightarrow>
           cond_Status c = ConditionFalse"
  using assms by (simp add: lib_ok_def get_set)

end

interpretation pool_conds: conditions_object pool_GetConditions pool_SetConditions
  by unfold_locales (simp_all add: pool_GetConditions_def pool_SetConditions_def)

interpretation instance_conds: conditions_object instance_GetConditions instance_SetConditions
  by unfold_locales (simp_all add: instance_GetConditions_def instance_SetConditions_def)

end
