(* ===== verification/Json.thy ===== *)
theory Json
  imports GoStrings
begin

text \<open>
  The part of Go's \<open>encoding/json\<close> that \<open>tryParseWapiError\<close> in \<open>pkg/infoblox/client.go\<close> relies
  on: the syntax check of a whole document, and decoding an object into a struct of three
  string fields. Numbers are kept as their text, since no caller looks at their value.
\<close>

datatype json =
    JNull | JBool bool | JNum string | JStr string | JArr "json list" | JObj "(string \<times> json) list"

definition byte :: "char \<Rightarrow> int" where
  "byte c = of_char c"

definition skip_ws :: "string \<Rightarrow> string" where
  "skip_ws s = dropWhile (\<lambda>c. byte c \<in> {32, 9, 10, 13}) s"

subsection \<open>Strings\<close>

definition hex4_digit :: "char \<Rightarrow> int option" where
  "hex4_digit c =
     (let n = byte c
      in if 48 \<le> n \<and> n \<le> 57 then Some (n - 48)
         else if 97 \<le> n \<and> n \<le> 102 then Some (n - 87)
         else if 65 \<le> n \<and> n \<le> 70 then Some (n - 55)
         else None)"

fun hex4 :: "string \<Rightarrow> int option" where
  "hex4 (a # b # c # d # _) =
     (case (hex4_digit a, hex4_digit b, hex4_digit c, hex4_digit d) of
        (Some w, Some x, Some y, Some z) \<Rightarrow> Some (((w * 16 + x) * 16 + y) * 16 + z)
      | _ \<Rightarrow> None)"
| "hex4 _ = None"

definition utf8_encode :: "int \<Rightarrow> string" where
  "utf8_encode r =
     map char_of
       (if r < 128 then [r]
        else if r < 2048 then [192 + r div 64, 128 + r mod 64]
        else if r < 65536 then [224 + r div 4096, 128 + r div 64 mod 64, 128 + r mod 64]
        else [240 + r div 262144, 128 + r div 4096 mod 64, 128 + r div 64 mod 64, 128 + r mod 64])"

definition replacement :: string where
  "replacement = map char_of [239, 191, 189 :: int]"

text \<open>The length of the well-formed UTF-8 sequence at the start of a text, 0 if there is none.\<close>

definition cont :: "string \<Rightarrow> nat \<Rightarrow> int \<Rightarrow> int \<Rightarrow> bool" where
  "cont s i lo hi \<longleftrightarrow> i < length s \<and> lo \<le> byte (s ! i) \<and> byte (s ! i) \<le> hi"

definition utf8_len :: "string \<Rightarrow> nat" where
  "utf8_len s =
     (if s = [] then 0
      else let b = byte (hd s); c = (\<lambda>i. cont s i 128 191)
        in if b < 128 then 1
           else if 194 \<le> b \<and> b \<le> 223 \<and> c 1 then 2
           else if b = 224 \<and> cont s 1 160 191 \<and> c 2 then 3
           else if b = 237 \<and> cont s 1 128 159 \<and> c 2 then 3
           else if 225 \<le> b \<and> b \<le> 239 \<and> b \<noteq> 237 \<and> c 1 \<and> c 2 then 3
           else if b = 240 \<and> cont s 1 144 191 \<and> c 2 \<and> c 3 then 4
           else if 241 \<le> b \<and> b \<le> 243 \<and> c 1 \<and> c 2 \<and> c 3 then 4
           else if b = 244 \<and> cont s 1 128 143 \<and> c 2 \<and> c 3 then 4
           else 0)"

text \<open>
  A code unit of a \<open>\u\<close> escape, given the text after its four digits: the UTF-8 bytes it
  stands for and how many further bytes (those of the low surrogate's escape) it consumes.
\<close>

definition unicode_escape :: "int \<Rightarrow> string \<Rightarrow> string \<times> nat" where
  "unicode_escape r rest =
     (if 55296 \<le> r \<and> r < 57344 then
        (case (if r < 56320 \<and> HasPrefix rest [CHR 0x5C, CHR ''u''] then hex4 (drop 2 rest) else None) of
           Some r2 \<Rightarrow>
             if 56320 \<le> r2 \<and> r2 < 57344
             then (utf8_encode (65536 + (r - 55296) * 1024 + (r2 - 56320)), 6)
             else (replacement, 0)
         | None \<Rightarrow> (replacement, 0))
      else (utf8_encode r, 0))"

definition simple_escape :: "char \<Rightarrow> char option" where
  "simple_escape c =
     (if c = CHR 0x22 \<or> c = CHR 0x5C \<or> c = CHR ''/'' then Some c
      else if c = CHR ''b'' then Some CHR 0x08
      else if c = CHR ''f'' then Some CHR 0x0C
      else if c = CHR ''n'' then Some CHR 0x0A
      else if c = CHR ''r'' then Some CHR 0x0D
      else if c = CHR ''t'' then Some CHR 0x09
      else None)"

text \<open>A string literal after its opening quote: the decoded text and what follows the literal.\<close>

function pstr :: "string \<Rightarrow> (string \<times> string) option" where
  "pstr [] = None"
| "pstr (c # cs) =
     (if c = CHR 0x22 then Some ([], cs)
      else if byte c < 32 then None
      else if c = CHR 0x5C then
        (case cs of
           [] \<Rightarrow> None
         | e # es \<Rightarrow>
             if e = CHR ''u'' then
               (case hex4 es of
                  None \<Rightarrow> None
                | Some r \<Rightarrow>
                    (let (out, k) = unicode_escape r (drop 4 es)
                     in map_option (\<lambda>(t, rest). (out @ t, rest)) (pstr (drop (4 + k) es))))
             else (case simple_escape e of
                     None \<Rightarrow> None
                   | Some x \<Rightarrow> map_option (\<lambda>(t, rest). (x # t, rest)) (pstr es)))
      else
        (let k = utf8_len (c # cs)
         in if k = 0 then map_option (\<lambda>(t, rest). (replacement @ t, rest)) (pstr cs)
            else map_option (\<lambda>(t, rest). (take k (c # cs) @ t, rest)) (pstr (drop (k - 1) cs))))"
  by pat_completeness auto
termination
  by (relation "measure length") (auto simp: less_Suc_eq_le le_diff_conv)

subsection \<open>Numbers and literals\<close>

definition digits_of :: "string \<Rightarrow> string \<times> string" where
  "digits_of s = (takeWhile is_digit s, dropWhile is_digit s)"

definition pfrac :: "string \<Rightarrow> string option" where
  "pfrac s =
     (case s of
        c # cs \<Rightarrow>
          if c = CHR ''.'' then (let (d, r) = digits_of cs in if d = [] then None else Some r)
          else Some s
      | [] \<Rightarrow> Some s)"

definition pexp :: "string \<Rightarrow> string option" where
  "pexp s =
     (case s of
        c # cs \<Rightarrow>
          if c = CHR ''e'' \<or> c = CHR ''E'' then
            (let cs' = (case cs of x # xs \<Rightarrow> if x = CHR ''+'' \<or> x = CHR ''-'' then xs else cs | [] \<Rightarrow> []);
                 (d, r) = digits_of cs'
             in if d = [] then None else Some r)
          else Some s
      | [] \<Rightarrow> Some s)"

definition pnum :: "string \<Rightarrow> string option" where
  "pnum s =
     (let s1 = (case s of c # cs \<Rightarrow> if c = CHR ''-'' then cs else s | [] \<Rightarrow> []);
          (d, r) = digits_of s1
      in if d = [] then None
         else (let r1 = (if hd d = CHR ''0'' then tl d @ r else r)
               in Option.bind (pfrac r1) pexp))"

subsection \<open>Values\<close>

text \<open>
  The grammar, with Go's limit of 10000 nested arrays and objects as \<open>depth\<close>. \<open>fuel\<close> bounds
  the number of nested calls; every call on an element or a member consumes at least one
  byte, so twice the length of the document is enough.
\<close>

fun pval :: "nat \<Rightarrow> int \<Rightarrow> string \<Rightarrow> (json \<times> string) option"
and pelems :: "nat \<Rightarrow> int \<Rightarrow> string \<Rightarrow> (json list \<times> string) option"
and pmembers :: "nat \<Rightarrow> int \<Rightarrow> string \<Rightarrow> ((string \<times> json) list \<times> string) option"
where
  "pval 0 depth s = None"
| "pval (Suc fuel) depth s =
     (case s of
        [] \<Rightarrow> None
      | c # cs \<Rightarrow>
          if c = CHR 0x22 then map_option (\<lambda>(t, r). (JStr t, r)) (pstr cs)
          else if c = CHR ''{'' then
            (if depth \<ge> 10000 then None
             else let r = skip_ws cs
               in if r \<noteq> [] \<and> hd r = CHR ''}'' then Some (JObj [], tl r)
                  else map_option (\<lambda>(ms, r). (JObj ms, r)) (pmembers fuel (depth + 1) r))
          else if c = CHR ''['' then
            (if depth \<ge> 10000 then None
             else let r = skip_ws cs
               in if r \<noteq> [] \<and> hd r = CHR '']'' then Some (JArr [], tl r)
                  else map_option (\<lambda>(es, r). (JArr es, r)) (pelems fuel (depth + 1) r))
          else if HasPrefix s ''null'' then Some (JNull, drop 4 s)
          else if HasPrefix s ''true'' then Some (JBool True, drop 4 s)
          else if HasPrefix s ''false'' then Some (JBool False, drop 5 s)
          else map_option (\<lambda>r. (JNum (take (length s - length r) s), r)) (pnum s))"
| "pelems 0 depth s = None"
| "pelems (Suc fuel) depth s =
     (case pval fuel depth s of
        None \<Rightarrow> None
      | Some (v, r) \<Rightarrow>
          (case skip_ws r of
             [] \<Rightarrow> None
           | c # cs \<Rightarrow>
               if c = CHR '']'' then Some ([v], cs)
               else if c = CHR '','' then
                 map_option (\<lambda>(vs, r). (v # vs, r)) (pelems fuel depth (skip_ws cs))
               else None))"
| "pmembers 0 depth s = None"
| "pmembers (Suc fuel) depth s =
     (case s of
        [] \<Rightarrow> None
      | q # qs \<Rightarrow>
          if q \<noteq> CHR 0x22 then None
          else case pstr qs of
            None \<Rightarrow> None
          | Some (key, r) \<Rightarrow>
              (case skip_ws r of
                 [] \<Rightarrow> None
               | c # cs \<Rightarrow>
                   if c \<noteq> CHR '':'' then None
                   else case pval fuel depth (skip_ws cs) of
                     None \<Rightarrow> None
                   | Some (v, r) \<Rightarrow>
                       (case skip_ws r of
                          [] \<Rightarrow> None
                        | c # cs \<Rightarrow>
                            if c = CHR ''}'' then Some ([(key, v)], cs)
                            else if c = CHR '','' then
                              map_option (\<lambda>(ms, r). ((key, v) # ms, r))
                                (pmembers fuel depth (skip_ws cs))
                            else None)))"

definition parse_json :: "string \<Rightarrow> json option" where
  "parse_json s =
     (case pval (2 * length s + 2) 0 (skip_ws s) of
        None \<Rightarrow> None
      | Some (v, r) \<Rightarrow> if skip_ws r = [] then Some v else None)"

subsection \<open>Decoding into a struct with string fields\<close>

definition upper :: "char \<Rightarrow> char" where
  "upper c = (if 97 \<le> byte c \<and> byte c \<le> 122 then char_of (byte c - 32) else c)"

definition same_field :: "string \<Rightarrow> string \<Rightarrow> bool" where
  "same_field name key \<longleftrightarrow> map upper key = map upper name"

text \<open>
  One string field of the struct: members that match its name are stored in order, null
  leaves the field alone, and any other kind of value makes the decoding an error.
\<close>

fun decode_field :: "string \<Rightarrow> (string \<times> json) list \<Rightarrow> string \<Rightarrow> string option" where
  "decode_field name [] cur = Some cur"
| "decode_field name ((key, v) # ms) cur =
     (if same_field name key then
        (case v of
           JStr t \<Rightarrow> decode_field name ms t
         | JNull \<Rightarrow> decode_field name ms cur
         | _ \<Rightarrow> None)
      else decode_field name ms cur)"

subsection \<open>The fuel is enough\<close>

text \<open>Every successful step consumes input.\<close>

lemma skip_ws_length: "length (skip_ws s) \<le> length s"
  by (simp add: skip_ws_def length_dropWhile_le)

lemma skip_ws_Cons_length: "skip_ws s = c # cs \<Longrightarrow> Suc (length cs) \<le> length s"
  by (metis length_Cons skip_ws_length)

lemma pstr_length: "pstr s = Some (t, r) \<Longrightarrow> length r < length s"
proof (induction s arbitrary: t r rule: pstr.induct)
  case 1
  then show ?case by simp
next
  case (2 c cs)
  then show ?case
    by (fastforce simp: Let_def split: if_splits list.splits option.splits prod.splits)
qed

lemma digits_of_length: "digits_of s = (d, r) \<Longrightarrow> length s = length d + length r"
  by (auto simp: digits_of_def) (metis length_append takeWhile_dropWhile_id)

lemma pfrac_length: "pfrac s = Some r \<Longrightarrow> length r \<le> length s"
  by (auto simp: pfrac_def Let_def dest!: digits_of_length split: list.splits if_splits prod.splits)

lemma pexp_length: "pexp s = Some r \<Longrightarrow> length r \<le> length s"
  by (auto simp: pexp_def Let_def dest!: digits_of_length
      split: list.splits if_splits prod.splits)

lemma pnum_length: "pnum s = Some r \<Longrightarrow> length r < length s"
proof -
  assume p: "pnum s = Some r"
  define s1 where "s1 = (case s of c # cs \<Rightarrow> if c = CHR ''-'' then cs else s | [] \<Rightarrow> [])"
  obtain d r0 where d: "digits_of s1 = (d, r0)" by (cases "digits_of s1")
  define r1 where "r1 = (if hd d = CHR ''0'' then tl d @ r0 else r0)"
  from p d have ne: "d \<noteq> []" and b: "Option.bind (pfrac r1) pexp = Some r"
    by (auto simp: pnum_def Let_def s1_def r1_def split: if_splits)
  then have "length r \<le> length r1"
    by (auto simp: bind_eq_Some_conv dest!: pfrac_length pexp_length)
  also have "length r1 < length s1"
    using ne digits_of_length [OF d] by (cases d) (auto simp: r1_def)
  also have "length s1 \<le> length s" by (auto simp: s1_def split: list.splits)
  finally show ?thesis .
qed

lemma parse_consumes:
  "pval fuel depth s = Some (v, r) \<Longrightarrow> length r < length s"
  "pelems fuel depth s = Some (vs, r) \<Longrightarrow> length r < length s"
  "pmembers fuel depth s = Some (ms, r) \<Longrightarrow> length r < length s"
proof (induction fuel depth s and fuel depth s and fuel depth s
    arbitrary: v r and vs r and ms r rule: pval_pelems_pmembers.induct)
  case (2 fuel depth s)
  show ?case
  proof (cases s)
    case Nil
    with "2.prems" show ?thesis by simp
  next
    case (Cons c cs)
    have "length (tl (skip_ws cs)) \<le> length cs" "length (skip_ws cs) \<le> length cs"
      using skip_ws_length [of cs] by (simp_all add: le_diff_conv)
    with 2 Cons show ?thesis
      by (fastforce simp: Let_def dest: pstr_length pnum_length split: if_splits)
  qed
next
  case (4 fuel depth s)
  from "4.prems" obtain v0 r0 c cs where v0: "pval fuel depth s = Some (v0, r0)"
    and c: "skip_ws r0 = c # cs" and c2: "c = CHR '']'' \<or> c = CHR '',''"
    by (auto split: option.splits prod.splits list.splits if_splits)
  have "length r0 < length s" by (rule "4.IH"(1) [OF v0])
  moreover have "length cs < length r0" using skip_ws_Cons_length [OF c] by simp
  moreover have "length (skip_ws cs) \<le> length cs" by (rule skip_ws_length)
  ultimately show ?case
    using "4.prems" "4.IH"(2) [OF v0 refl c] v0 c c2 by (fastforce split: if_splits)
next
  case (6 fuel depth s)
  from "6.prems" obtain q qs key r0 where q: "s = q # qs" "q = CHR 0x22" "pstr qs = Some (key, r0)"
    by (auto split: option.splits prod.splits list.splits if_splits)
  with "6.prems" obtain c cs v1 r1 where c: "skip_ws r0 = c # cs" "c = CHR '':''"
    "pval fuel depth (skip_ws cs) = Some (v1, r1)"
    by (auto split: option.splits prod.splits list.splits if_splits)
  with "6.prems" q obtain e es where e: "skip_ws r1 = e # es" "e = CHR ''}'' \<or> e = CHR '',''"
    by (auto split: option.splits prod.splits list.splits if_splits)
  have 1: "length r0 < length qs" by (rule pstr_length [OF q(3)])
  have 2: "length cs < length r0" using skip_ws_Cons_length [OF c(1)] by simp
  have 3: "length r1 < length (skip_ws cs)"
    using "6.IH"(1) [OF q(1) _ q(3) refl c(1) _ c(3)] q(2) c(2) by simp
  have 4: "length es < length r1" using skip_ws_Cons_length [OF e(1)] by simp
  have 5: "length (skip_ws cs) \<le> length cs" "length (skip_ws es) \<le> length es"
    by (rule skip_ws_length)+
  show ?case
  proof (cases "e = CHR ''}''")
    case True
    with "6.prems" q c e 1 2 3 4 5 show ?thesis by auto
  next
    case False
    with e have "e = CHR '',''" by simp
    with "6.prems" q c e obtain ms' where "pmembers fuel depth (skip_ws es) = Some (ms', r)"
      by auto
    with "6.IH"(2) [OF q(1) _ q(3) refl c(1) _ c(3) refl e(1) False] q(2) c(2) \<open>e = CHR '',''\<close>
    have "length r < length (skip_ws es)" by simp
    with q 1 2 3 4 5 show ?thesis by simp
  qed
qed auto

text \<open>The key of a member and what follows its colon, the part of a member that spends no fuel.\<close>

definition pmembers_head :: "string \<Rightarrow> (string \<times> string) option" where
  "pmembers_head s =
     (case s of
        [] \<Rightarrow> None
      | q # qs \<Rightarrow>
          if q \<noteq> CHR 0x22 then None
          else case pstr qs of
            None \<Rightarrow> None
          | Some (key, r) \<Rightarrow>
              (case skip_ws r of
                 [] \<Rightarrow> None
               | c # cs \<Rightarrow> if c \<noteq> CHR '':'' then None else Some (key, cs)))"

lemma pmembers_unfold:
  "pmembers (Suc fuel) depth s =
     (case pmembers_head s of
        None \<Rightarrow> None
      | Some (key, cs) \<Rightarrow>
          (case pval fuel depth (skip_ws cs) of
             None \<Rightarrow> None
           | Some (v, r) \<Rightarrow>
               (case skip_ws r of
                  [] \<Rightarrow> None
                | c # cs \<Rightarrow>
                    if c = CHR ''}'' then Some ([(key, v)], cs)
                    else if c = CHR '','' then
                      map_option (\<lambda>(ms, r). ((key, v) # ms, r)) (pmembers fuel depth (skip_ws cs))
                    else None)))"
  by (simp add: pmembers_head_def split: list.split option.split prod.split)

lemma pmembers_head_length: "pmembers_head s = Some (key, cs) \<Longrightarrow> length cs < length s"
  by (auto simp: pmembers_head_def split: list.splits if_splits option.splits prod.splits
      dest!: pstr_length skip_ws_Cons_length)

text \<open>One more unit of fuel changes nothing once there are two per byte.\<close>

lemma more_fuel:
  "2 * length s < fuel \<Longrightarrow> pval (Suc fuel) depth s = pval fuel depth s"
  "2 * length s + 1 < fuel \<Longrightarrow> pelems (Suc fuel) depth s = pelems fuel depth s"
  "2 * length s < fuel \<Longrightarrow> pmembers (Suc fuel) depth s = pmembers fuel depth s"
proof (induction fuel arbitrary: depth s)
  case 0
  {
    case 1
    then show ?case by simp
  next
    case 2
    then show ?case by simp
  next
    case 3
    then show ?case by simp
  }
next
  case (Suc n)
  {
    case 1
    show ?case
    proof (cases s)
      case Nil
      then show ?thesis by simp
    next
      case (Cons c cs)
      have "length (skip_ws cs) \<le> length cs" by (rule skip_ws_length)
      with 1 Cons have "2 * length (skip_ws cs) + 1 < n" by simp
      then have "pelems (Suc n) (depth + 1) (skip_ws cs) = pelems n (depth + 1) (skip_ws cs)"
        and "pmembers (Suc n) (depth + 1) (skip_ws cs) = pmembers n (depth + 1) (skip_ws cs)"
        using Suc(2,3) by simp_all
      with Cons show ?thesis by (simp only: pval.simps list.case Let_def)
    qed
  next
    case 2
    have v: "pval (Suc n) depth s = pval n depth s" using 2 Suc(1) by simp
    show ?case
    proof (cases "pval n depth s")
      case None
      with v show ?thesis by (simp only: pelems.simps option.case)
    next
      case (Some p)
      obtain x r where p: "p = (x, r)" by (cases p)
      show ?thesis
      proof (cases "skip_ws r")
        case Nil
        with v Some p show ?thesis by (simp only: pelems.simps option.case prod.case list.case)
      next
        case (Cons c cs)
        have "length r < length s" using Some p parse_consumes(1) by blast
        moreover have "length cs < length r" using skip_ws_Cons_length [OF Cons] by simp
        moreover have "length (skip_ws cs) \<le> length cs" by (rule skip_ws_length)
        ultimately have "2 * length (skip_ws cs) + 1 < n" using 2 by simp
        then have "pelems (Suc n) depth (skip_ws cs) = pelems n depth (skip_ws cs)"
          by (rule Suc(2))
        with v Some p Cons show ?thesis
          by (simp only: pelems.simps option.case prod.case list.case)
      qed
    qed
  next
    case 3
    have fuel: "2 * length t < n" if "Suc (length t) \<le> length s" for t :: string
      using 3 that by simp
    show ?case
    proof (cases "pmembers_head s")
      case None
      then show ?thesis by (simp only: pmembers_unfold option.case)
    next
      case (Some p)
      obtain key cs where p: "p = (key, cs)" by (cases p)
      have l: "length cs < length s" using Some p pmembers_head_length by blast
      then have v: "pval (Suc n) depth (skip_ws cs) = pval n depth (skip_ws cs)"
        using Suc(1) fuel [of "skip_ws cs"] skip_ws_length [of cs] by simp
      show ?thesis
      proof (cases "pval n depth (skip_ws cs)")
        case None
        with v Some p show ?thesis by (simp only: pmembers_unfold option.case prod.case)
      next
        case (Some q)
        obtain x r where q: "q = (x, r)" by (cases q)
        have lr: "length r < length (skip_ws cs)" using Some q parse_consumes(1) by blast
        have m: "pmembers (Suc n) depth (skip_ws es) = pmembers n depth (skip_ws es)"
          if "skip_ws r = e # es" for e es
        proof -
          have "length (skip_ws es) < length s"
            using l lr skip_ws_length [of cs] skip_ws_length [of es] skip_ws_Cons_length [OF that]
            by simp
          then show ?thesis using Suc(3) fuel by simp
        qed
        show ?thesis
          using v Some q p \<open>pmembers_head s = Some p\<close> m
          by (cases "skip_ws r") (simp_all only: pmembers_unfold option.case prod.case list.case)
      qed
    qed
  }
qed

lemma pval_enough_fuel:
  assumes "2 * length s + 1 \<le> fuel"
  shows "pval fuel depth s = pval (2 * length s + 1) depth s"
  using assms
proof (induction rule: dec_induct)
  case base
  show ?case by (rule refl)
next
  case (step n)
  then have "pval (Suc n) depth s = pval n depth s" by (intro more_fuel(1)) simp
  with step show ?case by simp
qed

end
