(* ===== verification/Infoblox.thy ===== *)
theory Infoblox
  imports ApiTypes Json
begin

text \<open>
  \<open>pkg/infoblox/client.go\<close>: the configuration of a client, the credentials, the existence checks
  and the handling of the appliance's error messages. The Infoblox library (connector, object
  manager) is a parameter.
\<close>

subsection \<open>Configuration\<close>

definition secretKeyUsername :: string where
  "secretKeyUsername = ''username''"

definition secretKeyPassowrd :: string where
  "secretKeyPassowrd = ''password''"

definition secretKeyClientCert :: string where
  "secretKeyClientCert = ''clientCert''"

definition secretKeyClientKey :: string where
  "secretKeyClientKey = ''clientKey''"

record AuthConfig =
  ac_Username :: string
  ac_Password :: string
  ac_ClientCert :: string
  ac_ClientKey :: string

record HostConfig =
  hc_Host :: string
  hc_Version :: string
  hc_DisableTLSVerification :: bool
  hc_CustomCAPath :: string
  hc_DefaultNetworkView :: string
  hc_DefaultDNSView :: string

record Config =
  cfg_HostConfig :: HostConfig
  cfg_AuthConfig :: AuthConfig

text \<open>A missing key of a Go map reads as the zero value, here the empty byte string.\<close>

definition map_get :: "(string \<rightharpoonup> string) \<Rightarrow> string \<Rightarrow> string" where
  "map_get m k = (case m k of None \<Rightarrow> [] | Some v \<Rightarrow> v)"

definition AuthConfigFromSecretData :: "(string \<rightharpoonup> string) \<Rightarrow> error + AuthConfig" where
  "AuthConfigFromSecretData data =
     (let config = \<lparr>ac_Username = map_get data secretKeyUsername,
                    ac_Password = map_get data secretKeyPassowrd,
                    ac_ClientCert = map_get data secretKeyClientCert,
                    ac_ClientKey = map_get data secretKeyClientKey\<rparr>
      in if (ac_Username config \<noteq> [] \<and> ac_Password config \<noteq> []) \<or>
            (length (ac_ClientCert config) > 0 \<and> length (ac_ClientKey config) > 0)
         then Inr config
         else Inl (ErrorText (Text ''no usable pair of credentials found. provide either username/password or clientCert/clientKey'')))"

subsection \<open>Creating a client\<close>

text \<open>The library's own host and transport configuration, and the constructors it offers.\<close>

record ib_host =
  ib_Host :: string
  ib_Port :: string
  ib_Version :: string

record ib_transport =
  tr_sslVerify :: string
  tr_timeout :: int
  tr_pool :: nat

record ('con, 'om) ib_lib =
  lib_NewConnector :: "ib_host \<Rightarrow> AuthConfig \<Rightarrow> ib_transport \<Rightarrow> ib_error + 'con"
  lib_NewObjectManager :: "'con \<Rightarrow> string \<Rightarrow> string \<Rightarrow> 'om"

record ('con, 'om) client =
  connector :: 'con
  objMgr :: 'om
  hc :: HostConfig

definition client_host :: "HostConfig \<Rightarrow> ib_host" where
  "client_host config =
     (let hostParts = SplitN2 (hc_Host config) CHR '':''
      in \<lparr>ib_Host = hd hostParts,
          ib_Port = (if length hostParts = 2 then hostParts ! 1 else ''443''),
          ib_Version = hc_Version config\<rparr>)"

definition client_tlsVerify :: "HostConfig \<Rightarrow> string" where
  "client_tlsVerify config =
     (if hc_DisableTLSVerification config then ''false''
      else if hc_CustomCAPath config \<noteq> [] then hc_CustomCAPath config
      else ''true'')"

definition NewClient ::
  "('con, 'om) ib_lib \<Rightarrow> Config \<Rightarrow> error + ('con, 'om) client" where
  "NewClient ib config =
     (case lib_NewConnector ib (client_host (cfg_HostConfig config)) (cfg_AuthConfig config)
             \<lparr>tr_sslVerify = client_tlsVerify (cfg_HostConfig config),
              tr_timeout = 1000000000, tr_pool = 5\<rparr> of
        Inl err \<Rightarrow> Inl (OfIB err)
      | Inr con \<Rightarrow>
          Inr \<lparr>connector = con,
               objMgr = lib_NewObjectManager ib con ''cluster-api-ipam-provider-infoblox'' [],
               hc = cfg_HostConfig config\<rparr>)"

definition GetHostConfig :: "('con, 'om) client \<Rightarrow> HostConfig" where
  "GetHostConfig c = hc c"

subsection \<open>Existence checks\<close>

text \<open>
  The queries of the object manager that the checks use: an error or success. \<open>GetNetwork\<close>
  takes the network view, the CIDR text and whether it is IPv6.
\<close>

record obj_mgr =
  GetNetworkView :: "string \<Rightarrow> ib_error option"
  GetDNSView :: "string \<Rightarrow> ib_error option"
  GetNetwork :: "string \<Rightarrow> string \<Rightarrow> bool \<Rightarrow> ib_error option"

definition isNotFound :: "ib_error option \<Rightarrow> bool" where
  "isNotFound err =
     (case err of None \<Rightarrow> False | Some e \<Rightarrow> HasSuffix (ib_text e) ''not found'')"

definition CheckNetworkViewExists :: "obj_mgr \<Rightarrow> string \<Rightarrow> error + bool" where
  "CheckNetworkViewExists om view =
     (case GetNetworkView om view of
        Some err \<Rightarrow> if isNotFound (Some err) then Inr False else Inl (OfIB err)
      | None \<Rightarrow> Inr True)"

definition CheckDNSViewExists :: "obj_mgr \<Rightarrow> string \<Rightarrow> error + bool" where
  "CheckDNSViewExists om view =
     (case GetDNSView om view of
        Some err \<Rightarrow> if isNotFound (Some err) then Inr False else Inl (OfIB err)
      | None \<Rightarrow> Inr True)"

definition CheckNetworkExists :: "obj_mgr \<Rightarrow> string \<Rightarrow> prefix \<Rightarrow> error + bool" where
  "CheckNetworkExists om view subnet =
     (case GetNetwork om view (PrefixString subnet) (Is6 (PrefixAddr subnet)) of
        Some err \<Rightarrow> if isNotFound (Some err) then Inr False else Inl (OfIB err)
      | None \<Rightarrow> Inr True)"

subsection \<open>Error messages of the appliance\<close>

text \<open>\<open>json.Unmarshal\<close> into the struct of the fields Error, code and text.\<close>

definition unmarshal_wapi_error :: "string \<Rightarrow> (string \<times> string \<times> string) option" where
  "unmarshal_wapi_error content =
     (case parse_json content of
        Some (JObj ms) \<Rightarrow>
          (case (decode_field ''Error'' ms [], decode_field ''code'' ms [], decode_field ''text'' ms []) of
             (Some e, Some c, Some t) \<Rightarrow> Some (e, c, t)
           | _ \<Rightarrow> None)
      | Some JNull \<Rightarrow> Some ([], [], [])
      | _ \<Rightarrow> None)"

definition tryParseWapiError :: "ib_error option \<Rightarrow> error option" where
  "tryParseWapiError inp =
     (case inp of
        None \<Rightarrow> None
      | Some e \<Rightarrow>
          (let (_, content, ok) = Cut (ib_text e) ''Contents:''
           in if \<not> ok then Some (OfIB e)
              else case unmarshal_wapi_error content of
                None \<Rightarrow> Some (OfIB e)
              | Some (_, code, txt) \<Rightarrow> Some (ErrorText (Text (txt @ '' ('' @ code @ '')'')))))"

subsection \<open>Facts\<close>

lemma AuthConfig_ok_iff:
  "is_ok (AuthConfigFromSecretData data) \<longleftrightarrow>
     (map_get data ''username'' \<noteq> [] \<and> map_get data ''password'' \<noteq> []) \<or>
     (map_get data ''clientCert'' \<noteq> [] \<and> map_get data ''clientKey'' \<noteq> [])"
  by (simp add: AuthConfigFromSecretData_def Let_def secretKeyUsername_def secretKeyPassowrd_def
      secretKeyClientCert_def secretKeyClientKey_def)

lemma client_host_port:
  assumes "CHR '':'' \<notin> set h" and "hc_Host config = h @ '':'' @ p"
  shows "ib_Host (client_host config) = h \<and> ib_Port (client_host config) = p"
  using assms by (simp add: client_host_def SplitN2_sep)

lemma client_host_default_port:
  assumes "CHR '':'' \<notin> set (hc_Host config)"
  shows "ib_Host (client_host config) = hc_Host config \<and> ib_Port (client_host config) = ''443''"
  using assms by (simp add: client_host_def SplitN2_no_sep)

lemma tryParseWapiError_None_iff [simp]: "tryParseWapiError e = None \<longleftrightarrow> e = None"
  by (auto simp: tryParseWapiError_def split: option.splits prod.splits if_splits)

lemma tryParseWapiError_plain:
  "\<not> snd (snd (Cut (ib_text e) ''Contents:'')) \<Longrightarrow> tryParseWapiError (Some e) = Some (OfIB e)"
  by (auto simp: tryParseWapiError_def split: prod.splits)

end
