(* ===== verification/WapiError.thy ===== *)
theory WapiError
  imports Infoblox
begin

text \<open>
  What \<open>tryParseWapiError\<close> (\<open>pkg/infoblox/client.go\<close>) makes of the appliance's error documents.
\<close>

subsection \<open>Plain JSON strings\<close>

text \<open>Printable ASCII without the quote and the backslash needs no escape.\<close>

definition plain :: "string \<Rightarrow> bool" where
  "plain s \<longleftrightarrow> (\<forall>c \<in> set s. 32 \<le> byte c \<and> byte c < 128 \<and> c \<noteq> CHR 0x22 \<and> c \<noteq> CHR 0x5C)"

lemma plain_simps [simp]:
  "plain []"
  "plain (c # s) \<longleftrightarrow> 32 \<le> byte c \<and> byte c < 128 \<and> c \<noteq> CHR 0x22 \<and> c \<noteq> CHR 0x5C \<and> plain s"
  by (auto simp: plain_def)

lemma pstr_plain: "plain t \<Longrightarrow> pstr (t @ CHR 0x22 # r) = Some (t, r)"
proof (induction t)
  case Nil
  then show ?case by simp
next
  case (Cons c t)
  then have "utf8_len (c # t @ CHR 0x22 # r) = 1" by (simp add: utf8_len_def Let_def)
  with Cons show ?case by simp
qed

text \<open>The error document of the appliance, with its three fields.\<close>

definition wapi_document :: "string \<Rightarrow> string \<Rightarrow> string \<Rightarrow> string" where
  "wapi_document e c t =
     ''{'' @ [CHR 0x22] @ ''Error'' @ [CHR 0x22] @ '':'' @ [CHR 0x22] @ e @ [CHR 0x22] @ '','' @
     [CHR 0x22] @ ''code'' @ [CHR 0x22] @ '':'' @ [CHR 0x22] @ c @ [CHR 0x22] @ '','' @
     [CHR 0x22] @ ''text'' @ [CHR 0x22] @ '':'' @ [CHR 0x22] @ t @ [CHR 0x22] @ ''}''"

lemma skip_ws_start: "byte c \<notin> {32, 9, 10, 13} \<Longrightarrow> skip_ws (c # s) = c # s"
  by (simp add: skip_ws_def)

lemma skip_ws_punct [simp]:
  "skip_ws (CHR 0x22 # s) = CHR 0x22 # s" "skip_ws (CHR '':'' # s) = CHR '':'' # s"
  "skip_ws (CHR '','' # s) = CHR '','' # s" "skip_ws (CHR ''}'' # s) = CHR ''}'' # s"
  "skip_ws (CHR ''{'' # s) = CHR ''{'' # s" "skip_ws [] = []"
  by (simp_all add: skip_ws_def byte_def)

lemma pval_string: "plain t \<Longrightarrow> pval (Suc fuel) d (CHR 0x22 # t @ CHR 0x22 # r) = Some (JStr t, r)"
  by (simp add: pstr_plain)

lemma pmembers_last:
  "plain k \<Longrightarrow> plain v \<Longrightarrow>
     pmembers (Suc (Suc fuel)) d (CHR 0x22 # k @ CHR 0x22 # CHR '':'' # CHR 0x22 # v @ CHR 0x22 # CHR ''}'' # r) =
       Some ([(k, JStr v)], r)"
  by (simp add: pstr_plain)

lemma pmembers_more:
  "plain k \<Longrightarrow> plain v \<Longrightarrow>
     pmembers (Suc (Suc fuel)) d (CHR 0x22 # k @ CHR 0x22 # CHR '':'' # CHR 0x22 # v @ CHR 0x22 # CHR '','' # CHR 0x22 # r) =
       map_option (\<lambda>(ms, r). ((k, JStr v) # ms, r)) (pmembers (Suc fuel) d (CHR 0x22 # r))"
  by (simp add: pstr_plain)

lemma plain_keys: "plain ''Error''" "plain ''code''" "plain ''text''"
  by code_simp+

lemma parse_wapi_document:
  assumes "plain e" and "plain c" and "plain t"
  shows "parse_json (wapi_document e c t) =
           Some (JObj [(''Error'', JStr e), (''code'', JStr c), (''text'', JStr t)])"
proof -
  let ?d = "wapi_document e c t"
  have "length ?d \<ge> 3" by (simp add: wapi_document_def)
  then have "2 * length ?d + 2 = Suc (Suc (Suc (Suc (Suc (2 * length ?d - 3)))))" by arith
  then obtain f where f: "2 * length ?d + 2 = Suc (Suc (Suc (Suc (Suc f))))" by blast
  have "pmembers (Suc (Suc (Suc (Suc f)))) 1 (CHR 0x22 # ''Error'' @ CHR 0x22 # CHR '':'' # CHR 0x22 # e @ CHR 0x22 #
      CHR '','' # CHR 0x22 # ''code'' @ CHR 0x22 # CHR '':'' # CHR 0x22 # c @ CHR 0x22 #
      CHR '','' # CHR 0x22 # ''text'' @ CHR 0x22 # CHR '':'' # CHR 0x22 # t @ CHR 0x22 # CHR ''}'' # []) =
    Some ([(''Error'', JStr e), (''code'', JStr c), (''text'', JStr t)], [])"
    by (simp only: pmembers_more [OF plain_keys(1) assms(1)] pmembers_more [OF plain_keys(2) assms(2)]
        pmembers_last [OF plain_keys(3) assms(3)] option.map prod.case)
  then show ?thesis
    unfolding parse_json_def f by (simp add: wapi_document_def)
qed

lemma decode_wapi_document:
  "decode_field ''Error'' [(''Error'', JStr e), (''code'', JStr c), (''text'', JStr t)] [] = Some e"
  "decode_field ''code'' [(''Error'', JStr e), (''code'', JStr c), (''text'', JStr t)] [] = Some c"
  "decode_field ''text'' [(''Error'', JStr e), (''code'', JStr c), (''text'', JStr t)] [] = Some t"
  by (simp_all add: same_field_def upper_def byte_def)

lemma unmarshal_wapi_document:
  assumes "plain e" and "plain c" and "plain t"
  shows "unmarshal_wapi_error (wapi_document e c t) = Some (e, c, t)"
  using parse_wapi_document [OF assms] decode_wapi_document [of e c t]
  by (simp only: unmarshal_wapi_error_def option.case json.case prod.case)

text \<open>C35: The error messages of the appliance: no error stays no error and an error never
becomes none; an error without the marker \<open>Contents:\<close> is passed on unchanged, with its type;
and if an error document with printable texts follows the first marker, the result is its
text followed by its code in parentheses.\<close>

theorem wapi_error_extracted:
  "(tryParseWapiError err = None \<longleftrightarrow> err = None) \<and>
   (\<forall>x. err = Some x \<longrightarrow> \<not> snd (snd (Cut (ib_text x) ''Contents:'')) \<longrightarrow> tryParseWapiError err = Some (OfIB x)) \<and>
   (\<forall>x pre e c t. err = Some x \<longrightarrow> plain e \<longrightarrow> plain c \<longrightarrow> plain t \<longrightarrow>
      Cut (ib_text x) ''Contents:'' = (pre, wapi_document e c t, True) \<longrightarrow>
      tryParseWapiError err = Some (ErrorText (Text (t @ '' ('' @ c @ '')''))))"
proof (intro conjI allI impI)
  fix x pre e c t
  assume "err = Some x" and p: "plain e" "plain c" "plain t"
    and "Cut (ib_text x) ''Contents:'' = (pre, wapi_document e c t, True)"
  then show "tryParseWapiError err = Some (ErrorText (Text (t @ '' ('' @ c @ '')'')))"
    by (simp add: tryParseWapiError_def unmarshal_wapi_document [OF p])
qed (simp_all add: tryParseWapiError_plain)

theorem wapi_error_extracted_witness:
  "tryParseWapiError (Some (IBError (''WAPI request error Contents:'' @
      wapi_document ''AdmConDataError'' ''Client.Ibap.Data.Conflict'' ''The record already exists.''))) =
   Some (ErrorText (Text ''The record already exists. (Client.Ibap.Data.Conflict)''))"
proof -
  let ?e = "''AdmConDataError''" and ?c = "''Client.Ibap.Data.Conflict''" and ?t = "''The record already exists.''"
  have p: "plain ?e" "plain ?c" "plain ?t" by code_simp+
  have cut: "Cut (ib_text (IBError (''WAPI request error Contents:'' @ wapi_document ?e ?c ?t))) ''Contents:'' =
      (''WAPI request error '', wapi_document ?e ?c ?t, True)"
    by code_simp
  from wapi_error_extracted [THEN conjunct2, THEN conjunct2, rule_format, OF refl p cut]
  show ?thesis by simp
qed

end
