(* ===== verification/PoolIndex.thy ===== *)
theory PoolIndex
  imports ApiTypes
begin

text \<open>
  \<open>internal/index/index.go\<close> and \<open>internal/poolutil/pool.go\<close>: the index of addresses and claims by the
  pool they refer to, and the two listings that use it.
\<close>

subsection \<open>Objects behind an interface\<close>

text \<open>The dynamic types of an object that the code tells apart by a type assertion.\<close>

datatype kube_object =
    OIPAddress IPAddress
  | OIPAddressClaim IPAddressClaim
  | OInfobloxIPPool InfobloxIPPool
  | OOther string

subsection \<open>The index\<close>

definition IPAddressPoolRefCombinedField :: string where
  "IPAddressPoolRefCombinedField = ''index.poolRef''"

definition IPAddressClaimPoolRefCombinedField :: string where
  "IPAddressClaimPoolRefCombinedField = ''index.poolRef''"

definition IPPoolRefValue :: "IPPoolReference \<Rightarrow> string" where
  "IPPoolRefValue ref = ref_Kind ref @ ref_Name ref"

definition IPAddressByCombinedPoolRef :: "kube_object \<Rightarrow> error + string list" where
  "IPAddressByCombinedPoolRef o' =
     (case o' of
        OIPAddress ip \<Rightarrow> Inr [IPPoolRefValue (a_PoolRef ip)]
      | _ \<Rightarrow> Inl (Panic ''Expected an IPAddress''))"

definition ipAddressClaimByCombinedPoolRef :: "kube_object \<Rightarrow> error + string list" where
  "ipAddressClaimByCombinedPoolRef o' =
     (case o' of
        OIPAddressClaim ip \<Rightarrow> Inr [IPPoolRefValue (c_PoolRef ip)]
      | _ \<Rightarrow> Inl (Panic ''Expected an IPAddressClaim''))"

text \<open>
  \<open>IndexField\<close> of the manager's cache: the kind of the objects, the name of the index and the
  function that computes its values. The state is the cache's own.
\<close>

type_synonym 's index_field =
  "string \<Rightarrow> string \<Rightarrow> (kube_object \<Rightarrow> error + string list) \<Rightarrow> 's \<Rightarrow> kube_error option \<times> 's"

definition SetupIndexes :: "'s index_field \<Rightarrow> 's \<Rightarrow> kube_error option \<times> 's" where
  "SetupIndexes IndexField s =
     (case IndexField ''IPAddress'' IPAddressPoolRefCombinedField IPAddressByCombinedPoolRef s of
        (Some err, s1) \<Rightarrow> (Some err, s1)
      | (None, s1) \<Rightarrow>
          IndexField ''IPAddressClaim'' IPAddressClaimPoolRefCombinedField
            ipAddressClaimByCombinedPoolRef s1)"

subsection \<open>The listings\<close>

text \<open>
  \<open>List\<close> of the client with a value of the index and a namespace: the items, and an error.
  The code filters the items even if there is an error.
\<close>

type_synonym 'o lister = "string \<Rightarrow> string \<Rightarrow> 'o list \<times> kube_error option"

definition ListAddressesInUse ::
  "kube_lib \<Rightarrow> IPAddress lister \<Rightarrow> string \<Rightarrow> IPPoolReference \<Rightarrow> IPAddress list \<times> kube_error option" where
  "ListAddressesInUse L c namespace poolRef =
     (let (items, err) = c (IPPoolRefValue poolRef) namespace
      in (filter (\<lambda>a. lib_ParseGroup L (a_APIVersion a) = ''ipam.cluster.x-k8s.io'') items, err))"

definition ListClaimsReferencingPool ::
  "kube_lib \<Rightarrow> IPAddressClaim lister \<Rightarrow> string \<Rightarrow> IPPoolReference \<Rightarrow> IPAddressClaim list \<times> kube_error option" where
  "ListClaimsReferencingPool L c namespace poolRef =
     (let (items, err) = c (IPPoolRefValue poolRef) namespace
      in (filter (\<lambda>a. lib_ParseGroup L (c_APIVersion a) = ''ipam.cluster.x-k8s.io'') items, err))"

subsection \<open>What the listings share\<close>

text \<open>
  The cache, as documented: a listing with an index value returns the objects of the
  namespace for which the registered function computes that value.
\<close>

definition cache_of ::
  "('o \<Rightarrow> kube_object) \<Rightarrow> (kube_object \<Rightarrow> error + string list) \<Rightarrow> ('o \<Rightarrow> string) \<Rightarrow> 'o list \<Rightarrow> 'o lister" where
  "cache_of obj index ns store =
     (\<lambda>v n. (filter (\<lambda>x. ns x = n \<and>
                (case index (obj x) of Inl _ \<Rightarrow> False | Inr vs \<Rightarrow> v \<in> set vs)) store, None))"

locale pool_listing =
  fixes obj :: "'o \<Rightarrow> kube_object"
    and index :: "kube_object \<Rightarrow> error + string list"
    and ns :: "'o \<Rightarrow> string"
    and version :: "'o \<Rightarrow> string"
    and pool_ref :: "'o \<Rightarrow> IPPoolReference"
    and listing :: "kube_lib \<Rightarrow> 'o lister \<Rightarrow> string \<Rightarrow> IPPoolReference \<Rightarrow> 'o list \<times> kube_error option"
  assumes index_obj: "index (obj x) = Inr [IPPoolRefValue (pool_ref x)]"
    and listing_eq: "listing L c n r =
      (filter (\<lambda>a. lib_ParseGroup L (version a) = ''ipam.cluster.x-k8s.io'') (fst (c (IPPoolRefValue r) n)),
       snd (c (IPPoolRefValue r) n))"
begin

lemma listing_cache:
  "listing L (cache_of obj index ns store) n r =
     (filter (\<lambda>x. ns x = n \<and> ref_Kind (pool_ref x) @ ref_Name (pool_ref x) = ref_Kind r @ ref_Name r \<and>
        lib_ParseGroup L (version x) = ''ipam.cluster.x-k8s.io'') store, None)"
proof -
  have "filter (\<lambda>a. lib_ParseGroup L (version a) = ''ipam.cluster.x-k8s.io'')
      (filter (\<lambda>x. ns x = n \<and> IPPoolRefValue r = IPPoolRefValue (pool_ref x)) store) =
    filter (\<lambda>x. ns x = n \<and> IPPoolRefValue (pool_ref x) = IPPoolRefValue r \<and>
        lib_ParseGroup L (version x) = ''ipam.cluster.x-k8s.io'') store"
    unfolding filter_filter by (intro filter_cong) auto
  then show ?thesis
    by (simp add: listing_eq cache_of_def index_obj IPPoolRefValue_def [symmetric])
qed

text \<open>No object that refers to the pool is missed.\<close>

lemma listing_complete:
  assumes "x \<in> set store" and "ns x = n" and "ref_Kind (pool_ref x) = ref_Kind r"
    and "ref_Name (pool_ref x) = ref_Name r"
    and "lib_ParseGroup L (version x) = ''ipam.cluster.x-k8s.io''"
  shows "x \<in> set (fst (listing L (cache_of obj index ns store) n r))"
  using assms by (simp add: listing_cache)

text \<open>For references of one kind, the index value determines the pool.\<close>

lemma listing_precise:
  assumes "x \<in> set (fst (listing L (cache_of obj index ns store) n r))"
    and "ref_Kind (pool_ref x) = ref_Kind r"
  shows "x \<in> set store \<and> ns x = n \<and> ref_Name (pool_ref x) = ref_Name r"
  using assms by (auto simp: listing_cache)

end

interpretation addresses: pool_listing OIPAddress IPAddressByCombinedPoolRef a_Namespace a_APIVersion
    a_PoolRef ListAddressesInUse
  by unfold_locales
    (simp_all add: IPAddressByCombinedPoolRef_def ListAddressesInUse_def split_beta Let_def)

interpretation claims: pool_listing OIPAddressClaim ipAddressClaimByCombinedPoolRef c_Namespace c_APIVersion
    c_PoolRef ListClaimsReferencingPool
  by unfold_locales
    (simp_all add: ipAddressClaimByCombinedPoolRef_def ListClaimsReferencingPool_def split_beta Let_def)

subsection \<open>Properties\<close>

text \<open>With the index that \<open>SetupIndexes\<close> registers for addresses, \<open>ListAddressesInUse\<close>
returns, without an error and in order, exactly the addresses of the namespace whose kind and
name of the pool, written one after the other, agree with the reference's, and whose API
version is of the IPAM group; the API group of the pool is not compared.\<close>

theorem addresses_in_use:
  "ListAddressesInUse L (cache_of OIPAddress IPAddressByCombinedPoolRef a_Namespace store) n r =
     (filter (\<lambda>x. a_Namespace x = n \<and>
        ref_Kind (a_PoolRef x) @ ref_Name (a_PoolRef x) = ref_Kind r @ ref_Name r \<and>
        lib_ParseGroup L (a_APIVersion x) = ''ipam.cluster.x-k8s.io'') store, None)"
  by (rule addresses.listing_cache)

text \<open>\<open>ListClaimsReferencingPool\<close> misses no claim: every claim in the cache that refers to
the pool by kind and name, in the pool's namespace and the IPAM group, is in the list; and a
listed claim whose reference has the pool's kind refers to that very pool.\<close>

theorem claims_referencing_pool:
  assumes "lib_ParseGroup L (c_APIVersion x) = ''ipam.cluster.x-k8s.io''"
    and "ref_Kind (c_PoolRef x) = ref_Kind r"
  shows "x \<in> set (fst (ListClaimsReferencingPool L
             (cache_of OIPAddressClaim ipAddressClaimByCombinedPoolRef c_Namespace store) n r)) \<longleftrightarrow>
         x \<in> set store \<and> c_Namespace x = n \<and> ref_Name (c_PoolRef x) = ref_Name r"
  using claims.listing_precise [of x L store n r] claims.listing_complete [of x store n r L] assms
  by blast

theorem claims_referencing_pool_witness:
  "\<lparr>c_APIVersion = ''ipam.cluster.x-k8s.io/v1beta2'', c_Name = ''c1'', c_Namespace = ''ns'',
    c_Annotations = None, c_OwnerReferences = [],
    c_PoolRef = \<lparr>ref_APIGroup = [], ref_Kind = ''InfobloxIPPool'', ref_Name = ''p1''\<rparr>, c_Conditions = []\<rparr>
   \<in> set (fst (ListClaimsReferencingPool example_lib
      (cache_of OIPAddressClaim ipAddressClaimByCombinedPoolRef c_Namespace
        [\<lparr>c_APIVersion = ''ipam.cluster.x-k8s.io/v1beta2'', c_Name = ''c1'', c_Namespace = ''ns'',
          c_Annotations = None, c_OwnerReferences = [],
          c_PoolRef = \<lparr>ref_APIGroup = [], ref_Kind = ''InfobloxIPPool'', ref_Name = ''p1''\<rparr>, c_Conditions = []\<rparr>])
      ''ns'' \<lparr>ref_APIGroup = [], ref_Kind = ''InfobloxIPPool'', ref_Name = ''p1''\<rparr>))"
proof (subst claims_referencing_pool)
  show "lib_ParseGroup example_lib (c_APIVersion
      \<lparr>c_APIVersion = ''ipam.cluster.x-k8s.io/v1beta2'', c_Name = ''c1'', c_Namespace = ''ns'',
       c_Annotations = None, c_OwnerReferences = [],
       c_PoolRef = \<lparr>ref_APIGroup = [], ref_Kind = ''InfobloxIPPool'', ref_Name = ''p1''\<rparr>, c_Conditions = []\<rparr>) =
    ''ipam.cluster.x-k8s.io''"
    by code_simp
qed simp_all

end
