(* ===== verification/Predicates.thy ===== *)
theory Predicates
  imports PoolIndex
begin

text \<open>
  \<open>pkg/predicates/references.go\<close>: the filters on watch events, and the way
  \<open>InfobloxProviderAdapter.SetupWithManager\<close> (\<open>internal/controllers/ipaddressclaim.go\<close>) uses them.
\<close>

subsection \<open>The filters\<close>

definition processIfClaimReferencesPoolKind :: "GroupKind \<Rightarrow> kube_object \<Rightarrow> bool" where
  "processIfClaimReferencesPoolKind gk obj =
     (case obj of
        OIPAddressClaim claim \<Rightarrow>
          if ref_Kind (c_PoolRef claim) \<noteq> gk_Kind gk \<or> ref_APIGroup (c_PoolRef claim) \<noteq> gk_Group gk
          then False else True
      | _ \<Rightarrow> False)"

definition processIfAddressReferencesPoolKind :: "GroupKind \<Rightarrow> kube_object \<Rightarrow> bool" where
  "processIfAddressReferencesPoolKind gk obj =
     (case obj of
        OIPAddress addr \<Rightarrow>
          if ref_Kind (a_PoolRef addr) \<noteq> gk_Kind gk \<or> ref_APIGroup (a_PoolRef addr) \<noteq> gk_Group gk
          then False else True
      | _ \<Rightarrow> False)"

text \<open>Watch events, and the record of functions that filters them (\<open>predicate.Funcs\<close>).\<close>

datatype event =
    CreateEvent kube_object
  | DeleteEvent kube_object
  | UpdateEvent kube_object kube_object
  | GenericEvent kube_object

record Funcs =
  CreateFunc :: "kube_object \<Rightarrow> bool"
  DeleteFunc :: "kube_object \<Rightarrow> bool"
  UpdateFunc :: "kube_object \<Rightarrow> kube_object \<Rightarrow> bool"
  GenericFunc :: "kube_object \<Rightarrow> bool"

fun passes :: "Funcs \<Rightarrow> event \<Rightarrow> bool" where
  "passes p (CreateEvent o') = CreateFunc p o'"
| "passes p (DeleteEvent o') = DeleteFunc p o'"
| "passes p (UpdateEvent old new) = UpdateFunc p old new"
| "passes p (GenericEvent o') = GenericFunc p o'"

definition ClaimReferencesPoolKind :: "GroupKind \<Rightarrow> Funcs" where
  "ClaimReferencesPoolKind gk =
     \<lparr>CreateFunc = (\<lambda>obj. processIfClaimReferencesPoolKind gk obj),
      DeleteFunc = (\<lambda>obj. processIfClaimReferencesPoolKind gk obj),
      UpdateFunc = (\<lambda>objOld objNew. processIfClaimReferencesPoolKind gk objNew),
      GenericFunc = (\<lambda>obj. processIfClaimReferencesPoolKind gk obj)\<rparr>"

definition AddressReferencesPoolKind :: "GroupKind \<Rightarrow> Funcs" where
  "AddressReferencesPoolKind gk =
     \<lparr>CreateFunc = (\<lambda>obj. processIfAddressReferencesPoolKind gk obj),
      DeleteFunc = (\<lambda>obj. processIfAddressReferencesPoolKind gk obj),
      UpdateFunc = (\<lambda>objOld objNew. processIfAddressReferencesPoolKind gk objNew),
      GenericFunc = (\<lambda>obj. processIfAddressReferencesPoolKind gk obj)\<rparr>"

subsection \<open>The watches of the claim controller\<close>

definition pool_GroupKind :: GroupKind where
  "pool_GroupKind = \<lparr>gk_Group = ''ipam.cluster.x-k8s.io'', gk_Kind = ''InfobloxIPPool''\<rparr>"

record builder =
  b_For :: "string \<times> Funcs"
  b_MaxConcurrentReconciles :: nat
  b_Owns :: "string \<times> Funcs"

definition Provider_SetupWithManager :: builder where
  "Provider_SetupWithManager =
     \<lparr>b_For = (''IPAddressClaim'', ClaimReferencesPoolKind pool_GroupKind),
      b_MaxConcurrentReconciles = 1,
      b_Owns = (''IPAddress'', AddressReferencesPoolKind pool_GroupKind)\<rparr>"

subsection \<open>What the filters share\<close>

text \<open>The object an event is about: of an update, the new one.\<close>

fun subject :: "event \<Rightarrow> kube_object" where
  "subject (CreateEvent o') = o'"
| "subject (DeleteEvent o') = o'"
| "subject (UpdateEvent old new) = new"
| "subject (GenericEvent o') = o'"

locale event_filter =
  fixes funcs :: "GroupKind \<Rightarrow> Funcs"
    and refers :: "kube_object \<Rightarrow> IPPoolReference option"
  assumes passes_iff: "passes (funcs gk) ev \<longleftrightarrow>
    (\<exists>r. refers (subject ev) = Some r \<and> ref_Kind r = gk_Kind gk \<and> ref_APIGroup r = gk_Group gk)"
begin

lemma one_kind: "passes (funcs gk) ev \<Longrightarrow> passes (funcs gk') ev \<Longrightarrow> gk = gk'"
  by (cases gk; cases gk') (auto simp: passes_iff)

lemma update_new: "passes (funcs gk) (UpdateEvent old new) \<longleftrightarrow> passes (funcs gk) (CreateEvent new)"
  by (simp only: passes_iff subject.simps)

end

fun claim_refers :: "kube_object \<Rightarrow> IPPoolReference option" where
  "claim_refers (OIPAddressClaim c) = Some (c_PoolRef c)"
| "claim_refers _ = None"

fun address_refers :: "kube_object \<Rightarrow> IPPoolReference option" where
  "address_refers (OIPAddress a) = Some (a_PoolRef a)"
| "address_refers _ = None"

interpretation claim_filter: event_filter ClaimReferencesPoolKind claim_refers
proof
  fix gk ev
  show "passes (ClaimReferencesPoolKind gk) ev \<longleftrightarrow>
    (\<exists>r. claim_refers (subject ev) = Some r \<and> ref_Kind r = gk_Kind gk \<and> ref_APIGroup r = gk_Group gk)"
    by (cases ev)
      (auto simp: ClaimReferencesPoolKind_def processIfClaimReferencesPoolKind_def split: kube_object.splits)
qed

interpretation address_filter: event_filter AddressReferencesPoolKind address_refers
proof
  fix gk ev
  show "passes (AddressReferencesPoolKind gk) ev \<longleftrightarrow>
    (\<exists>r. address_refers (subject ev) = Some r \<and> ref_Kind r = gk_Kind gk \<and> ref_APIGroup r = gk_Group gk)"
    by (cases ev)
      (auto simp: AddressReferencesPoolKind_def processIfAddressReferencesPoolKind_def
        split: kube_object.splits)
qed

text \<open>The claim controller reconciles a claim on exactly the events whose object (after an
update, the new one) is a claim that refers to the pool kind \<open>InfobloxIPPool\<close> of the IPAM group,
and it watches exactly the addresses with such a reference; no event passes both filters.\<close>

theorem watches_exact:
  "(passes (snd (b_For Provider_SetupWithManager)) ev \<longleftrightarrow>
      (\<exists>c. subject ev = OIPAddressClaim c \<and> ref_Kind (c_PoolRef c) = ''InfobloxIPPool'' \<and>
         ref_APIGroup (c_PoolRef c) = ''ipam.cluster.x-k8s.io'')) \<and>
   (passes (snd (b_Owns Provider_SetupWithManager)) ev \<longleftrightarrow>
      (\<exists>a. subject ev = OIPAddress a \<and> ref_Kind (a_PoolRef a) = ''InfobloxIPPool'' \<and>
         ref_APIGroup (a_PoolRef a) = ''ipam.cluster.x-k8s.io'')) \<and>
   \<not> (passes (snd (b_For Provider_SetupWithManager)) ev \<and> passes (snd (b_Owns Provider_SetupWithManager)) ev)"
  by (cases "subject ev")
    (simp_all add: Provider_SetupWithManager_def claim_filter.passes_iff address_filter.passes_iff
      pool_GroupKind_def)

end
