(* ===== verification/NetipFacts.thy ===== *)
theory NetipFacts
  imports Netip
begin

text \<open>
  Facts about the address model: printing and parsing are inverse, parsed prefixes are well
  formed, and containment compares the network bits and nothing else.
\<close>

subsection \<open>Decimal octets\<close>

lemma Itoa_one: "n < 10 \<Longrightarrow> Itoa n = [digit_char n]"
  by (subst Itoa.simps) simp

lemma Itoa_two:
  "\<not> n < 10 \<Longrightarrow> n < 100 \<Longrightarrow> Itoa n = [digit_char (n div 10), digit_char (n mod 10)]"
  by (subst Itoa.simps) (simp add: Itoa_one)

lemma Itoa_three:
  "\<not> n < 100 \<Longrightarrow> n < 1000 \<Longrightarrow>
   Itoa n = [digit_char (n div 100), digit_char (n div 10 mod 10), digit_char (n mod 10)]"
  by (subst Itoa.simps) (simp add: Itoa_two div_mult2_eq [symmetric])

lemma v4_loop_octet:
  assumes "n < 256"
  shows "v4_loop (Itoa n @ rest) fs 0 0 b = v4_loop rest fs (int n) (length (Itoa n)) False"
proof -
  consider "n < 10" | "\<not> n < 10" "n < 100" | "\<not> n < 100" by fastforce
  then show ?thesis
  proof cases
    case 1
    then show ?thesis by (simp add: Itoa_one Let_def)
  next
    case 2
    then have "int (n div 10) * 10 + int (n mod 10) = int n" and "n div 10 < 10"
      and "n div 10 \<noteq> 0"
      by (simp_all add: zdiv_int zmod_int)
    with 2 assms show ?thesis
      by (simp add: Itoa_two Let_def)
  next
    case 3
    have n: "n div 100 < 10" "n div 100 \<noteq> 0" "n div 10 mod 10 < 10" "n div 10 < 26"
      using 3 assms by simp_all
    have "n div 100 * 10 + n div 10 mod 10 = n div 10" "n div 10 * 10 + n mod 10 = n"
      by (simp_all add: div_mult2_eq [of n 10 10, simplified])
    then have "int (n div 100) * 10 + int (n div 10 mod 10) = int (n div 10)"
      "int (n div 10) * 10 + int (n mod 10) = int n"
      by linarith+
    with n 3 assms show ?thesis
      by (simp add: Itoa_three Let_def del: of_nat_add of_nat_mult)
  qed
qed

lemma is_digit_not_sep:
  "is_digit c \<Longrightarrow> c \<noteq> CHR ''.'' \<and> c \<noteq> CHR '':'' \<and> c \<noteq> CHR ''%'' \<and> c \<noteq> CHR ''/'' \<and>
    c \<noteq> CHR '',''"
  by (auto simp: is_digit_def)

lemma not_digit_dot [simp]: "\<not> is_digit CHR ''.''"
  by (simp add: is_digit_def)

lemma v4_loop_field:
  assumes "n < 256" and "rest \<noteq> []" and "length fs < 3"
  shows "v4_loop (Itoa n @ CHR ''.'' # rest) fs 0 0 b = v4_loop rest (fs @ [int n]) 0 0 True"
  using assms by (simp add: v4_loop_octet)

lemma v4_loop_last:
  assumes "n < 256" and "length fs = 3"
  shows "v4_loop (Itoa n) fs 0 0 b = Some (fs @ [int n])"
  using assms v4_loop_octet [of n "[]" fs b] by simp

lemma parseIPv4Fields_octets:
  assumes "a < 256" "b < 256" "c < 256" "d < 256"
  shows "parseIPv4Fields (Itoa a @ ''.'' @ Itoa b @ ''.'' @ Itoa c @ ''.'' @ Itoa d) =
           Some [int a, int b, int c, int d]"
  using assms by (simp add: parseIPv4Fields_def v4_loop_field v4_loop_last)

subsection \<open>IPv4 addresses print and parse back\<close>

lemma octet_less [simp]: "octet w k < 256"
  by (simp add: octet_def nat_less_iff)

lemma int_octet: "int (octet w k) = uint w div 256 ^ k mod 256"
  by (simp add: octet_def)

lemma base256_digits:
  fixes x :: int
  assumes "0 \<le> x" and "x < 4294967296"
  shows "((x div 16777216 mod 256 * 256 + x div 65536 mod 256) * 256 + x div 256 mod 256) * 256
           + x mod 256 = x"
proof -
  have d: "x div 65536 = x div 256 div 256" "x div 16777216 = x div 256 div 256 div 256"
    by (simp_all add: zdiv_zmult2_eq [symmetric])
  have "x div 16777216 mod 256 = x div 16777216"
    using assms by (intro mod_pos_pos_trivial) linarith+
  then show ?thesis
    by (simp only: d div_mult_mod_eq)
qed

lemma bytes_int_four: "bytes_int [a, b, c, d] = ((a * 256 + b) * 256 + c) * 256 + d"
  by (simp add: bytes_int_def)

lemma bytes_int_digits:
  fixes x :: int
  assumes "0 \<le> x" and "x < 4294967296"
  shows "bytes_int [x div 256 ^ 3 mod 256, x div 256 ^ 2 mod 256, x div 256 ^ 1 mod 256,
                    x div 256 ^ 0 mod 256] = x"
proof -
  have p: "(256::int) ^ 3 = 16777216" "(256::int) ^ 2 = 65536" by simp_all
  show ?thesis
    by (simp only: bytes_int_four p power_one_right power_0 div_by_1 base256_digits [OF assms])
qed

lemma octets_value:
  "bytes_int [int (octet w 3), int (octet w 2), int (octet w 1), int (octet w 0)] = uint w"
proof -
  have "uint w < 4294967296"
    by (rule order_less_le_trans [OF uint_lt2p]) simp
  from bytes_int_digits [OF uint_ge_0 this] show ?thesis
    by (simp only: int_octet)
qed

lemma find_skip:
  assumes "\<forall>c \<in> set xs. \<not> P c" and "P y"
  shows "List.find P (xs @ y # ys) = Some y"
  using assms by (induction xs) auto

lemma digits_not_sep: "c \<in> set (Itoa n) \<Longrightarrow> is_digit c"
  using Itoa_digits [of n] by (auto simp: list_all_iff)

lemma string4_chars: "c \<in> set (string4 w) \<Longrightarrow> is_digit c \<or> c = CHR ''.''"
  by (auto simp: string4_def dest: digits_not_sep)

lemma ParseAddr_string4 [simp, netip_simps]: "ParseAddr (string4 w) = Some (V4 w)"
proof -
  have "List.find (\<lambda>c. c = CHR ''.'' \<or> c = CHR '':'' \<or> c = CHR ''%'') (string4 w) = Some CHR ''.''"
    unfolding string4_def append_Cons append_Nil
    by (rule find_skip) (auto dest!: digits_not_sep is_digit_not_sep)
  moreover have "parseIPv4Fields (string4 w) =
      Some [int (octet w 3), int (octet w 2), int (octet w 1), int (octet w 0)]"
    unfolding string4_def by (rule parseIPv4Fields_octets) simp_all
  ultimately show ?thesis
    using octets_value [of w] by (simp add: ParseAddr_def parseIPv4_def)
qed

subsection \<open>Hexadecimal groups\<close>

lemma hex_val_hex_char [simp]: "0 \<le> d \<Longrightarrow> d < 16 \<Longrightarrow> hex_val (hex_char d) = Some d"
  by (auto simp: hex_val_def hex_char_def of_char_of Let_def)

lemma hex_val_colon [simp]: "hex_val CHR '':'' = None"
  by (simp add: hex_val_def)

lemma hex_char_not_sep:
  assumes "0 \<le> d" and "d < 16"
  shows "hex_char d \<noteq> CHR '':'' \<and> hex_char d \<noteq> CHR ''.'' \<and> hex_char d \<noteq> CHR ''%'' \<and>
    hex_char d \<noteq> CHR '',''"
proof -
  have "hex_val (hex_char d) \<noteq> None" using assms by simp
  moreover have "hex_val CHR '':'' = None" "hex_val CHR ''.'' = None" "hex_val CHR ''%'' = None"
    "hex_val CHR '','' = None"
    by (simp_all add: hex_val_def)
  ultimately show ?thesis by metis
qed

definition hex_stop :: "string \<Rightarrow> bool" where
  "hex_stop s \<longleftrightarrow> s = [] \<or> hex_val (hd s) = None"

lemma hex_scan_stop: "hex_stop s \<Longrightarrow> hex_scan s off acc = Some (off, acc, s)"
  by (cases s) (auto simp: hex_stop_def)

lemma hex_scan_step:
  "0 \<le> d \<Longrightarrow> d < 16 \<Longrightarrow> off \<le> 3 \<Longrightarrow> acc * 16 + d \<le> 65535 \<Longrightarrow>
   hex_scan (hex_char d # s) off acc = hex_scan s (Suc off) (acc * 16 + d)"
  by simp

lemma base16_digits:
  fixes x :: int
  shows "x div 16 * 16 + x mod 16 = x"
    and "x div 256 * 16 + x div 16 mod 16 = x div 16"
    and "x div 4096 * 16 + x div 256 mod 16 = x div 256"
proof -
  have d: "x div 256 = x div 16 div 16" "x div 4096 = x div 256 div 16"
    by (simp_all add: zdiv_zmult2_eq [symmetric])
  show "x div 16 * 16 + x mod 16 = x" by (rule div_mult_mod_eq)
  show "x div 256 * 16 + x div 16 mod 16 = x div 16" by (simp only: d(1) div_mult_mod_eq)
  show "x div 4096 * 16 + x div 256 mod 16 = x div 256" by (simp only: d(2) div_mult_mod_eq)
qed

lemma hex_scan_appendHex:
  assumes "0 \<le> g" and "g < 65536" and "hex_stop s"
  shows "hex_scan (appendHex g @ s) 0 0 = Some (length (appendHex g), g, s)"
proof -
  consider "g < 16" | "16 \<le> g" "g < 256" | "256 \<le> g" "g < 4096" | "4096 \<le> g"
    by linarith
  then show ?thesis
  proof cases
    case 1
    with assms show ?thesis
      by (simp add: appendHex_def hex_scan_step hex_scan_stop del: hex_scan.simps(2))
  next
    case 2
    then have "g div 16 mod 16 = g div 16" by simp
    with 2 assms show ?thesis
      by (simp add: appendHex_def hex_scan_step hex_scan_stop base16_digits
          del: hex_scan.simps(2))
  next
    case 3
    then have "g div 256 mod 16 = g div 256" "g div 16 \<le> 65535" by simp_all
    with 3 assms show ?thesis
      by (simp add: appendHex_def hex_scan_step hex_scan_stop base16_digits
          del: hex_scan.simps(2))
  next
    case 4
    have "g div 4096 < 16" "g div 256 \<le> 65535" "g div 16 \<le> 65535" "0 \<le> g div 4096"
      using assms 4 by linarith+
    with 4 assms show ?thesis
      by (simp add: appendHex_def hex_scan_step hex_scan_stop base16_digits
          del: hex_scan.simps(2))
  qed
qed

lemma appendHex_nonempty [simp]: "appendHex g \<noteq> []"
  by (simp add: appendHex_def)

lemma appendHex_chars:
  assumes "0 \<le> g" and "g < 65536" and "c \<in> set (appendHex g)"
  shows "\<exists>d. 0 \<le> d \<and> d < 16 \<and> c = hex_char d"
proof -
  have "0 \<le> g div 4096" "g div 4096 < 16" using assms by linarith+
  then have "\<forall>d \<in> {g div 4096, g div 256 mod 16, g div 16 mod 16, g mod 16}. 0 \<le> d \<and> d < 16"
    by simp
  moreover have "c \<in> hex_char ` {g div 4096, g div 256 mod 16, g div 16 mod 16, g mod 16}"
    using assms(3) by (auto simp: appendHex_def split: if_splits)
  ultimately show ?thesis by blast
qed

subsection \<open>Parsing a printed IPv6 address\<close>

abbreviation groups_ok :: "int list \<Rightarrow> bool" where
  "groups_ok gs \<equiv> (\<forall>g \<in> set gs. 0 \<le> g \<and> g < 65536)"

definition hex_groups :: "int list \<Rightarrow> string" where
  "hex_groups gs = Join (map appendHex gs) '':''"

definition group_bytes :: "int list \<Rightarrow> int list" where
  "group_bytes gs = concat (map (\<lambda>g. [g div 256, g mod 256]) gs)"

lemma length_group_bytes [simp]: "length (group_bytes gs) = 2 * length gs"
  by (induction gs) (auto simp: group_bytes_def)

lemma group_bytes_simps [simp]:
  "group_bytes [] = []"
  "group_bytes (g # gs) = [g div 256, g mod 256] @ group_bytes gs"
  "group_bytes (xs @ ys) = group_bytes xs @ group_bytes ys"
  by (simp_all add: group_bytes_def)

lemma hex_groups_simps [simp]:
  "hex_groups [] = []"
  "hex_groups [g] = appendHex g"
  "hex_groups (g # h # gs) = appendHex g @ CHR '':'' # hex_groups (h # gs)"
  by (simp_all add: hex_groups_def)

lemma hex_groups_Nil_iff [simp]: "hex_groups gs = [] \<longleftrightarrow> gs = []"
  by (cases gs; cases "tl gs") auto

lemma hex_groups_head:
  assumes "groups_ok gs" and "gs \<noteq> []"
  shows "\<exists>c cs. hex_groups gs = c # cs \<and> c \<noteq> CHR '':'' \<and> hex_val c \<noteq> None"
proof -
  obtain g gs' where gs: "gs = g # gs'" using assms(2) by (cases gs) auto
  obtain c cs where c: "appendHex g = c # cs" by (cases "appendHex g") auto
  then obtain d where "0 \<le> d" "d < 16" "c = hex_char d"
    using assms(1) gs appendHex_chars [of g c] by auto
  then have "c \<noteq> CHR '':'' \<and> hex_val c \<noteq> None"
    using hex_char_not_sep [of d] by auto
  moreover have "\<exists>ds. hex_groups gs = c # ds"
    using gs c by (cases gs') auto
  ultimately show ?thesis by blast
qed

lemma v6_loop_last:
  assumes "0 \<le> g" "g < 65536" "length ip < 16"
  shows "v6_loop (appendHex g) ip ell = Some ([], ip @ [g div 256, g mod 256], ell)"
proof -
  have "hex_scan (appendHex g @ []) 0 0 = Some (length (appendHex g), g, [])"
    by (rule hex_scan_appendHex) (use assms in \<open>auto simp: hex_stop_def\<close>)
  then show ?thesis
    using assms by (subst v6_loop.simps) (simp add: Let_def)
qed

lemma hex_scan_group_colon:
  assumes "0 \<le> g" "g < 65536"
  shows "hex_scan (appendHex g @ CHR '':'' # cs) 0 0 =
           Some (length (appendHex g), g, CHR '':'' # cs)"
  by (rule hex_scan_appendHex) (use assms in \<open>auto simp: hex_stop_def\<close>)

lemma v6_loop_more:
  assumes "0 \<le> g" "g < 65536" "length ip < 16" "c \<noteq> CHR '':''"
  shows "v6_loop (appendHex g @ CHR '':'' # c # cs) ip ell =
           v6_loop (c # cs) (ip @ [g div 256, g mod 256]) ell"
  using assms by (subst v6_loop.simps) (simp add: hex_scan_group_colon Let_def)

lemma v6_loop_ellipsis:
  assumes "0 \<le> g" "g < 65536" "length ip < 16"
  shows "v6_loop (appendHex g @ CHR '':'' # CHR '':'' # cs) ip None =
           (if cs = [] then Some ([], ip @ [g div 256, g mod 256], Some (length ip + 2))
            else v6_loop cs (ip @ [g div 256, g mod 256]) (Some (length ip + 2)))"
  using assms by (subst v6_loop.simps) (simp add: hex_scan_group_colon Let_def)

lemma v6_loop_groups:
  assumes "groups_ok gs" "gs \<noteq> []" "length ip + 2 * length gs \<le> 16"
  shows "v6_loop (hex_groups gs) ip ell = Some ([], ip @ group_bytes gs, ell)"
  using assms
proof (induction gs arbitrary: ip)
  case Nil
  then show ?case by simp
next
  case (Cons g gs)
  show ?case
  proof (cases gs)
    case Nil
    with Cons.prems show ?thesis by (simp add: v6_loop_last)
  next
    case (Cons h hs)
    with Cons.prems obtain c cs where c: "hex_groups gs = c # cs" "c \<noteq> CHR '':''"
      using hex_groups_head [of gs] by auto
    have "v6_loop (hex_groups gs) (ip @ [g div 256, g mod 256]) ell =
            Some ([], (ip @ [g div 256, g mod 256]) @ group_bytes gs, ell)"
      by (rule Cons.IH) (use Cons.prems \<open>gs = h # hs\<close> in auto)
    with c Cons.prems \<open>gs = h # hs\<close> show ?thesis
      by (simp add: v6_loop_more)
  qed
qed

lemma v6_loop_groups_ellipsis:
  assumes "groups_ok xs" "xs \<noteq> []" "groups_ok ys" "length ip + 2 * length xs + 2 * length ys \<le> 16"
  shows "v6_loop (hex_groups xs @ CHR '':'' # CHR '':'' # hex_groups ys) ip None =
           Some ([], ip @ group_bytes xs @ group_bytes ys, Some (length ip + 2 * length xs))"
  using assms
proof (induction xs arbitrary: ip)
  case Nil
  then show ?case by simp
next
  case (Cons g gs)
  show ?case
  proof (cases gs)
    case Nil
    with Cons.prems show ?thesis
      using v6_loop_groups [of ys "ip @ [g div 256, g mod 256]" "Some (length ip + 2)"]
      by (cases ys) (simp_all add: v6_loop_ellipsis)
  next
    case (Cons h hs)
    with Cons.prems obtain c cs where c: "hex_groups gs = c # cs" "c \<noteq> CHR '':''"
      using hex_groups_head [of gs] by auto
    have "v6_loop (hex_groups gs @ CHR '':'' # CHR '':'' # hex_groups ys)
             (ip @ [g div 256, g mod 256]) None =
            Some ([], (ip @ [g div 256, g mod 256]) @ group_bytes gs @ group_bytes ys,
                  Some (length (ip @ [g div 256, g mod 256]) + 2 * length gs))"
      by (rule Cons.IH) (use Cons.prems \<open>gs = h # hs\<close> in auto)
    with c Cons.prems \<open>gs = h # hs\<close> show ?thesis
      by (simp add: v6_loop_more)
  qed
qed

subsection \<open>The printed form of an IPv6 address\<close>

lemma print6_None:
  assumes "length gs = 8"
  shows "i < 8 \<Longrightarrow> print6 gs None i = (if i > 0 then '':'' else []) @ hex_groups (drop i gs)"
proof (induction "8 - i" arbitrary: i)
  case 0
  then show ?case by simp
next
  case (Suc n)
  have d: "drop i gs = gs ! i # drop (Suc i) gs"
    using Suc.prems assms by (simp add: Cons_nth_drop_Suc)
  show ?case
  proof (cases "Suc i < 8")
    case True
    with Suc.hyps(1) [of "Suc i"] Suc.hyps(2)
    have "print6 gs None (Suc i) = '':'' @ hex_groups (drop (Suc i) gs)" by simp
    moreover have "drop (Suc i) gs = gs ! Suc i # drop (Suc (Suc i)) gs"
      using True assms by (simp add: Cons_nth_drop_Suc)
    ultimately show ?thesis
      using Suc.prems by (subst print6.simps) (simp add: d)
  next
    case False
    with assms Suc.prems show ?thesis
      by (subst print6.simps) (simp add: d print6.simps [of gs None "Suc i"])
  qed
qed

lemma print6_after:
  assumes "length gs = 8" and "ze \<le> i" and "zs < ze"
  shows "i < 8 \<Longrightarrow> print6 gs (Some (zs, ze)) i = '':'' @ hex_groups (drop i gs)"
  using assms(2)
proof (induction "8 - i" arbitrary: i)
  case 0
  then show ?case by simp
next
  case (Suc n)
  have d: "drop i gs = gs ! i # drop (Suc i) gs"
    using Suc.prems assms by (simp add: Cons_nth_drop_Suc)
  have i: "i \<noteq> zs" "0 < i" using Suc.prems assms by auto
  show ?case
  proof (cases "Suc i < 8")
    case True
    with Suc.hyps(1) [of "Suc i"] Suc.hyps(2) Suc.prems
    have "print6 gs (Some (zs, ze)) (Suc i) = '':'' @ hex_groups (drop (Suc i) gs)" by simp
    moreover have "drop (Suc i) gs = gs ! Suc i # drop (Suc (Suc i)) gs"
      using True assms by (simp add: Cons_nth_drop_Suc)
    ultimately show ?thesis
      using Suc.prems i by (subst print6.simps) (simp add: d)
  next
    case False
    with assms Suc.prems i show ?thesis
      by (subst print6.simps) (simp add: d print6.simps [of gs "Some (zs, ze)" "Suc i"])
  qed
qed

lemma print6_at_run:
  assumes "length gs = 8" and "zs < ze" and "ze \<le> 8"
  shows "print6 gs (Some (zs, ze)) zs = ''::'' @ hex_groups (drop ze gs)"
proof (cases "ze < 8")
  case True
  have d: "drop ze gs = gs ! ze # drop (Suc ze) gs"
    using True assms by (simp add: Cons_nth_drop_Suc)
  show ?thesis
  proof (cases "Suc ze < 8")
    case True
    have "drop (Suc ze) gs = gs ! Suc ze # drop (Suc (Suc ze)) gs"
      using True assms by (simp add: Cons_nth_drop_Suc)
    with True assms d show ?thesis
      by (subst print6.simps) (simp add: print6_after)
  next
    case False
    with assms True d show ?thesis
      by (subst print6.simps) (simp add: print6.simps [of gs "Some (zs, ze)" "Suc ze"])
  qed
next
  case False
  with assms show ?thesis by (subst print6.simps) simp
qed

lemma print6_run:
  assumes "length gs = 8" and "zs < ze" and "ze \<le> 8"
  shows "i < zs \<Longrightarrow> print6 gs (Some (zs, ze)) i =
           (if i > 0 then '':'' else []) @ hex_groups (take (zs - i) (drop i gs)) @ ''::'' @
           hex_groups (drop ze gs)"
proof (induction "zs - i" arbitrary: i)
  case 0
  then show ?case by simp
next
  case (Suc n)
  have i: "i < 8" using Suc.prems assms by simp
  then have d: "drop i gs = gs ! i # drop (Suc i) gs"
    using assms by (simp add: Cons_nth_drop_Suc)
  show ?case
  proof (cases "Suc i < zs")
    case True
    have d2: "drop (Suc i) gs = gs ! Suc i # drop (Suc (Suc i)) gs"
      using True assms by (simp add: Cons_nth_drop_Suc)
    obtain k where k: "zs - i = Suc (Suc k)" "zs - Suc i = Suc k"
      using True by (metis Suc_diff_Suc Suc_lessD)
    from Suc.hyps(1) [of "Suc i"] Suc.hyps(2) True
    have "print6 gs (Some (zs, ze)) (Suc i) =
            '':'' @ hex_groups (take (zs - Suc i) (drop (Suc i) gs)) @ ''::'' @
            hex_groups (drop ze gs)"
      by simp
    with i Suc.prems show ?thesis
      by (subst print6.simps) (simp add: d d2 k)
  next
    case False
    with Suc.prems have "zs = Suc i" by simp
    with i assms show ?thesis
      by (subst print6.simps) (simp add: d print6_at_run)
  qed
qed

lemma zero_run_at_zero:
  assumes "i \<le> j" and "j < i + zero_run_at gs i" and "j < length gs"
  shows "gs ! j = 0"
proof -
  have "j - i < length (takeWhile (\<lambda>g. g = 0) (drop i gs))"
    using assms by (simp add: zero_run_at_def less_diff_conv2 add.commute)
  then have "takeWhile (\<lambda>g. g = 0) (drop i gs) ! (j - i) = 0"
    using nth_mem set_takeWhileD by fastforce
  then show ?thesis
    using assms \<open>j - i < _\<close> by (simp add: takeWhile_nth)
qed

definition zero_span :: "int list \<Rightarrow> nat \<times> nat \<Rightarrow> bool" where
  "zero_span gs r \<longleftrightarrow> fst r + 2 \<le> snd r \<and> snd r \<le> length gs \<and>
     (\<forall>j. fst r \<le> j \<and> j < snd r \<longrightarrow> gs ! j = 0)"

lemma foldl_invariant:
  assumes "P b" and "\<And>b x. P b \<Longrightarrow> x \<in> set xs \<Longrightarrow> P (f b x)"
  shows "P (foldl f b xs)"
  using assms by (induction xs arbitrary: b) auto

lemma zero_run_span:
  assumes "length gs = 8" and "zero_run gs = Some r"
  shows "zero_span gs r"
proof -
  have "(\<lambda>b. \<forall>r. b = Some r \<longrightarrow> zero_span gs r) (zero_run gs)"
    unfolding zero_run_def
  proof (rule foldl_invariant)
    fix b x
    assume b: "\<forall>r. b = Some r \<longrightarrow> zero_span gs r" and x: "x \<in> set [0..<8]"
    have l: "x + zero_run_at gs x \<le> 8"
      using x assms(1) length_takeWhile_le [of "\<lambda>g. g = 0" "drop x gs"]
      by (simp add: zero_run_at_def)
    have "2 \<le> zero_run_at gs x \<Longrightarrow> zero_span gs (x, x + zero_run_at gs x)"
      using l assms(1) by (auto simp: zero_span_def intro: zero_run_at_zero)
    with b show "\<forall>r. (let l = zero_run_at gs x
        in if 2 \<le> l \<and> (case b of None \<Rightarrow> 0 | Some (zs, ze) \<Rightarrow> ze - zs) < l
           then Some (x, x + l) else b) = Some r \<longrightarrow> zero_span gs r"
      by (simp add: Let_def)
  qed simp
  with assms(2) show ?thesis by blast
qed

lemma zero_span_split:
  assumes "zero_span gs (zs, ze)"
  shows "gs = take zs gs @ replicate (ze - zs) 0 @ drop ze gs"
proof (rule nth_equalityI)
  show "length gs = length (take zs gs @ replicate (ze - zs) 0 @ drop ze gs)"
    using assms by (simp add: zero_span_def)
  show "gs ! i = (take zs gs @ replicate (ze - zs) 0 @ drop ze gs) ! i" if "i < length gs" for i
    using assms that by (auto simp: zero_span_def nth_append)
qed

lemma group_bytes_zeros [simp]: "group_bytes (replicate n 0) = replicate (2 * n) 0"
  by (induction n) auto

lemma expand_ellipsis_at:
  assumes "length a + length b < 16"
  shows "expand_ellipsis (a @ b) (Some (length a)) =
           Some (a @ replicate (16 - (length a + length b)) 0 @ b)"
  using assms by (simp add: expand_ellipsis_def)

lemma zero_span_bytes:
  assumes "zero_span gs (zs, ze)" and "length gs = 8"
  shows "expand_ellipsis (group_bytes (take zs gs) @ group_bytes (drop ze gs)) (Some (2 * zs)) =
           Some (group_bytes gs)"
proof -
  have z: "zs + 2 \<le> ze" "ze \<le> 8" using assms by (simp_all add: zero_span_def)
  then have l: "length (group_bytes (take zs gs)) = 2 * zs"
    "length (group_bytes (drop ze gs)) = 16 - 2 * ze"
    using assms(2) by simp_all
  have "group_bytes gs = group_bytes (take zs gs @ replicate (ze - zs) 0 @ drop ze gs)"
    by (rule arg_cong [OF zero_span_split [OF assms(1)]])
  also have "\<dots> = group_bytes (take zs gs) @ replicate (2 * (ze - zs)) 0 @ group_bytes (drop ze gs)"
    by (simp only: group_bytes_simps(3) group_bytes_zeros)
  also have "2 * (ze - zs) = 16 - (2 * zs + (16 - 2 * ze))"
    using z by simp
  finally have gs: "group_bytes (take zs gs) @ replicate (16 - (2 * zs + (16 - 2 * ze))) 0 @
      group_bytes (drop ze gs) = group_bytes gs"
    by (rule sym)
  have "2 * zs + (16 - 2 * ze) < 16" using z by simp
  then show ?thesis
    using expand_ellipsis_at [of "group_bytes (take zs gs)" "group_bytes (drop ze gs)"]
    by (simp only: l gs)
qed

lemma hex_groups_not_lead:
  assumes "groups_ok gs" "gs \<noteq> []"
  shows "\<not> HasPrefix (hex_groups gs @ s) ''::''"
  using hex_groups_head [OF assms] by (auto simp: HasPrefix_def)

lemma groups_ok_take_drop: "groups_ok gs \<Longrightarrow> groups_ok (take n gs) \<and> groups_ok (drop n gs)"
  by (auto dest: in_set_takeD in_set_dropD)

lemma parseIPv6_body_print6:
  assumes l: "length gs = 8" and ok: "groups_ok gs"
  shows "parseIPv6_body (print6 gs (zero_run gs) 0) z =
           Some (V6 (word_of_int (bytes_int (group_bytes gs))) z)"
proof (cases "zero_run gs")
  case None
  have "gs \<noteq> []" using l by auto
  then show ?thesis
    using None l ok v6_loop_groups [of gs "[]" None] hex_groups_not_lead [of gs "[]"]
    by (simp add: print6_None parseIPv6_body_def expand_ellipsis_def)
next
  case (Some r)
  obtain zs ze where r: "r = (zs, ze)" by (cases r)
  with Some l have sp: "zero_span gs (zs, ze)" by (simp add: zero_run_span)
  then have z: "zs < ze" "zs + 2 \<le> ze" "ze \<le> 8" using l by (simp_all add: zero_span_def)
  note expand = zero_span_bytes [OF sp l]
  have okt: "groups_ok (take zs gs)" and okd: "groups_ok (drop ze gs)"
    using groups_ok_take_drop [OF ok] by blast+
  have lens: "length (take zs gs) = zs" "length (drop ze gs) = 8 - ze"
    using l z by simp_all
  show ?thesis
  proof (cases "zs = 0")
    case True
    show ?thesis
    proof (cases "drop ze gs = []")
      case True
      then have "gs = replicate 8 0"
        using zero_span_split [OF sp] \<open>zs = 0\<close> l z by auto
      then have "bytes_int (group_bytes gs) = 0"
        by (simp only: group_bytes_zeros) (simp add: bytes_int_def numeral_eq_Suc)
      with True \<open>zs = 0\<close> Some r z l show ?thesis
        by (simp add: print6_at_run parseIPv6_body_def HasPrefix_def)
    next
      case False
      have "v6_loop (hex_groups (drop ze gs)) [] (Some 0) =
              Some ([], [] @ group_bytes (drop ze gs), Some 0)"
        by (rule v6_loop_groups [OF okd False]) (simp add: l)
      moreover have "expand_ellipsis (group_bytes (drop ze gs)) (Some 0) = Some (group_bytes gs)"
        using expand \<open>zs = 0\<close> by simp
      moreover have "print6 gs (zero_run gs) 0 = ''::'' @ hex_groups (drop ze gs)"
        using print6_at_run [OF l z(1) z(3)] Some r \<open>zs = 0\<close> by simp
      ultimately show ?thesis
        using False by (simp add: parseIPv6_body_def HasPrefix_def)
    qed
  next
    case False
    then have ne: "take zs gs \<noteq> []" using l by auto
    have "v6_loop (hex_groups (take zs gs) @ CHR '':'' # CHR '':'' # hex_groups (drop ze gs)) [] None =
        Some ([], [] @ group_bytes (take zs gs) @ group_bytes (drop ze gs),
              Some (length ([] :: int list) + 2 * length (take zs gs)))"
      by (rule v6_loop_groups_ellipsis [OF okt ne okd]) (use z in \<open>simp add: l\<close>)
    moreover have "\<not> HasPrefix (hex_groups (take zs gs) @ s) ''::''" for s
      by (rule hex_groups_not_lead [OF okt ne])
    ultimately show ?thesis
      using False Some r z l expand
      by (simp add: print6_run parseIPv6_body_def)
  qed
qed

subsection \<open>The value of the groups of a word\<close>

lemma foldl_radix:
  fixes x B :: int
  assumes "0 < B" and "0 \<le> x"
  shows "foldl (\<lambda>n g. n * B + g) 0 (map (\<lambda>i. x div B ^ (k - 1 - i) mod B) [0..<k]) = x mod B ^ k"
  using assms(2)
proof (induction k arbitrary: x)
  case 0
  then show ?case by simp
next
  case (Suc k)
  have "map (\<lambda>i. x div B ^ (Suc k - 1 - i) mod B) [0..<k] =
        map (\<lambda>i. x div B div B ^ (k - 1 - i) mod B) [0..<k]"
  proof (rule map_cong [OF refl])
    fix i assume "i \<in> set [0..<k]"
    then have "Suc k - 1 - i = Suc (k - 1 - i)" by auto
    then show "x div B ^ (Suc k - 1 - i) mod B = x div B div B ^ (k - 1 - i) mod B"
      using assms(1) by (simp add: zdiv_zmult2_eq)
  qed
  moreover have "map (\<lambda>i. x div B ^ (Suc k - 1 - i) mod B) [0..<Suc k] =
      map (\<lambda>i. x div B ^ (Suc k - 1 - i) mod B) [0..<k] @ [x mod B]"
    by simp
  moreover have "0 \<le> x div B" using assms Suc.prems by (simp add: pos_imp_zdiv_nonneg_iff)
  ultimately have "foldl (\<lambda>n g. n * B + g) 0
      (map (\<lambda>i. x div B ^ (Suc k - 1 - i) mod B) [0..<Suc k]) = x div B mod B ^ k * B + x mod B"
    by (simp only: foldl_append foldl.simps Suc.IH)
  also have "\<dots> = x mod B ^ Suc k"
    using assms(1) by (simp add: zmod_zmult2_eq mult.commute)
  finally show ?case .
qed

lemma bytes_int_group_bytes:
  "bytes_int (group_bytes gs) = foldl (\<lambda>n g. n * 65536 + g) 0 gs"
proof -
  have step: "(n * 256 + g div 256) * 256 + g mod 256 = n * 65536 + g" for n g :: int
    using div_mult_mod_eq [of g 256] by (simp add: algebra_simps)
  have "foldl (\<lambda>n b. n * 256 + b) m (group_bytes gs) = foldl (\<lambda>n g. n * 65536 + g) m gs" for m
    by (induction gs arbitrary: m)
      (simp_all only: group_bytes_simps append_Cons append_Nil foldl.simps step)
  then show ?thesis by (simp add: bytes_int_def)
qed

lemma v6_groups_value: "bytes_int (group_bytes (map (v6u16 w) [0..<8])) = uint w"
proof -
  have "uint w < 65536 ^ 8" by (rule order_less_le_trans [OF uint_lt2p]) simp
  then have "uint w mod 65536 ^ 8 = uint w" by (rule mod_pos_pos_trivial [OF uint_ge_0])
  moreover have "map (v6u16 w) [0..<8] = map (\<lambda>i. uint w div 65536 ^ (8 - 1 - i) mod 65536) [0..<8]"
    unfolding v6u16_def by (rule map_cong) simp_all
  ultimately show ?thesis
    using foldl_radix [of 65536 "uint w" 8] by (simp only: bytes_int_group_bytes) simp
qed

lemma v6_groups_ok: "groups_ok (map (v6u16 w) [0..<8])"
  by (auto simp: v6u16_def)

subsection \<open>IPv6 addresses print and parse back\<close>

lemma hex_groups_chars:
  assumes "groups_ok gs" and "c \<in> set (hex_groups gs)"
  shows "c \<noteq> CHR ''.'' \<and> c \<noteq> CHR ''%'' \<and> c \<noteq> CHR '',''"
  using assms
proof (induction gs)
  case Nil
  then show ?case by simp
next
  case (Cons g gs)
  have "c \<in> set (appendHex g) \<or> c = CHR '':'' \<or> c \<in> set (hex_groups gs)"
    using Cons.prems by (cases gs) auto
  then consider "c \<in> set (appendHex g)" | "c = CHR '':''" | "c \<in> set (hex_groups gs)"
    by blast
  then show ?case
  proof cases
    case 1
    with Cons.prems(1) obtain d where "0 \<le> d" "d < 16" "c = hex_char d"
      using appendHex_chars [of g c] by auto
    with hex_char_not_sep [of d] show ?thesis by simp
  next
    case 2
    then show ?thesis by simp
  next
    case 3
    have "groups_ok gs" using Cons.prems(1) by simp
    then show ?thesis using 3 by (rule Cons.IH)
  qed
qed

lemma print6_shape:
  assumes "length gs = 8"
  shows "print6 gs (zero_run gs) 0 = hex_groups gs \<or>
         (\<exists>m n. print6 gs (zero_run gs) 0 = hex_groups (take m gs) @ ''::'' @ hex_groups (drop n gs))"
proof (cases "zero_run gs")
  case None
  with assms show ?thesis by (simp add: print6_None)
next
  case (Some r)
  obtain zs ze where r: "r = (zs, ze)" by (cases r)
  with Some assms have "zero_span gs (zs, ze)" by (simp add: zero_run_span)
  then have z: "zs < ze" "ze \<le> 8" using assms by (simp_all add: zero_span_def)
  have "print6 gs (Some (zs, ze)) 0 = hex_groups (take zs gs) @ ''::'' @ hex_groups (drop ze gs)"
    using assms z print6_at_run [of gs zs ze] print6_run [of gs zs ze 0]
    by (cases "zs = 0") simp_all
  with Some r show ?thesis by metis
qed

lemma string6_chars:
  "c \<in> set (string6 w) \<Longrightarrow> c \<noteq> CHR ''.'' \<and> c \<noteq> CHR ''%'' \<and> c \<noteq> CHR '',''"
proof -
  assume c: "c \<in> set (string6 w)"
  let ?gs = "map (v6u16 w) [0..<8]"
  have ok: "groups_ok ?gs" by (rule v6_groups_ok)
  consider "c \<in> set (hex_groups ?gs)" | "c = CHR '':''"
    | m where "c \<in> set (hex_groups (take m ?gs))" | n where "c \<in> set (hex_groups (drop n ?gs))"
    using c print6_shape [of ?gs] unfolding string6_def Let_def by fastforce
  then show ?thesis
  proof cases
    case 1
    then show ?thesis by (rule hex_groups_chars [OF ok])
  next
    case 2
    then show ?thesis by simp
  next
    case 3
    then show ?thesis using hex_groups_chars groups_ok_take_drop [OF ok] by blast
  next
    case 4
    then show ?thesis using hex_groups_chars groups_ok_take_drop [OF ok] by blast
  qed
qed

lemma find_colon:
  assumes "CHR '':'' \<in> set s" and "\<forall>c \<in> set s. c \<noteq> CHR ''.'' \<and> c \<noteq> CHR ''%''"
  shows "List.find (\<lambda>c. c = CHR ''.'' \<or> c = CHR '':'' \<or> c = CHR ''%'') s = Some CHR '':''"
  using assms by (induction s) auto

lemma hex_groups_colon: "2 \<le> length gs \<Longrightarrow> CHR '':'' \<in> set (hex_groups gs)"
  by (cases gs; cases "tl gs") auto

lemma string6_colon: "CHR '':'' \<in> set (string6 w)"
proof -
  let ?gs = "map (v6u16 w) [0..<8]"
  have "CHR '':'' \<in> set (hex_groups ?gs)"
    by (rule hex_groups_colon) simp
  then show ?thesis
    using print6_shape [of ?gs] unfolding string6_def Let_def by auto
qed

lemma ParseAddr_string6 [simp, netip_simps]: "ParseAddr (string6 w) = Some (V6 w [])"
proof -
  have "List.find (\<lambda>c. c = CHR ''.'' \<or> c = CHR '':'' \<or> c = CHR ''%'') (string6 w) = Some CHR '':''"
    by (rule find_colon) (use string6_colon string6_chars in blast)+
  moreover have "CHR ''%'' \<notin> set (string6 w)" using string6_chars by blast
  moreover have "parseIPv6_body (string6 w) [] = Some (V6 w [])"
    using parseIPv6_body_print6 [OF _ v6_groups_ok, of w "[]"]
    by (simp add: string6_def Let_def v6_groups_value del: upt_conv_Cons)
  ultimately show ?thesis
    by (simp add: ParseAddr_def parseIPv6_def)
qed

text \<open>An embedded IPv4 address prints as \<open>::ffff:a.b.c.d\<close>.\<close>

lemma hex_scan_octet:
  assumes "n < 256" and "hex_stop rest"
  shows "hex_scan (Itoa n @ rest) 0 0 \<noteq> None \<and>
         (\<exists>k acc. hex_scan (Itoa n @ rest) 0 0 = Some (Suc k, acc, rest))"
proof -
  have hv: "d < 10 \<Longrightarrow> hex_val (digit_char d) = Some (int d)" for d
    by (simp add: hex_val_def digit_char_def of_char_char_of_nat Let_def)
  consider "n < 10" | "\<not> n < 10" "n < 100" | "\<not> n < 100" by fastforce
  then show ?thesis
  proof cases
    case 1
    with assms show ?thesis by (simp add: Itoa_one hv hex_scan_stop Let_def)
  next
    case 2
    then have "n div 10 < 10" by simp
    with 2 assms show ?thesis by (simp add: Itoa_two hv hex_scan_stop Let_def)
  next
    case 3
    have "n div 100 < 10" "n div 10 mod 10 < 10" using assms by simp_all
    with 3 assms show ?thesis by (simp add: Itoa_three hv hex_scan_stop Let_def)
  qed
qed

lemma v6_loop_embedded:
  assumes "length ip + 4 \<le> 16"
  shows "v6_loop (string4 w) ip (Some e) =
           Some ([], ip @ [int (octet w 3), int (octet w 2), int (octet w 1), int (octet w 0)], Some e)"
proof -
  let ?rest = "CHR ''.'' # Itoa (octet w 2) @ ''.'' @ Itoa (octet w 1) @ ''.'' @ Itoa (octet w 0)"
  have s: "string4 w = Itoa (octet w 3) @ ?rest" by (simp add: string4_def)
  have "hex_stop ?rest" by (simp add: hex_stop_def hex_val_def)
  then obtain k acc where "hex_scan (string4 w) 0 0 = Some (Suc k, acc, ?rest)"
    unfolding s using hex_scan_octet [of "octet w 3" ?rest] octet_less by blast
  moreover have "parseIPv4Fields (string4 w) =
      Some [int (octet w 3), int (octet w 2), int (octet w 1), int (octet w 0)]"
    unfolding string4_def by (rule parseIPv4Fields_octets) simp_all
  ultimately show ?thesis
    using assms by (subst v6_loop.simps) simp
qed

lemma parse_mapped: "parseIPv6_body (''::ffff:'' @ string4 w) z =
   Some (V6 (word_of_int (281470681743360 + uint w)) z)"
proof -
  obtain c cs where c0: "string4 w = c # cs"
    by (cases "string4 w") (auto simp: string4_def)
  then have "c \<noteq> CHR '':''"
    using string4_chars [of c w] is_digit_not_sep [of c] by auto
  note c = c0 this
  have "v6_loop (appendHex 65535 @ CHR '':'' # c # cs) [] (Some 0) =
        v6_loop (c # cs) ([] @ [65535 div 256, 65535 mod 256]) (Some 0)"
    by (rule v6_loop_more) (use c in simp_all)
  moreover have "appendHex 65535 = ''ffff''"
    by (simp add: appendHex_def hex_char_def char_of_def)
  moreover have "v6_loop (string4 w) [255, 255] (Some 0) = Some ([], [255, 255] @
      [int (octet w 3), int (octet w 2), int (octet w 1), int (octet w 0)], Some 0)"
    by (rule v6_loop_embedded) simp
  ultimately have "v6_loop (''ffff:'' @ string4 w) [] (Some 0) = Some ([], [255, 255,
      int (octet w 3), int (octet w 2), int (octet w 1), int (octet w 0)], Some 0)"
    using c by simp
  moreover have "bytes_int [0, 0, 0, 0, 0, 0, 0, 0, 0, 0, 255, 255,
      int (octet w 3), int (octet w 2), int (octet w 1), int (octet w 0)] = 281470681743360 + uint w"
    using octets_value [of w] by (simp add: bytes_int_def)
  ultimately show ?thesis
    by (simp add: parseIPv6_body_def HasPrefix_def expand_ellipsis_def numeral_eq_Suc)
qed

lemma Is4In6_value:
  assumes "Is4In6 w"
  shows "uint w = 281470681743360 + uint (ucast w :: 32 word)"
proof -
  have "uint (drop_bit 32 w) = 65535" using assms by (simp add: Is4In6_def)
  then have "uint w div 4294967296 = 65535"
    by (simp add: unsigned_drop_bit_eq drop_bit_eq_div uint_div_distrib)
  moreover have "uint (ucast w :: 32 word) = uint w mod 4294967296"
    by (simp add: unsigned_ucast_eq take_bit_eq_mod)
  moreover have "uint w = uint w div 4294967296 * 4294967296 + uint w mod 4294967296"
    by (rule div_mult_mod_eq [symmetric])
  ultimately show ?thesis by simp
qed

lemma ParseAddr_mapped:
  assumes "Is4In6 w"
  shows "ParseAddr (''::ffff:'' @ string4 (ucast w)) = Some (V6 w [])"
proof -
  have "CHR ''%'' \<notin> set (''::ffff:'' @ string4 (ucast w))"
    using string4_chars [of _ "ucast w"] is_digit_not_sep by fastforce
  moreover have "word_of_int (281470681743360 + uint (ucast w :: 32 word)) = w"
    using Is4In6_value [OF assms] by (metis word_of_int_uint)
  ultimately show ?thesis
    using parse_mapped [of "ucast w" "[]"] by (simp add: ParseAddr_def parseIPv6_def)
qed

lemma ParseAddr_AddrString [netip_simps]:
  "a \<noteq> ZeroAddr \<Longrightarrow> \<not> hasZone a \<Longrightarrow> ParseAddr (AddrString a) = Some a"
  by (cases a) (auto simp: ParseAddr_mapped [simplified])

lemma ParseAddr_valid: "ParseAddr s = Some a \<Longrightarrow> a \<noteq> ZeroAddr"
  by (auto simp: ParseAddr_def parseIPv4_def parseIPv6_def parseIPv6_body_def Let_def
      split: option.splits if_splits prod.splits)

subsection \<open>Prefixes\<close>

text \<open>What every parsed prefix satisfies: a real address without a zone, and a length in range.\<close>

definition prefix_ok :: "prefix \<Rightarrow> bool" where
  "prefix_ok p \<longleftrightarrow>
     PrefixAddr p \<noteq> ZeroAddr \<and> \<not> hasZone (PrefixAddr p) \<and> Bits p \<le> BitLen (PrefixAddr p)"

lemma BitLen_eq: "a \<noteq> ZeroAddr \<Longrightarrow> BitLen a = (if Is6 a then 128 else 32)"
  by (cases a) auto

lemma hasZone_Is6: "hasZone a \<Longrightarrow> Is6 a"
  by (cases a) auto

lemma ParsePrefix_ok: "ParsePrefix s = Some p \<Longrightarrow> prefix_ok p"
  by (auto simp: ParsePrefix_def prefix_ok_def Let_def BitLen_eq split: option.splits if_splits
      dest: ParseAddr_valid hasZone_Is6)

lemma ParsePrefix_split:
  assumes "CHR ''/'' \<notin> set b"
  shows "ParsePrefix (a @ CHR ''/'' # b) =
    (case ParseAddr a of
       None \<Rightarrow> None
     | Some ip \<Rightarrow>
         if Is6 ip \<and> hasZone ip then None
         else if length b > 1 \<and> \<not> (is_digit (hd b) \<and> hd b \<noteq> CHR ''0'') then None
         else case Atoi b of
           None \<Rightarrow> None
         | Some bits \<Rightarrow>
             if bits < 0 \<or> bits > (if Is6 ip then 128 else 32) then None
             else Some (Prefix ip (nat bits)))"
proof -
  have e1: "rev (takeWhile (\<lambda>c. c \<noteq> CHR ''/'') (rev (a @ CHR ''/'' # b))) = b"
    and e2: "rev (tl (dropWhile (\<lambda>c. c \<noteq> CHR ''/'') (rev (a @ CHR ''/'' # b)))) = a"
    using assms by simp_all
  show ?thesis
    unfolding ParsePrefix_def Let_def e1 e2 by simp
qed

lemma Atoi_Itoa: "n < 2 ^ 63 \<Longrightarrow> Atoi (Itoa n) = Some (int n)"
proof -
  assume n: "n < 2 ^ 63"
  obtain c cs where c: "Itoa n = c # cs" by (cases "Itoa n") auto
  then have "is_digit c" using digits_not_sep [of c n] by simp
  then have "c \<noteq> CHR ''-''" "c \<noteq> CHR ''+''" by (auto simp: is_digit_def)
  moreover have "list_all is_digit (c # cs)" "dec_value (c # cs) = int n"
    using Itoa_digits [of n] dec_value_Itoa [of n] c by simp_all
  ultimately show ?thesis
    using n by (simp add: Atoi_def c Let_def)
qed

lemma Itoa_no_leading_zero:
  assumes "length (Itoa n) > 1"
  shows "is_digit (hd (Itoa n)) \<and> hd (Itoa n) \<noteq> CHR ''0''"
proof -
  have "10 \<le> n" using assms by (cases "n < 10") (simp_all add: Itoa_one)
  then obtain c cs where c: "Itoa n = c # cs" "c \<noteq> digit_char 0"
    using Itoa_head by blast
  moreover have "digit_char 0 = CHR ''0''" by code_simp
  ultimately show ?thesis using digits_not_sep [of c n] by simp
qed

lemma ParsePrefix_Itoa:
  assumes "ParseAddr a = Some ip" and "\<not> hasZone ip" and "n \<le> BitLen ip"
  shows "ParsePrefix (a @ CHR ''/'' # Itoa n) = Some (Prefix ip n)"
proof -
  have slash: "CHR ''/'' \<notin> set (Itoa n)"
    using digits_not_sep is_digit_not_sep by blast
  have n: "n < 2 ^ 63" "int n \<le> (if Is6 ip then 128 else 32)"
    using assms(3) ParseAddr_valid [OF assms(1)] by (cases ip; simp)+
  show ?thesis
    using assms n Itoa_no_leading_zero [of n]
    by (auto simp: ParsePrefix_split [OF slash] Atoi_Itoa)
qed

lemma ParsePrefix_PrefixString [netip_simps]:
  "prefix_ok p \<Longrightarrow> ParsePrefix (PrefixString p) = Some p"
  by (cases p) (simp add: prefix_ok_def PrefixString_def ParsePrefix_Itoa ParseAddr_AddrString)

lemma Itoa_no_comma: "CHR '','' \<notin> set (Itoa n)"
  using Itoa_digits [of n] is_digit_not_sep by (auto simp: list_all_iff)

lemma PrefixString_no_comma:
  assumes "prefix_ok p"
  shows "CHR '','' \<notin> set (PrefixString p)"
proof (cases "PrefixAddr p")
  case ZeroAddr
  with assms show ?thesis by (simp add: prefix_ok_def)
next
  case (V4 w)
  then show ?thesis
    using string4_chars [of "CHR '',''" w] is_digit_not_sep Itoa_no_comma
    by (auto simp: PrefixString_def)
next
  case (V6 w z)
  with assms show ?thesis
    using string4_chars [of "CHR '',''" "ucast w"] string6_chars [of "CHR '',''" w]
      is_digit_not_sep Itoa_no_comma
    by (auto simp: PrefixString_def prefix_ok_def)
qed

subsection \<open>Containment compares the network bits\<close>

lemma xor_eq_0_iff: "(a :: 'a::len word) XOR b = 0 \<longleftrightarrow> a = b"
  by (metis bit.xor_self word_bw_assocs(3) xor.left_neutral xor.right_neutral)

lemma and_not_mask_eq_0:
  fixes w :: "'a::len word"
  shows "w AND NOT (mask k) = 0 \<longleftrightarrow> drop_bit k w = 0"
proof -
  have "w AND NOT (mask k) = push_bit k (drop_bit k w)"
    by (rule bit_eqI) (auto simp: bit_simps)
  moreover have "drop_bit k (push_bit k (drop_bit k w)) = drop_bit k w"
    by (rule bit_eqI) (auto simp: bit_simps dest: bit_imp_le_length)
  ultimately show ?thesis by (metis drop_bit_of_0 push_bit_of_0)
qed

lemma PrefixContains_V4 [simp, netip_simps]:
  "PrefixContains (Prefix (V4 a) n) (V4 b) \<longleftrightarrow> drop_bit (32 - n) b = drop_bit (32 - n) a"
  by (simp add: PrefixContains_def xor_eq_0_iff)

lemma PrefixContains_V6 [simp, netip_simps]:
  "PrefixContains (Prefix (V6 a z) n) (V6 b z') \<longleftrightarrow>
     z' = [] \<and> drop_bit (128 - n) b = drop_bit (128 - n) a"
  by (simp add: PrefixContains_def mask6_def and_not_mask_eq_0 xor_eq_0_iff)

lemma PrefixContains_same_kind:
  "PrefixContains p ip \<Longrightarrow>
     Is4 (PrefixAddr p) = Is4 ip \<and> Is6 (PrefixAddr p) = Is6 ip \<and> ip \<noteq> ZeroAddr \<and> \<not> hasZone ip"
  by (cases "PrefixAddr p"; cases ip) (auto simp: PrefixContains_def split: if_splits)

lemma PrefixContains_refl: "prefix_ok p \<Longrightarrow> PrefixContains p (PrefixAddr p)"
  by (cases p; cases "PrefixAddr p") (auto simp: prefix_ok_def)

subsection \<open>Canonical CIDR texts\<close>

lemma dtoi_loop_all:
  "dtoi_loop s n i = (m, i + length s, True) \<Longrightarrow>
     list_all is_digit s \<and> m = foldl (\<lambda>n c. n * 10 + digit_val c) n s"
  by (induction s n i rule: dtoi_loop.induct) (auto simp: Let_def split: if_splits)

lemma dtoi_all:
  assumes "dtoi s = (m, length s, True)"
  shows "list_all is_digit s \<and> m = dec_value s"
  using dtoi_loop_all [of s 0 0 m] assms by (simp add: dtoi_def dec_value_def)

lemma digit_val_nonneg: "is_digit c \<Longrightarrow> 0 \<le> digit_val c"
  by (simp add: is_digit_def digit_val_def)

lemma ParseCIDR_D:
  assumes "ParseCIDR s = Some net"
  shows "\<exists>a m ip n. s = a @ CHR ''/'' # m \<and> ParseAddr a = Some ip \<and> \<not> hasZone ip \<and>
           list_all is_digit m \<and> n = nat (dec_value m) \<and> dec_value m \<le> int (BitLen ip) \<and>
           net = (case ip of V4 w \<Rightarrow> IPNet4 (w AND NOT (mask (32 - n))) n
                  | V6 w _ \<Rightarrow> IPNet6 (w AND NOT (mask (128 - n))) n)"
proof -
  obtain a m found where cut: "Cut s ''/'' = (a, m, found)" by (metis prod_cases3)
  with assms have f: "found" by (auto simp: ParseCIDR_def split: if_splits)
  with cut have s: "s = a @ CHR ''/'' # m"
    by (auto simp: Cut_def split: option.splits dest: cut_opt_SomeD)
  from assms cut f obtain ip where ip: "ParseAddr a = Some ip" "\<not> hasZone ip"
    by (auto simp: ParseCIDR_def split: option.splits if_splits)
  obtain n i ok where d: "dtoi m = (n, i, ok)" by (metis prod_cases3)
  with assms cut f ip have c: "ok" "i = length m" "n \<le> int (BitLen ip)"
    by (auto simp: ParseCIDR_def split: if_splits)
  with d dtoi_all [of m n] have m: "list_all is_digit m" "n = dec_value m" by simp_all
  have net: "net = (case ip of V4 w \<Rightarrow> IPNet4 (w AND NOT (mask (32 - nat n))) (nat n)
                  | V6 w _ \<Rightarrow> IPNet6 (w AND NOT (mask (128 - nat n))) (nat n))"
    using assms cut f ip d c by (auto simp: ParseCIDR_def split: addr.splits)
  show ?thesis
    using s ip m net c by blast
qed

text \<open>
  A text that is the canonical form of the network it denotes parses as a prefix, with the
  address that \<open>net.ParseCIDR\<close> masked and the same length.
\<close>

fun net_prefix :: "ipnet \<Rightarrow> prefix" where
  "net_prefix (IPNet4 w n) = Prefix (V4 w) n"
| "net_prefix (IPNet6 w n) = Prefix (V6 w []) n"

lemma slash_not_digits: "list_all is_digit m \<Longrightarrow> CHR ''/'' \<notin> set m"
  by (auto simp: list_all_iff dest: is_digit_not_sep)

lemma IPNetString_split:
  "\<exists>t k. IPNetString net = t @ CHR ''/'' # Itoa k \<and> t = NetIPString net"
  by (cases net) auto

lemma ParseAddr_NetIPString:
  "ParseAddr (NetIPString net) =
     Some (case net of IPNet4 w _ \<Rightarrow> V4 w
           | IPNet6 w _ \<Rightarrow> if Is4In6 w then V4 (ucast w) else V6 w [])"
  by (cases net) auto

lemma ParseCIDR_canonical:
  assumes "ParseCIDR s = Some net" and "IPNetString net = s"
  shows "ParsePrefix s = Some (net_prefix net) \<and>
         ParseAddr (NetIPString net) = Some (PrefixAddr (net_prefix net))"
proof -
  obtain a m ip n where s: "s = a @ CHR ''/'' # m" and ip: "ParseAddr a = Some ip" "\<not> hasZone ip"
    and m: "list_all is_digit m" and n: "n = nat (dec_value m)" "dec_value m \<le> int (BitLen ip)"
    and net: "net = (case ip of V4 w \<Rightarrow> IPNet4 (w AND NOT (mask (32 - n))) n
                  | V6 w _ \<Rightarrow> IPNet6 (w AND NOT (mask (128 - n))) n)"
    using ParseCIDR_D [OF assms(1)] by blast
  obtain k where k: "s = NetIPString net @ CHR ''/'' # Itoa k"
    using IPNetString_split [of net] assms(2) by auto
  have a: "a = NetIPString net" and mk: "m = Itoa k"
    using append_sep_inject_last [OF slash_not_digits [OF m] slash_not_digits [OF Itoa_digits]]
      s k by blast+
  then have nk: "n = k" using n by simp
  have "ParsePrefix s = Some (Prefix ip n)"
    using ParsePrefix_Itoa [OF ip, of n] n nk s mk by simp
  moreover have "net_prefix net = Prefix ip n"
  proof (cases ip)
    case ZeroAddr
    with ParseAddr_valid [OF ip(1)] show ?thesis by simp
  next
    case (V4 w)
    with net a ip show ?thesis by simp
  next
    case (V6 w z)
    with net a ip show ?thesis by (simp split: if_splits)
  qed
  ultimately show ?thesis using a ip by simp
qed

end
