(* ===== verification/Addresses.thy ===== *)
theory Addresses
  imports Infoblox NetipFacts
begin

text \<open>
  \<open>pkg/infoblox/addresses.go\<close>: host records of the appliance, allocation and release of the
  addresses in them. The connector of the Infoblox library is a parameter; its operations
  take and return the state \<open>'s\<close> of the appliance.
\<close>

subsection \<open>Host records\<close>

text \<open>
  The fields of the library's structs that the code reads or writes. A pointer is an option;
  a slice is an option too, since the code distinguishes nil from empty when it prepares an
  update. Ranging over a nil slice, its length and appending to it treat it as empty.
\<close>

record v4_entry =
  Ipv4Addr :: "string option"
  v4_Host :: string
  v4_Mac :: string
  v4_EnableDhcp :: bool
  v4_Ref :: string

record v6_entry =
  Ipv6Addr :: "string option"
  v6_Host :: string
  v6_Duid :: string
  v6_EnableDhcp :: bool
  v6_Ref :: string

record HostRecord =
  hr_Ref :: string
  hr_Name :: "string option"
  hr_NetworkView :: string
  hr_View :: "string option"
  hr_Zone :: string
  hr_EnableDns :: "bool option"
  hr_Ipv4Addrs :: "v4_entry list option"
  hr_Ipv6Addrs :: "v6_entry list option"

definition elems :: "'a list option \<Rightarrow> 'a list" where
  "elems xs = (case xs of None \<Rightarrow> [] | Some ys \<Rightarrow> ys)"

lemma elems_simps [simp]: "elems None = []" "elems (Some xs) = xs"
  by (simp_all add: elems_def)

subsection \<open>The connector\<close>

text \<open>
  \<open>con_List\<close> is \<open>GetObject\<close> with a query, \<open>con_Get\<close> is \<open>GetObject\<close> with a reference: it decodes
  the answer into the record it is given, so it takes that record and returns it changed.
  The last three fields are the library's constructors.
\<close>

record 's connector_ops =
  con_List :: "(string \<times> string) list \<Rightarrow> 's \<Rightarrow> (ib_error + HostRecord list) \<times> 's"
  con_Get :: "HostRecord \<Rightarrow> string \<Rightarrow> (string \<times> string) list \<Rightarrow> 's \<Rightarrow> (ib_error option \<times> HostRecord) \<times> 's"
  con_Create :: "HostRecord \<Rightarrow> 's \<Rightarrow> (ib_error + string) \<times> 's"
  con_Update :: "HostRecord \<Rightarrow> string \<Rightarrow> 's \<Rightarrow> (ib_error + string) \<times> 's"
  con_Delete :: "string \<Rightarrow> 's \<Rightarrow> (ib_error + string) \<times> 's"
  con_EmptyHostRecord :: HostRecord
  con_NewIpv4Addr :: "string \<Rightarrow> string \<Rightarrow> bool \<Rightarrow> string \<Rightarrow> v4_entry"
  con_NewIpv6Addr :: "string \<Rightarrow> string \<Rightarrow> bool \<Rightarrow> string \<Rightarrow> v6_entry"

subsection \<open>Finding or preparing the host record\<close>

definition hostRecordReturnFields :: "string list" where
  "hostRecordReturnFields =
     [''ipv4addrs'', ''ipv6addrs'', ''name'', ''view'', ''zone'', ''network_view'', ''configure_for_dns'']"

definition toDNSView :: "string \<Rightarrow> string option" where
  "toDNSView dnsView = (if dnsView = [] then None else Some dnsView)"

definition record_query :: "string \<Rightarrow> string \<Rightarrow> (string \<times> string) list" where
  "record_query networkView hostname =
     [(''name'', hostname), (''_return_fields'', Join hostRecordReturnFields '','')] @
     (if networkView \<noteq> [] then [(''network_view'', networkView)] else [])"

definition new_host_record ::
  "'s connector_ops \<Rightarrow> string \<Rightarrow> string \<Rightarrow> string \<Rightarrow> string \<Rightarrow> HostRecord" where
  "new_host_record con networkView dnsView dnsZone hostname =
     (let hr = (con_EmptyHostRecord con)
                 \<lparr>hr_Name := Some hostname, hr_NetworkView := networkView, hr_EnableDns := Some False\<rparr>
      in if dnsZone \<noteq> [] then hr\<lparr>hr_EnableDns := Some True, hr_View := toDNSView dnsView\<rparr>
         else hr)"

definition getOrNewHostRecord ::
  "'s connector_ops \<Rightarrow> string \<Rightarrow> string \<Rightarrow> string \<Rightarrow> string \<Rightarrow> 's \<Rightarrow> (error + HostRecord) \<times> 's" where
  "getOrNewHostRecord con networkView dnsView dnsZone hostname s =
     (case con_List con (record_query networkView hostname) s of
        (Inl err, s1) \<Rightarrow>
          (case err of
             NotFoundError _ \<Rightarrow> (Inr (new_host_record con networkView dnsView dnsZone hostname), s1)
           | IBError _ \<Rightarrow> (Inl (the (tryParseWapiError (Some err))), s1))
      | (Inr records, s1) \<Rightarrow>
          (case records of
             [hr] \<Rightarrow> (Inr hr, s1)
           | _ \<Rightarrow> (Inl (ErrorText (Fmt ''multiple host records found for hostname %q in network view %q and dns view %q''
                          [Text hostname, Text networkView, Text dnsView])), s1)))"

subsection \<open>Creating and updating\<close>

definition prepareHostRecordForUpdate :: "HostRecord \<Rightarrow> HostRecord" where
  "prepareHostRecordForUpdate hr =
     hr\<lparr>hr_Zone := [], hr_NetworkView := [],
        hr_Ipv4Addrs := Some (map (\<lambda>a. a\<lparr>v4_Host := []\<rparr>) (elems (hr_Ipv4Addrs hr))),
        hr_Ipv6Addrs := Some (map (\<lambda>a. a\<lparr>v6_Host := []\<rparr>) (elems (hr_Ipv6Addrs hr)))\<rparr>"

text \<open>
  The record is passed by pointer: the result is the error, if any, and the record as the
  call leaves it. Both branches log the name before they write, through a pointer that is nil
  if the record has no name.
\<close>

definition createOrUpdateHostRecord ::
  "'s connector_ops \<Rightarrow> HostRecord \<Rightarrow> 's \<Rightarrow> (error option \<times> HostRecord) \<times> 's" where
  "createOrUpdateHostRecord con hr s =
     (if hr_Name hr = None then ((Some (Panic ''nil pointer dereference: hr.Name''), hr), s)
      else let (hr1, r, s1) =
        (if hr_Ref hr = [] then (let (r, s1) = con_Create con hr s in (hr, r, s1))
         else (let hr1 = prepareHostRecordForUpdate hr;
                   (r, s1) = con_Update con hr1 (hr_Ref hr1) s in (hr1, r, s1)))
      in case r of
           Inl err \<Rightarrow> ((tryParseWapiError (Some err), hr1), s1)
         | Inr ref \<Rightarrow>
             (let ((err, hr2), s2) =
                con_Get con hr1 ref [(''_return_fields'', Join hostRecordReturnFields '','')] s1
              in ((tryParseWapiError err, hr2), s2)))"

subsection \<open>The address of a record in a subnet\<close>

fun first_v4 :: "prefix \<Rightarrow> v4_entry list \<Rightarrow> addr" where
  "first_v4 subnet [] = ZeroAddr"
| "first_v4 subnet (ip # ips) =
     (case Ipv4Addr ip of
        None \<Rightarrow> first_v4 subnet ips
      | Some txt \<Rightarrow>
          (case ParseAddr txt of
             None \<Rightarrow> first_v4 subnet ips
           | Some nip \<Rightarrow> if PrefixContains subnet nip then nip else first_v4 subnet ips))"

fun first_v6 :: "prefix \<Rightarrow> v6_entry list \<Rightarrow> addr" where
  "first_v6 subnet [] = ZeroAddr"
| "first_v6 subnet (ip # ips) =
     (case Ipv6Addr ip of
        None \<Rightarrow> first_v6 subnet ips
      | Some txt \<Rightarrow>
          (case ParseAddr txt of
             None \<Rightarrow> first_v6 subnet ips
           | Some nip \<Rightarrow> if PrefixContains subnet nip then nip else first_v6 subnet ips))"

definition getAllocatedHostRecordAddrInSubnet :: "HostRecord \<Rightarrow> prefix \<Rightarrow> addr" where
  "getAllocatedHostRecordAddrInSubnet hr subnet =
     (if Is4 (PrefixAddr subnet) then first_v4 subnet (elems (hr_Ipv4Addrs hr))
      else first_v6 subnet (elems (hr_Ipv6Addrs hr)))"

subsection \<open>Allocation\<close>

definition nextAvailableIBFunc :: "prefix \<Rightarrow> string \<Rightarrow> string" where
  "nextAvailableIBFunc subnet view =
     ''func:nextavailableip:'' @ PrefixString subnet @ '','' @ view"

definition request_address ::
  "'s connector_ops \<Rightarrow> string \<Rightarrow> prefix \<Rightarrow> HostRecord \<Rightarrow> HostRecord" where
  "request_address con networkView subnet hr =
     (if Is4 (PrefixAddr subnet)
      then hr\<lparr>hr_Ipv4Addrs := Some (elems (hr_Ipv4Addrs hr) @
                [con_NewIpv4Addr con (nextAvailableIBFunc subnet networkView) [] False []])\<rparr>
      else hr\<lparr>hr_Ipv6Addrs := Some (elems (hr_Ipv6Addrs hr) @
                [con_NewIpv6Addr con (nextAvailableIBFunc subnet networkView) [] False []])\<rparr>)"

definition GetOrAllocateAddress ::
  "'s connector_ops \<Rightarrow> string \<Rightarrow> string \<Rightarrow> prefix \<Rightarrow> string \<Rightarrow> string \<Rightarrow> 's \<Rightarrow> (error + addr) \<times> 's" where
  "GetOrAllocateAddress con networkView dnsView subnet hostname dnsZone s =
     (case getOrNewHostRecord con networkView dnsView dnsZone hostname s of
        (Inl err, s1) \<Rightarrow> (Inl (Wrap ''failed to get or create Infoblox host record: %w'' err), s1)
      | (Inr hr, s1) \<Rightarrow>
          (let allocatedAddr = getAllocatedHostRecordAddrInSubnet hr subnet
           in if IsValid allocatedAddr then (Inr allocatedAddr, s1)
              else
                (case createOrUpdateHostRecord con (request_address con networkView subnet hr) s1 of
                   ((Some err, _), s2) \<Rightarrow>
                     (Inl (wrap_call ''failed to create or update Infoblox host record: %w'' err), s2)
                 | ((None, hr2), s2) \<Rightarrow>
                     (let allocatedAddr = getAllocatedHostRecordAddrInSubnet hr2 subnet
                      in if \<not> IsValid allocatedAddr
                         then (Inl (ErrorText (Text ''failed to allocate IP address: Infoblox host record does not contain a matching IP address'')), s2)
                         else (Inr allocatedAddr, s2)))))"

subsection \<open>Release\<close>

text \<open>The loops over the entries: the list without the first entry in the subnet, if any.\<close>

fun remove_v4 :: "prefix \<Rightarrow> v4_entry list \<Rightarrow> v4_entry list option" where
  "remove_v4 subnet [] = None"
| "remove_v4 subnet (ip # ips) =
     (case Ipv4Addr ip of
        None \<Rightarrow> map_option ((#) ip) (remove_v4 subnet ips)
      | Some txt \<Rightarrow>
          (case ParseAddr txt of
             None \<Rightarrow> map_option ((#) ip) (remove_v4 subnet ips)
           | Some nip \<Rightarrow>
               if PrefixContains subnet nip then Some ips
               else map_option ((#) ip) (remove_v4 subnet ips)))"

fun remove_v6 :: "prefix \<Rightarrow> v6_entry list \<Rightarrow> v6_entry list option" where
  "remove_v6 subnet [] = None"
| "remove_v6 subnet (ip # ips) =
     (case Ipv6Addr ip of
        None \<Rightarrow> map_option ((#) ip) (remove_v6 subnet ips)
      | Some txt \<Rightarrow>
          (case ParseAddr txt of
             None \<Rightarrow> map_option ((#) ip) (remove_v6 subnet ips)
           | Some nip \<Rightarrow>
               if PrefixContains subnet nip then Some ips
               else map_option ((#) ip) (remove_v6 subnet ips)))"

definition release_from_record :: "HostRecord \<Rightarrow> prefix \<Rightarrow> HostRecord option" where
  "release_from_record hr subnet =
     (if Is4 (PrefixAddr subnet)
      then map_option (\<lambda>ips. hr\<lparr>hr_Ipv4Addrs := Some ips\<rparr>) (remove_v4 subnet (elems (hr_Ipv4Addrs hr)))
      else map_option (\<lambda>ips. hr\<lparr>hr_Ipv6Addrs := Some ips\<rparr>) (remove_v6 subnet (elems (hr_Ipv6Addrs hr))))"

definition ReleaseAddress ::
  "'s connector_ops \<Rightarrow> string \<Rightarrow> string \<Rightarrow> prefix \<Rightarrow> string \<Rightarrow> 's \<Rightarrow> error option \<times> 's" where
  "ReleaseAddress con networkView dnsView subnet hostname s =
     (case getOrNewHostRecord con networkView dnsView [] hostname s of
        (Inl err, s1) \<Rightarrow> (Some err, s1)
      | (Inr hr, s1) \<Rightarrow>
          (case release_from_record hr subnet of
             None \<Rightarrow> (None, s1)
           | Some hr1 \<Rightarrow>
               if length (elems (hr_Ipv4Addrs hr1)) = 0 \<and> length (elems (hr_Ipv6Addrs hr1)) = 0
               then (case con_Delete con (hr_Ref hr1) s1 of
                       (Inl err, s2) \<Rightarrow>
                         (Some (Wrap ''failed to delete Infoblox host record: %w''
                                  (the (tryParseWapiError (Some err)))), s2)
                     | (Inr _, s2) \<Rightarrow> (None, s2))
               else (let hr2 = prepareHostRecordForUpdate hr1
                     in case con_Update con hr2 (hr_Ref hr2) s1 of
                       (Inl err, s2) \<Rightarrow>
                         (Some (Wrap ''failed to update Infoblox host record: %w''
                                  (the (tryParseWapiError (Some err)))), s2)
                     | (Inr _, s2) \<Rightarrow> (None, s2))))"

end
