(* ===== verification/AddressFacts.thy ===== *)
theory AddressFacts
  imports Addresses
begin

text \<open>
  Facts about allocation and release. The code has every loop over address entries twice, for
  IPv4 and for IPv6; what the two copies share is stated once in the locale
  \<open>address_entries\<close> and interpreted for both.
\<close>

subsection \<open>The shared contract of the two address lists\<close>

text \<open>The address of an entry, given its text, if it is an address of the subnet.\<close>

definition entry_addr :: "prefix \<Rightarrow> string option \<Rightarrow> addr option" where
  "entry_addr subnet txt =
     (case Option.bind txt ParseAddr of
        None \<Rightarrow> None
      | Some nip \<Rightarrow> if PrefixContains subnet nip then Some nip else None)"

lemma entry_addr_SomeD:
  "entry_addr subnet txt = Some a \<Longrightarrow> PrefixContains subnet a \<and> IsValid a"
  by (auto simp: entry_addr_def IsValid_def split: option.splits if_splits
      dest: PrefixContains_same_kind)

locale address_entries =
  fixes txt_of :: "'e \<Rightarrow> string option"
    and first :: "prefix \<Rightarrow> 'e list \<Rightarrow> addr"
    and remove :: "prefix \<Rightarrow> 'e list \<Rightarrow> 'e list option"
  assumes first_Nil: "first subnet [] = ZeroAddr"
    and first_Cons: "first subnet (x # xs) =
      (case entry_addr subnet (txt_of x) of Some a \<Rightarrow> a | None \<Rightarrow> first subnet xs)"
    and remove_Nil: "remove subnet [] = None"
    and remove_Cons: "remove subnet (x # xs) =
      (case entry_addr subnet (txt_of x) of
         Some a \<Rightarrow> Some xs | None \<Rightarrow> map_option ((#) x) (remove subnet xs))"
begin

lemma first_in_subnet: "IsValid (first subnet xs) \<Longrightarrow> PrefixContains subnet (first subnet xs)"
  by (induction xs)
    (auto simp: first_Nil first_Cons IsValid_def dest: entry_addr_SomeD split: option.splits)

lemma first_valid_iff:
  "IsValid (first subnet xs) \<longleftrightarrow> (\<exists>x \<in> set xs. entry_addr subnet (txt_of x) \<noteq> None)"
  by (induction xs)
    (auto simp: first_Nil first_Cons IsValid_def dest: entry_addr_SomeD split: option.splits)

lemma first_append_valid:
  "IsValid (first subnet xs) \<Longrightarrow> first subnet (xs @ ys) = first subnet xs"
  by (induction xs) (auto simp: first_Nil first_Cons IsValid_def split: option.splits)

lemma remove_None_iff: "remove subnet xs = None \<longleftrightarrow> \<not> IsValid (first subnet xs)"
  by (induction xs)
    (auto simp: first_Nil first_Cons remove_Nil remove_Cons IsValid_def dest: entry_addr_SomeD
      split: option.splits)

lemma remove_SomeD:
  "remove subnet xs = Some ys \<Longrightarrow>
     \<exists>pre x post. xs = pre @ x # post \<and> ys = pre @ post \<and>
       entry_addr subnet (txt_of x) = Some (first subnet xs) \<and>
       (\<forall>y \<in> set pre. entry_addr subnet (txt_of y) = None)"
proof (induction xs arbitrary: ys)
  case Nil
  then show ?case by (simp add: remove_Nil)
next
  case (Cons z zs)
  show ?case
  proof (cases "entry_addr subnet (txt_of z)")
    case None
    with Cons.prems obtain ys' where "remove subnet zs = Some ys'" and ys: "ys = z # ys'"
      by (auto simp: remove_Cons)
    with Cons.IH obtain pre x post where "zs = pre @ x # post" "ys' = pre @ post"
      "entry_addr subnet (txt_of x) = Some (first subnet zs)"
      "\<forall>y \<in> set pre. entry_addr subnet (txt_of y) = None"
      by blast
    with None ys show ?thesis
      by (intro exI [of _ "z # pre"] exI [of _ x] exI [of _ post]) (simp add: first_Cons)
  next
    case (Some a)
    with Cons.prems show ?thesis
      by (intro exI [of _ "[]"] exI [of _ z] exI [of _ zs]) (simp add: first_Cons remove_Cons)
  qed
qed

lemma remove_length: "remove subnet xs = Some ys \<Longrightarrow> length xs = Suc (length ys)"
  by (auto dest: remove_SomeD)

lemma remove_count:
  assumes "remove subnet xs = Some ys"
  shows "length (filter (\<lambda>x. entry_addr subnet (txt_of x) \<noteq> None) xs) =
           Suc (length (filter (\<lambda>x. entry_addr subnet (txt_of x) \<noteq> None) ys))"
  using remove_SomeD [OF assms] by auto

lemma remove_other_subnet:
  assumes "remove subnet xs = Some ys" and "\<not> PrefixContains other (first subnet xs)"
  shows "first other ys = first other xs"
proof -
  obtain pre x post where xs: "xs = pre @ x # post" "ys = pre @ post"
    and x: "entry_addr subnet (txt_of x) = Some (first subnet xs)"
    using remove_SomeD [OF assms(1)] by blast
  have "entry_addr other (txt_of x) = None"
    using x assms(2) by (auto simp: entry_addr_def split: option.splits if_splits)
  then have "first other (pre @ x # post) = first other (pre @ post)"
    by (induction pre) (auto simp: first_Cons split: option.splits)
  with xs show ?thesis by simp
qed

lemma first_spec:
  "first subnet xs =
     (case List.map_filter (\<lambda>x. entry_addr subnet (txt_of x)) xs of [] \<Rightarrow> ZeroAddr | a # as \<Rightarrow> a)"
  by (induction xs) (auto simp: first_Nil first_Cons map_filter_simps split: option.splits)

lemma remove_spec:
  "remove subnet xs = Some ys \<Longrightarrow>
     List.map_filter (\<lambda>x. entry_addr subnet (txt_of x)) ys =
       tl (List.map_filter (\<lambda>x. entry_addr subnet (txt_of x)) xs)"
proof (induction xs arbitrary: ys)
  case Nil
  then show ?case by (simp add: remove_Nil)
next
  case (Cons z zs)
  then show ?case
    by (cases "entry_addr subnet (txt_of z)") (auto simp: remove_Cons map_filter_simps)
qed

lemma remove_None_spec:
  "remove subnet xs = None \<longleftrightarrow> List.map_filter (\<lambda>x. entry_addr subnet (txt_of x)) xs = []"
  by (induction xs) (auto simp: remove_Nil remove_Cons map_filter_simps split: option.splits)

lemma remove_spec_other:
  assumes "remove subnet xs = Some ys"
    and "\<forall>a. PrefixContains subnet a \<longrightarrow> \<not> PrefixContains other a"
  shows "List.map_filter (\<lambda>x. entry_addr other (txt_of x)) ys =
           List.map_filter (\<lambda>x. entry_addr other (txt_of x)) xs"
proof -
  obtain pre x post where xs: "xs = pre @ x # post" "ys = pre @ post"
    and x: "entry_addr subnet (txt_of x) = Some (first subnet xs)"
    using remove_SomeD [OF assms(1)] by blast
  have "entry_addr other (txt_of x) = None"
    using x assms(2) by (auto simp: entry_addr_def split: option.splits if_splits)
  with xs show ?thesis by (simp add: map_filter_def)
qed

end

interpretation v4: address_entries Ipv4Addr first_v4 remove_v4
  by unfold_locales (simp_all add: entry_addr_def split: option.split)

interpretation v6: address_entries Ipv6Addr first_v6 remove_v6
  by unfold_locales (simp_all add: entry_addr_def split: option.split)

subsection \<open>Reading a record\<close>

lemma allocated_in_subnet:
  "IsValid (getAllocatedHostRecordAddrInSubnet hr subnet) \<Longrightarrow>
     PrefixContains subnet (getAllocatedHostRecordAddrInSubnet hr subnet)"
  by (simp add: getAllocatedHostRecordAddrInSubnet_def v4.first_in_subnet v6.first_in_subnet
      split: if_splits)

lemma release_None_iff:
  "release_from_record hr subnet = None \<longleftrightarrow>
     \<not> IsValid (getAllocatedHostRecordAddrInSubnet hr subnet)"
  by (simp add: release_from_record_def getAllocatedHostRecordAddrInSubnet_def
      v4.remove_None_iff v6.remove_None_iff)

text \<open>
  The abstract view of a record in a subnet: the addresses of its entries, of the family of
  the subnet and inside it, in order. Reading the allocated address is taking its head,
  releasing is dropping its head.
\<close>

definition addrs_in :: "HostRecord \<Rightarrow> prefix \<Rightarrow> addr list" where
  "addrs_in hr subnet =
     (if Is4 (PrefixAddr subnet)
      then List.map_filter (\<lambda>x. entry_addr subnet (Ipv4Addr x)) (elems (hr_Ipv4Addrs hr))
      else List.map_filter (\<lambda>x. entry_addr subnet (Ipv6Addr x)) (elems (hr_Ipv6Addrs hr)))"

lemma allocated_spec:
  "getAllocatedHostRecordAddrInSubnet hr subnet =
     (case addrs_in hr subnet of [] \<Rightarrow> ZeroAddr | a # as \<Rightarrow> a)"
  by (simp add: getAllocatedHostRecordAddrInSubnet_def addrs_in_def v4.first_spec v6.first_spec)

lemma addrs_in_subnet:
  "a \<in> set (addrs_in hr subnet) \<Longrightarrow> PrefixContains subnet a \<and> IsValid a"
  by (auto simp: addrs_in_def map_filter_def split: if_splits dest: entry_addr_SomeD)

lemma release_None_spec: "release_from_record hr subnet = None \<longleftrightarrow> addrs_in hr subnet = []"
  by (simp add: release_from_record_def addrs_in_def v4.remove_None_spec v6.remove_None_spec)

lemma release_spec:
  "release_from_record hr subnet = Some hr1 \<Longrightarrow> addrs_in hr1 subnet = tl (addrs_in hr subnet)"
  by (auto simp: release_from_record_def addrs_in_def split: if_splits
      dest: v4.remove_spec v6.remove_spec)

lemma release_spec_other:
  assumes "release_from_record hr subnet = Some hr1"
    and "\<forall>a. PrefixContains subnet a \<longrightarrow> \<not> PrefixContains other a"
  shows "addrs_in hr1 other = addrs_in hr other"
  using assms(1) v4.remove_spec_other [OF _ assms(2)] v6.remove_spec_other [OF _ assms(2)]
  by (auto simp: release_from_record_def addrs_in_def split: if_splits)

lemma release_addrs_subset:
  "release_from_record hr subnet = Some hr1 \<Longrightarrow> set (addrs_in hr1 q) \<subseteq> set (addrs_in hr q)"
  by (auto simp: release_from_record_def addrs_in_def map_filter_def split: if_splits
      dest!: v4.remove_SomeD v6.remove_SomeD)

text \<open>All entries of a record, as the texts of their addresses.\<close>

definition record_texts :: "HostRecord \<Rightarrow> string option list" where
  "record_texts hr =
     map Ipv4Addr (elems (hr_Ipv4Addrs hr)) @ map Ipv6Addr (elems (hr_Ipv6Addrs hr))"

lemma release_one_entry:
  assumes "release_from_record hr subnet = Some hr1"
  shows "\<exists>pre t post. record_texts hr = pre @ t # post \<and> record_texts hr1 = pre @ post \<and>
           entry_addr subnet t = Some (getAllocatedHostRecordAddrInSubnet hr subnet)"
proof (cases "Is4 (PrefixAddr subnet)")
  case True
  with assms obtain ips where r: "remove_v4 subnet (elems (hr_Ipv4Addrs hr)) = Some ips"
    and hr1: "hr1 = hr\<lparr>hr_Ipv4Addrs := Some ips\<rparr>"
    by (auto simp: release_from_record_def)
  from v4.remove_SomeD [OF r] obtain pre x post
    where x: "elems (hr_Ipv4Addrs hr) = pre @ x # post" "ips = pre @ post"
      "entry_addr subnet (Ipv4Addr x) = Some (first_v4 subnet (elems (hr_Ipv4Addrs hr)))"
    by blast
  with True hr1 show ?thesis
    by (intro exI [of _ "map Ipv4Addr pre"] exI [of _ "Ipv4Addr x"]
        exI [of _ "map Ipv4Addr post @ map Ipv6Addr (elems (hr_Ipv6Addrs hr))"])
      (simp add: record_texts_def getAllocatedHostRecordAddrInSubnet_def)
next
  case False
  with assms obtain ips where r: "remove_v6 subnet (elems (hr_Ipv6Addrs hr)) = Some ips"
    and hr1: "hr1 = hr\<lparr>hr_Ipv6Addrs := Some ips\<rparr>"
    by (auto simp: release_from_record_def)
  from v6.remove_SomeD [OF r] obtain pre x post
    where x: "elems (hr_Ipv6Addrs hr) = pre @ x # post" "ips = pre @ post"
      "entry_addr subnet (Ipv6Addr x) = Some (first_v6 subnet (elems (hr_Ipv6Addrs hr)))"
    by blast
  with False hr1 show ?thesis
    by (intro exI [of _ "map Ipv4Addr (elems (hr_Ipv4Addrs hr)) @ map Ipv6Addr pre"]
        exI [of _ "Ipv6Addr x"] exI [of _ "map Ipv6Addr post"])
      (simp add: record_texts_def getAllocatedHostRecordAddrInSubnet_def)
qed

lemma release_keeps_rest:
  "release_from_record hr subnet = Some hr1 \<Longrightarrow>
     hr_Ref hr1 = hr_Ref hr \<and> hr_Name hr1 = hr_Name hr \<and> hr_View hr1 = hr_View hr \<and>
     hr_EnableDns hr1 = hr_EnableDns hr"
  by (auto simp: release_from_record_def split: if_splits)

subsection \<open>Preparing an update\<close>

text \<open>What the appliance accepts in an update.\<close>

definition prepared :: "HostRecord \<Rightarrow> bool" where
  "prepared hr \<longleftrightarrow>
     hr_Zone hr = [] \<and> hr_NetworkView hr = [] \<and>
     hr_Ipv4Addrs hr \<noteq> None \<and> hr_Ipv6Addrs hr \<noteq> None \<and>
     (\<forall>a \<in> set (elems (hr_Ipv4Addrs hr)). v4_Host a = []) \<and>
     (\<forall>a \<in> set (elems (hr_Ipv6Addrs hr)). v6_Host a = [])"

lemma prepare_prepared [simp]: "prepared (prepareHostRecordForUpdate hr)"
  by (auto simp: prepared_def prepareHostRecordForUpdate_def)

lemma prepare_keeps [simp]:
  "hr_Ref (prepareHostRecordForUpdate hr) = hr_Ref hr"
  "hr_Name (prepareHostRecordForUpdate hr) = hr_Name hr"
  "hr_View (prepareHostRecordForUpdate hr) = hr_View hr"
  "hr_EnableDns (prepareHostRecordForUpdate hr) = hr_EnableDns hr"
  "record_texts (prepareHostRecordForUpdate hr) = record_texts hr"
  by (simp_all add: prepareHostRecordForUpdate_def record_texts_def comp_def)

lemma prepare_idempotent:
  "prepareHostRecordForUpdate (prepareHostRecordForUpdate hr) = prepareHostRecordForUpdate hr"
  by (simp add: prepareHostRecordForUpdate_def comp_def)

subsection \<open>The host record of a hostname\<close>

lemma getOrNew_found [conn_simps]:
  "con_List con (record_query nv h) s = (Inr [hr], s1) \<Longrightarrow>
     getOrNewHostRecord con nv dv z h s = (Inr hr, s1)"
  by (simp add: getOrNewHostRecord_def)

lemma getOrNew_not_found [conn_simps]:
  "con_List con (record_query nv h) s = (Inl (NotFoundError m), s1) \<Longrightarrow>
     getOrNewHostRecord con nv dv z h s = (Inr (new_host_record con nv dv z h), s1)"
  by (simp add: getOrNewHostRecord_def)

lemma getOrNew_failed [conn_simps]:
  "con_List con (record_query nv h) s = (Inl (IBError m), s1) \<Longrightarrow>
     getOrNewHostRecord con nv dv z h s = (Inl (the (tryParseWapiError (Some (IBError m)))), s1)"
  by (simp add: getOrNewHostRecord_def)

lemma getOrNew_ambiguous [conn_simps]:
  "con_List con (record_query nv h) s = (Inr rs, s1) \<Longrightarrow> length rs \<noteq> 1 \<Longrightarrow>
     \<exists>e. getOrNewHostRecord con nv dv z h s = (Inl e, s1)"
  by (cases rs; cases "tl rs") (auto simp: getOrNewHostRecord_def)

text \<open>A record that the code prepares for creation has no reference and no addresses.\<close>

definition empty_record_ok :: "'s connector_ops \<Rightarrow> bool" where
  "empty_record_ok con \<longleftrightarrow>
     hr_Ref (con_EmptyHostRecord con) = [] \<and>
     hr_Ipv4Addrs (con_EmptyHostRecord con) = None \<and> hr_Ipv6Addrs (con_EmptyHostRecord con) = None"

lemma new_host_record_fields:
  "hr_Name (new_host_record con nv dv z h) = Some h"
  "hr_NetworkView (new_host_record con nv dv z h) = nv"
  "hr_EnableDns (new_host_record con nv dv z h) = Some (z \<noteq> [])"
  "hr_Ref (new_host_record con nv dv z h) = hr_Ref (con_EmptyHostRecord con)"
  "hr_Ipv4Addrs (new_host_record con nv dv z h) = hr_Ipv4Addrs (con_EmptyHostRecord con)"
  "hr_Ipv6Addrs (new_host_record con nv dv z h) = hr_Ipv6Addrs (con_EmptyHostRecord con)"
  by (simp_all add: new_host_record_def Let_def)

lemma new_record_unallocated:
  "empty_record_ok con \<Longrightarrow>
     getAllocatedHostRecordAddrInSubnet (new_host_record con nv dv z h) subnet = ZeroAddr"
  by (simp add: empty_record_ok_def getAllocatedHostRecordAddrInSubnet_def new_host_record_fields)

lemma request_address_fields [simp]:
  "hr_Ref (request_address con nv subnet hr) = hr_Ref hr"
  "hr_Name (request_address con nv subnet hr) = hr_Name hr"
  "hr_NetworkView (request_address con nv subnet hr) = hr_NetworkView hr"
  "hr_EnableDns (request_address con nv subnet hr) = hr_EnableDns hr"
  "hr_View (request_address con nv subnet hr) = hr_View hr"
  by (simp_all add: request_address_def)

subsection \<open>The result of allocation\<close>

lemma GetOrAllocate_in_subnet:
  assumes "GetOrAllocateAddress con nv dv subnet h z s = (Inr a, s')"
  shows "PrefixContains subnet a \<and> IsValid a \<and> \<not> hasZone a"
proof -
  have "PrefixContains subnet a \<and> IsValid a"
    using assms allocated_in_subnet
    by (auto simp: GetOrAllocateAddress_def Let_def split: prod.splits sum.splits option.splits
        if_splits)
  then show ?thesis using PrefixContains_same_kind by blast
qed

lemma allocate_found:
  assumes "con_List con (record_query nv h) s = (Inr [hr], s1)"
    and "addrs_in hr subnet = a # as"
  shows "GetOrAllocateAddress con nv dv subnet h z s = (Inr a, s1)"
proof -
  have "IsValid a" using addrs_in_subnet [of a hr subnet] assms(2) by simp
  with assms show ?thesis
    by (simp add: GetOrAllocateAddress_def getOrNew_found allocated_spec)
qed

subsection \<open>A connector for closed examples\<close>

text \<open>
  An appliance that holds at most one host record and answers a request for the next
  available address of any subnet with a fixed address of either family, when it is read.
\<close>

definition example_assign :: "HostRecord \<Rightarrow> HostRecord" where
  "example_assign hr =
     hr\<lparr>hr_Ipv4Addrs := map_option (map (\<lambda>a. if HasPrefix (case Ipv4Addr a of None \<Rightarrow> [] | Some t \<Rightarrow> t) ''func:''
                          then a\<lparr>Ipv4Addr := Some ''10.0.0.2''\<rparr> else a)) (hr_Ipv4Addrs hr),
        hr_Ipv6Addrs := map_option (map (\<lambda>a. if HasPrefix (case Ipv6Addr a of None \<Rightarrow> [] | Some t \<Rightarrow> t) ''func:''
                          then a\<lparr>Ipv6Addr := Some ''2001:db8::2''\<rparr> else a)) (hr_Ipv6Addrs hr)\<rparr>"

definition example_con :: "HostRecord option connector_ops" where
  "example_con =
     \<lparr>con_List = (\<lambda>q s. (case s of
          None \<Rightarrow> Inl (NotFoundError ''not found'')
        | Some hr \<Rightarrow> if map_of q ''name'' = hr_Name hr \<and> hr_Ref hr \<noteq> [] then Inr [example_assign hr] else Inl (NotFoundError ''not found''), s)),
      con_Get = (\<lambda>hr ref q s. (case s of
          None \<Rightarrow> (Some (NotFoundError ''not found''), hr) | Some hr1 \<Rightarrow> (None, example_assign hr1), s)),
      con_Create = (\<lambda>hr s. (Inr ''record:host/1'', Some (hr\<lparr>hr_Ref := ''record:host/1''\<rparr>))),
      con_Update = (\<lambda>hr ref s. (Inr ref, Some hr)),
      con_Delete = (\<lambda>ref s. (Inr ref, None)),
      con_EmptyHostRecord = \<lparr>hr_Ref = [], hr_Name = None, hr_NetworkView = [], hr_View = None,
        hr_Zone = [], hr_EnableDns = None, hr_Ipv4Addrs = None, hr_Ipv6Addrs = None\<rparr>,
      con_NewIpv4Addr = (\<lambda>a m e r. \<lparr>Ipv4Addr = Some a, v4_Host = [], v4_Mac = m, v4_EnableDhcp = e, v4_Ref = r\<rparr>),
      con_NewIpv6Addr = (\<lambda>a d e r. \<lparr>Ipv6Addr = Some a, v6_Host = [], v6_Duid = d, v6_EnableDhcp = e, v6_Ref = r\<rparr>)\<rparr>"

definition example_subnet :: prefix where
  "example_subnet = Prefix (V4 0x0A000000) 24"

definition example_record :: HostRecord where
  "example_record =
     \<lparr>hr_Ref = ''record:host/1'', hr_Name = Some ''m1'', hr_NetworkView = [], hr_View = None,
      hr_Zone = [], hr_EnableDns = Some False,
      hr_Ipv4Addrs = Some [\<lparr>Ipv4Addr = Some ''10.0.0.2'', v4_Host = [], v4_Mac = [], v4_EnableDhcp = False, v4_Ref = []\<rparr>],
      hr_Ipv6Addrs = None\<rparr>"

end
