(* ===== verification/ClientInterface.thy ===== *)
theory ClientInterface
  imports AddressFacts
begin

text \<open>
  The interface \<open>Client\<close> of \<open>pkg/infoblox/client.go\<close>, as the controllers see it, and its one
  implementation by the struct \<open>client\<close>.
\<close>

record 's ib_client =
  cl_GetOrAllocateAddress ::
    "string \<Rightarrow> string \<Rightarrow> prefix \<Rightarrow> string \<Rightarrow> string \<Rightarrow> 's \<Rightarrow> (error + addr) \<times> 's"
  cl_ReleaseAddress :: "string \<Rightarrow> string \<Rightarrow> prefix \<Rightarrow> string \<Rightarrow> 's \<Rightarrow> error option \<times> 's"
  cl_CheckNetworkViewExists :: "string \<Rightarrow> error + bool"
  cl_CheckDNSViewExists :: "string \<Rightarrow> error + bool"
  cl_CheckNetworkExists :: "string \<Rightarrow> prefix \<Rightarrow> error + bool"
  cl_GetHostConfig :: HostConfig

definition infoblox_Client :: "('s connector_ops, obj_mgr) client \<Rightarrow> 's ib_client" where
  "infoblox_Client c =
     \<lparr>cl_GetOrAllocateAddress = GetOrAllocateAddress (connector c),
      cl_ReleaseAddress = ReleaseAddress (connector c),
      cl_CheckNetworkViewExists = CheckNetworkViewExists (objMgr c),
      cl_CheckDNSViewExists = CheckDNSViewExists (objMgr c),
      cl_CheckNetworkExists = CheckNetworkExists (objMgr c),
      cl_GetHostConfig = GetHostConfig c\<rparr>"

text \<open>\<open>NewClient\<close> as the controllers call it: through a function that returns the interface.\<close>

definition new_infoblox_Client ::
  "('s connector_ops, obj_mgr) ib_lib \<Rightarrow> Config \<Rightarrow> error + 's ib_client" where
  "new_infoblox_Client ib config =
     (case NewClient ib config of Inl err \<Rightarrow> Inl err | Inr c \<Rightarrow> Inr (infoblox_Client c))"

text \<open>
  What the controllers rely on: an address that is returned lies in the subnet that was
  asked for, and releasing does not panic.
\<close>

locale infoblox_client =
  fixes cl :: "'s ib_client"
  assumes allocates_in_subnet:
      "cl_GetOrAllocateAddress cl nv dv subnet h z s = (Inr a, s') \<Longrightarrow>
         PrefixContains subnet a \<and> IsValid a \<and> \<not> hasZone a"
    and release_no_panic: "cl_ReleaseAddress cl nv dv subnet h s \<noteq> (Some (Panic msg), s')"
begin

lemma allocated_text:
  assumes "cl_GetOrAllocateAddress cl nv dv subnet h z s = (Inr a, s')"
  shows "ParseAddr (AddrString a) = Some a"
  using allocates_in_subnet [OF assms] by (simp add: ParseAddr_AddrString IsValid_def)

lemma allocated_family:
  assumes "cl_GetOrAllocateAddress cl nv dv subnet h z s = (Inr a, s')"
  shows "Is4 a = Is4 (PrefixAddr subnet) \<and> Is6 a = Is6 (PrefixAddr subnet)"
  using allocates_in_subnet [OF assms] PrefixContains_same_kind by blast

end

lemma tryParseWapiError_no_panic: "tryParseWapiError e \<noteq> Some (Panic msg)"
  by (auto simp: tryParseWapiError_def split: option.splits prod.splits)

lemma the_tryParseWapiError_no_panic: "the (tryParseWapiError (Some e)) \<noteq> Panic msg"
  by (metis tryParseWapiError_no_panic tryParseWapiError_None_iff option.collapse option.distinct(1))

lemma ReleaseAddress_no_panic: "ReleaseAddress con nv dv subnet h s \<noteq> (Some (Panic msg), s')"
  using the_tryParseWapiError_no_panic
  by (auto simp: ReleaseAddress_def getOrNewHostRecord_def Let_def
      split: prod.splits sum.splits option.splits ib_error.splits list.splits if_splits)

interpretation client: infoblox_client "infoblox_Client c" for c
  by unfold_locales
    (auto simp: infoblox_Client_def ReleaseAddress_no_panic dest: GetOrAllocate_in_subnet)

end
