(* ===== verification/Startup.thy ===== *)
theory Startup
  imports PoolIndex Predicates ClientInterface
begin

text \<open>
  \<open>main.go\<close> and \<open>version/version.go\<close>: the start of the provider. The flag parser and the manager of
  controller-runtime are parameters; the state \<open>'s\<close> is that of the manager and the process. What a
  library does to end the process is the status it ends it with.
\<close>

subsection \<open>The scheme\<close>

text \<open>\<open>init\<close>: the API groups that are registered, in order, the in-cluster one twice. A failure panics.\<close>

definition scheme_groups :: "string list" where
  "scheme_groups =
     [''clientgoscheme'', ''ipamv1'', ''clusterv1'', ''inclusterv1a2'', ''inclusterv1a2'', ''v1alpha1'']"

fun must_all :: "(string \<Rightarrow> 's \<Rightarrow> error option \<times> 's) \<Rightarrow> string list \<Rightarrow> 's \<Rightarrow> string option \<times> 's" where
  "must_all AddToScheme [] s = (None, s)"
| "must_all AddToScheme (g # gs) s =
     (case AddToScheme g s of
        (Some err, s1) \<Rightarrow> (Some g, s1)
      | (None, s1) \<Rightarrow> must_all AddToScheme gs s1)"

definition main_init :: "(string \<Rightarrow> 's \<Rightarrow> error option \<times> 's) \<Rightarrow> 's \<Rightarrow> string option \<times> 's" where
  "main_init AddToScheme s = must_all AddToScheme scheme_groups s"

subsection \<open>Options\<close>

text \<open>The variables behind the flags, and what they are before the command line is parsed.\<close>

record flag_values =
  probeAddr :: string
  enableLeaderElection :: bool
  watchNamespace :: string
  watchFilter :: string
  webhookPort :: int
  webhookCertDir :: string
  webhookCertName :: string
  webhookKeyName :: string

definition flag_defaults :: "int \<Rightarrow> flag_values" where
  "flag_defaults DefaultPort =
     \<lparr>probeAddr = '':8081'', enableLeaderElection = False, watchNamespace = [], watchFilter = [],
      webhookPort = DefaultPort, webhookCertDir = [], webhookCertName = [], webhookKeyName = []\<rparr>"

text \<open>The flags themselves: each with the type of its values and the variable that it sets.\<close>

datatype flag_target =
    StringVar "string \<Rightarrow> flag_values \<Rightarrow> flag_values"
  | BoolVar "bool \<Rightarrow> flag_values \<Rightarrow> flag_values"
  | IntVar "int \<Rightarrow> flag_values \<Rightarrow> flag_values"

definition main_flags :: "(string \<times> flag_target) list" where
  "main_flags =
     [(''health-probe-bind-address'', StringVar (\<lambda>v fl. fl\<lparr>probeAddr := v\<rparr>)),
      (''leader-elect'', BoolVar (\<lambda>v fl. fl\<lparr>enableLeaderElection := v\<rparr>)),
      (''namespace'', StringVar (\<lambda>v fl. fl\<lparr>watchNamespace := v\<rparr>)),
      (''watch-filter'', StringVar (\<lambda>v fl. fl\<lparr>watchFilter := v\<rparr>)),
      (''webhook-port'', IntVar (\<lambda>v fl. fl\<lparr>webhookPort := v\<rparr>)),
      (''webhook-cert-dir'', StringVar (\<lambda>v fl. fl\<lparr>webhookCertDir := v\<rparr>)),
      (''webhook-cert-name'', StringVar (\<lambda>v fl. fl\<lparr>webhookCertName := v\<rparr>)),
      (''webhook-key-name'', StringVar (\<lambda>v fl. fl\<lparr>webhookKeyName := v\<rparr>))]"

record 'tls webhook_options =
  wo_Port :: int
  wo_CertDir :: string
  wo_CertName :: string
  wo_KeyName :: string
  wo_TLSOpts :: 'tls

record ('tls, 'metrics) manager_options =
  mo_Metrics :: 'metrics
  mo_WebhookServer :: "'tls webhook_options"
  mo_HealthProbeBindAddress :: string
  mo_LeaderElection :: bool
  mo_LeaderElectionID :: string
  mo_CacheNamespaces :: "string list option"

definition main_options :: "flag_values \<Rightarrow> 'tls \<Rightarrow> 'metrics \<Rightarrow> ('tls, 'metrics) manager_options" where
  "main_options fl tlsOpts metricsOpts =
     \<lparr>mo_Metrics = metricsOpts,
      mo_WebhookServer = \<lparr>wo_Port = webhookPort fl, wo_CertDir = webhookCertDir fl,
        wo_CertName = webhookCertName fl, wo_KeyName = webhookKeyName fl, wo_TLSOpts = tlsOpts\<rparr>,
      mo_HealthProbeBindAddress = probeAddr fl,
      mo_LeaderElection = enableLeaderElection fl,
      mo_LeaderElectionID = ''7bb7acb4.ipam.cluster.x-k8s.io'',
      mo_CacheNamespaces = (if watchNamespace fl \<noteq> [] then Some [watchNamespace fl] else None)\<rparr>"

subsection \<open>Setting up the controllers\<close>

text \<open>
  \<open>Complete\<close> of the builders of the manager: for a controller the kind it reconciles, for a
  webhook the kind and whether it has a defaulter and a validator.
\<close>

record ('s, 'c, 'tls, 'metrics) main_ops =
  op_AddManagerOptions :: "'s \<Rightarrow> 's"
  op_BindZapFlags :: "bool \<Rightarrow> 's \<Rightarrow> 's"
  op_Parse :: "(string \<times> flag_target) list \<Rightarrow> flag_values \<Rightarrow> 's \<Rightarrow> (int + flag_values) \<times> 's"
  op_GetManagerOptions :: "'s \<Rightarrow> (error + 'tls \<times> 'metrics) \<times> 's"
  op_SetOutputDiscard :: "'s \<Rightarrow> 's"
  op_SetLogger :: "'s \<Rightarrow> 's"
  op_SetupSignalHandler :: "'s \<Rightarrow> 's"
  op_GetConfigOrDie :: "'s \<Rightarrow> (int + unit) \<times> 's"
  op_NewManager :: "('tls, 'metrics) manager_options \<Rightarrow> 's \<Rightarrow> error option \<times> 's"
  op_IndexField :: "'s index_field"
  op_SetupClaimReconciler ::
    "string \<Rightarrow> (Config \<Rightarrow> error + 'c) \<Rightarrow> string \<Rightarrow> builder \<Rightarrow> 's \<Rightarrow> error option \<times> 's"
  op_Complete :: "string \<Rightarrow> (Config \<Rightarrow> error + 'c) \<Rightarrow> string \<Rightarrow> 's \<Rightarrow> error option \<times> 's"
  op_CompleteWebhook :: "string \<Rightarrow> bool \<Rightarrow> bool \<Rightarrow> 's \<Rightarrow> error option \<times> 's"
  op_AddHealthzCheck :: "string \<Rightarrow> 's \<Rightarrow> error option \<times> 's"
  op_AddReadyzCheck :: "string \<Rightarrow> 's \<Rightarrow> error option \<times> 's"
  op_Start :: "'s \<Rightarrow> error option \<times> 's"

definition Instance_SetupWithManager ::
  "('s, 'c, 'tls, 'metrics) main_ops \<Rightarrow> (Config \<Rightarrow> error + 'c) \<Rightarrow> string \<Rightarrow> 's \<Rightarrow> error option \<times> 's" where
  "Instance_SetupWithManager ops newClient ns s = op_Complete ops ''InfobloxInstance'' newClient ns s"

definition Pool_SetupWithManager ::
  "('s, 'c, 'tls, 'metrics) main_ops \<Rightarrow> (Config \<Rightarrow> error + 'c) \<Rightarrow> string \<Rightarrow> 's \<Rightarrow> error option \<times> 's" where
  "Pool_SetupWithManager ops newClient ns s = op_Complete ops ''InfobloxIPPool'' newClient ns s"

definition SetupWebhookWithManager ::
  "('s, 'c, 'tls, 'metrics) main_ops \<Rightarrow> 's \<Rightarrow> error option \<times> 's" where
  "SetupWebhookWithManager ops s = op_CompleteWebhook ops ''InfobloxIPPool'' True True s"

subsection \<open>main\<close>

text \<open>
  How \<open>main\<close> ends: the flag parser or the lookup of the cluster's configuration ends the process,
  a step fails, which is logged before the process exits with status 1, or \<open>main\<close> returns.
\<close>

datatype main_exit = FlagsExit int | ConfigExit int | FailedStep string | Returned

fun exit_status :: "main_exit \<Rightarrow> int" where
  "exit_status (FlagsExit n) = n"
| "exit_status (ConfigExit n) = n"
| "exit_status (FailedStep msg) = 1"
| "exit_status Returned = 0"

fun run_steps :: "(string \<times> ('s \<Rightarrow> error option \<times> 's)) list \<Rightarrow> 's \<Rightarrow> main_exit \<times> 's" where
  "run_steps [] s = (Returned, s)"
| "run_steps ((msg, step) # steps) s =
     (case step s of
        (Some err, s1) \<Rightarrow> (FailedStep msg, s1)
      | (None, s1) \<Rightarrow> run_steps steps s1)"

definition main_steps ::
  "('s, 'c, 'tls, 'metrics) main_ops \<Rightarrow> (Config \<Rightarrow> error + 'c) \<Rightarrow> flag_values \<Rightarrow> string \<Rightarrow>
     ('tls, 'metrics) manager_options \<Rightarrow> (string \<times> ('s \<Rightarrow> error option \<times> 's)) list" where
  "main_steps ops newClient fl podNamespace opts =
     [(''unable to start manager'', op_NewManager ops opts),
      (''failed to setup indexes'',
         \<lambda>s. map_prod (map_option OfKube) id (SetupIndexes (op_IndexField ops) s)),
      (''unable to create controller IPAddressClaim'',
         op_SetupClaimReconciler ops (watchFilter fl) newClient podNamespace Provider_SetupWithManager),
      (''unable to create controller InfobloxInstance'', Instance_SetupWithManager ops newClient podNamespace),
      (''unable to create controller InfobloxIPPool'', Pool_SetupWithManager ops newClient podNamespace),
      (''unable to create webhook InfobloxIPPool'', SetupWebhookWithManager ops),
      (''unable to set up health check'', op_AddHealthzCheck ops ''healthz''),
      (''unable to set up ready check'', op_AddReadyzCheck ops ''readyz''),
      (''problem running manager'', op_Start ops)]"

text \<open>Up to the options of the manager: flags, TLS and metrics options, logs and signals.\<close>

definition main_prepare ::
  "('s, 'c, 'tls, 'metrics) main_ops \<Rightarrow> int \<Rightarrow> 's \<Rightarrow>
     (main_exit + flag_values \<times> ('tls, 'metrics) manager_options) \<times> 's" where
  "main_prepare ops DefaultPort s =
     (case op_Parse ops main_flags (flag_defaults DefaultPort)
             (op_BindZapFlags ops True (op_AddManagerOptions ops s)) of
        (Inl status, s1) \<Rightarrow> (Inl (FlagsExit status), s1)
      | (Inr fl, s1) \<Rightarrow>
          (case op_GetManagerOptions ops s1 of
             (Inl err, s2) \<Rightarrow> (Inl (FailedStep ''unable to get manager options''), s2)
           | (Inr (tlsOpts, metricsOpts), s2) \<Rightarrow>
               (case op_GetConfigOrDie ops
                       (op_SetupSignalHandler ops (op_SetLogger ops (op_SetOutputDiscard ops s2))) of
                  (Inl status, s3) \<Rightarrow> (Inl (ConfigExit status), s3)
                | (Inr u, s3) \<Rightarrow> (Inr (fl, main_options fl tlsOpts metricsOpts), s3))))"

definition main ::
  "('s, 'c, 'tls, 'metrics) main_ops \<Rightarrow> (Config \<Rightarrow> error + 'c) \<Rightarrow> int \<Rightarrow> string \<Rightarrow> 's \<Rightarrow> main_exit \<times> 's" where
  "main ops newClient DefaultPort NAMESPACE s =
     (case main_prepare ops DefaultPort s of
        (Inl e, s1) \<Rightarrow> (e, s1)
      | (Inr (fl, opts), s1) \<Rightarrow> run_steps (main_steps ops newClient fl NAMESPACE opts) s1)"

subsection \<open>The version\<close>

record build_info =
  bi_gitMajor :: string
  bi_gitMinor :: string
  bi_gitVersion :: string
  bi_gitCommit :: string
  bi_gitTreeState :: string
  bi_buildDate :: string

record Info =
  Major :: string
  Minor :: string
  GitVersion :: string
  GitCommit :: string
  GitTreeState :: string
  BuildDate :: string
  GoVersion :: string
  Compiler :: string
  Platform :: string

definition version_Get :: "build_info \<Rightarrow> string \<Rightarrow> string \<Rightarrow> string \<Rightarrow> string \<Rightarrow> Info" where
  "version_Get b runtimeVersion runtimeCompiler GOOS GOARCH =
     \<lparr>Major = bi_gitMajor b, Minor = bi_gitMinor b, GitVersion = bi_gitVersion b, GitCommit = bi_gitCommit b,
      GitTreeState = bi_gitTreeState b, BuildDate = bi_buildDate b, GoVersion = runtimeVersion,
      Compiler = runtimeCompiler, Platform = GOOS @ ''/'' @ GOARCH\<rparr>"

definition Info_String :: "Info \<Rightarrow> string" where
  "Info_String info = GitVersion info"

subsection \<open>Properties\<close>

text \<open>
  An environment that keeps the list of the calls that \<open>main\<close> makes, and in which the calls fail that
  \<open>fails\<close> names: the flag parser ends the process with status 2, the lookup of the configuration
  with status 1, all others return an error.
\<close>

datatype main_call =
    CallParse
  | CallManagerOptions
  | CallConfig
  | CallNewManager
  | CallIndexField string string
  | CallClaimReconciler string string
  | CallController string string
  | CallWebhook string bool bool
  | CallHealthz string
  | CallReadyz string
  | CallStart

definition logged :: "(main_call \<Rightarrow> error option) \<Rightarrow> main_call \<Rightarrow> main_call list \<Rightarrow> error option \<times> main_call list" where
  "logged fails c calls = (fails c, calls @ [c])"

definition traced_ops :: "(main_call \<Rightarrow> error option) \<Rightarrow> (main_call list, 'c, unit, unit) main_ops" where
  "traced_ops fails =
     \<lparr>op_AddManagerOptions = id, op_BindZapFlags = (\<lambda>dev. id),
      op_Parse = (\<lambda>flags fl s. (if fails CallParse = None then Inr fl else Inl 2, s @ [CallParse])),
      op_GetManagerOptions = (\<lambda>s. (case fails CallManagerOptions of None \<Rightarrow> Inr ((), ()) | Some e \<Rightarrow> Inl e,
        s @ [CallManagerOptions])),
      op_SetOutputDiscard = id, op_SetLogger = id, op_SetupSignalHandler = id,
      op_GetConfigOrDie = (\<lambda>s. (if fails CallConfig = None then Inr () else Inl 1, s @ [CallConfig])),
      op_NewManager = (\<lambda>opts. logged fails CallNewManager),
      op_IndexField = (\<lambda>kind field f. map_prod (map_option (\<lambda>e. KubeError [])) id \<circ> logged fails (CallIndexField kind field)),
      op_SetupClaimReconciler = (\<lambda>filter new ns b. logged fails (CallClaimReconciler filter ns)),
      op_Complete = (\<lambda>kind new ns. logged fails (CallController kind ns)),
      op_CompleteWebhook = (\<lambda>kind d v. logged fails (CallWebhook kind d v)),
      op_AddHealthzCheck = (\<lambda>n. logged fails (CallHealthz n)), op_AddReadyzCheck = (\<lambda>n. logged fails (CallReadyz n)),
      op_Start = logged fails CallStart\<rparr>"

text \<open>A plan: the calls in order, each with how the process ends if it fails.\<close>

fun follow ::
  "(main_call \<Rightarrow> error option) \<Rightarrow> (main_call \<times> main_exit) list \<Rightarrow> main_call list \<Rightarrow> main_exit \<times> main_call list" where
  "follow fails [] calls = (Returned, calls)"
| "follow fails ((c, x) # plan) calls =
     (if fails c = None then follow fails plan (calls @ [c]) else (x, calls @ [c]))"

lemma run_logged:
  "run_steps ((msg, logged fails c) # steps) calls =
     (if fails c = None then run_steps steps (calls @ [c]) else (FailedStep msg, calls @ [c]))"
  by (auto simp: logged_def)

lemma run_indexes:
  "run_steps ((msg, \<lambda>s. map_prod (map_option OfKube) id (SetupIndexes (op_IndexField (traced_ops fails)) s)) # steps) calls =
     (let c1 = CallIndexField ''IPAddress'' ''index.poolRef''; c2 = CallIndexField ''IPAddressClaim'' ''index.poolRef''
      in if fails c1 = None
         then if fails c2 = None then run_steps steps ((calls @ [c1]) @ [c2]) else (FailedStep msg, (calls @ [c1]) @ [c2])
         else (FailedStep msg, calls @ [c1]))"
  by (auto simp: SetupIndexes_def traced_ops_def logged_def Let_def IPAddressPoolRefCombinedField_def
      IPAddressClaimPoolRefCombinedField_def)

lemma traced_prepare:
  "main (traced_ops fails) newClient port ns [] =
     (if fails CallParse = None
      then if fails CallManagerOptions = None
        then if fails CallConfig = None
          then run_steps (main_steps (traced_ops fails) newClient (flag_defaults port) ns (main_options (flag_defaults port) () ()))
             [CallParse, CallManagerOptions, CallConfig]
          else (ConfigExit 1, [CallParse, CallManagerOptions, CallConfig])
        else (FailedStep ''unable to get manager options'', [CallParse, CallManagerOptions])
      else (FlagsExit 2, [CallParse]))"
  by (auto simp: main_def main_prepare_def traced_ops_def)

lemma traced_steps:
  "main_steps (traced_ops fails) (newClient :: Config \<Rightarrow> error + 'c) (flag_defaults port) ns opts =
     [(''unable to start manager'', logged fails CallNewManager),
      (''failed to setup indexes'',
         \<lambda>s. map_prod (map_option OfKube) id (SetupIndexes (op_IndexField (traced_ops fails :: (main_call list, 'c, unit, unit) main_ops)) s)),
      (''unable to create controller IPAddressClaim'', logged fails (CallClaimReconciler [] ns)),
      (''unable to create controller InfobloxInstance'', logged fails (CallController ''InfobloxInstance'' ns)),
      (''unable to create controller InfobloxIPPool'', logged fails (CallController ''InfobloxIPPool'' ns)),
      (''unable to create webhook InfobloxIPPool'', logged fails (CallWebhook ''InfobloxIPPool'' True True)),
      (''unable to set up health check'', logged fails (CallHealthz ''healthz'')),
      (''unable to set up ready check'', logged fails (CallReadyz ''readyz'')),
      (''problem running manager'', logged fails CallStart)]"
  by (simp add: main_steps_def Instance_SetupWithManager_def Pool_SetupWithManager_def SetupWebhookWithManager_def
      traced_ops_def flag_defaults_def fun_eq_iff)

text \<open>C38: The provider starts serving only when it is set up completely. \<open>main\<close> returns exactly if
each of these calls succeeds, in this order, with the state that the one before left: parse the
flags, get the options, get the cluster's configuration, create the manager, set up the indexes,
the claim reconciler, the instance and the pool controller, the webhook with defaulter and
validator, the health and the ready check, and start the manager. And whichever calls fail,
\<open>main\<close> makes these calls up to the first that fails and no other, so it never starts the
manager before all is set up; it then ends with the message that belongs to that call.\<close>

theorem main_in_order:
  "(main ops newClient port ns s = (Returned, s') \<longleftrightarrow>
     (\<exists>fl tls metrics s1 s2 s3 s4 s5 s6 s7 s8 s9 s10 s11.
        op_Parse ops main_flags (flag_defaults port) (op_BindZapFlags ops True (op_AddManagerOptions ops s)) = (Inr fl, s1) \<and>
        op_GetManagerOptions ops s1 = (Inr (tls, metrics), s2) \<and>
        op_GetConfigOrDie ops (op_SetupSignalHandler ops (op_SetLogger ops (op_SetOutputDiscard ops s2))) = (Inr (), s3) \<and>
        op_NewManager ops (main_options fl tls metrics) s3 = (None, s4) \<and>
        SetupIndexes (op_IndexField ops) s4 = (None, s5) \<and>
        op_SetupClaimReconciler ops (watchFilter fl) newClient ns Provider_SetupWithManager s5 = (None, s6) \<and>
        op_Complete ops ''InfobloxInstance'' newClient ns s6 = (None, s7) \<and>
        op_Complete ops ''InfobloxIPPool'' newClient ns s7 = (None, s8) \<and>
        op_CompleteWebhook ops ''InfobloxIPPool'' True True s8 = (None, s9) \<and>
        op_AddHealthzCheck ops ''healthz'' s9 = (None, s10) \<and> op_AddReadyzCheck ops ''readyz'' s10 = (None, s11) \<and>
        op_Start ops s11 = (None, s'))) \<and>
   main (traced_ops fails) newClient' port ns [] =
     follow fails
       [(CallParse, FlagsExit 2), (CallManagerOptions, FailedStep ''unable to get manager options''),
        (CallConfig, ConfigExit 1), (CallNewManager, FailedStep ''unable to start manager''),
        (CallIndexField ''IPAddress'' ''index.poolRef'', FailedStep ''failed to setup indexes''),
        (CallIndexField ''IPAddressClaim'' ''index.poolRef'', FailedStep ''failed to setup indexes''),
        (CallClaimReconciler [] ns, FailedStep ''unable to create controller IPAddressClaim''),
        (CallController ''InfobloxInstance'' ns, FailedStep ''unable to create controller InfobloxInstance''),
        (CallController ''InfobloxIPPool'' ns, FailedStep ''unable to create controller InfobloxIPPool''),
        (CallWebhook ''InfobloxIPPool'' True True, FailedStep ''unable to create webhook InfobloxIPPool''),
        (CallHealthz ''healthz'', FailedStep ''unable to set up health check''),
        (CallReadyz ''readyz'', FailedStep ''unable to set up ready check''),
        (CallStart, FailedStep ''problem running manager'')] []"
proof (rule conjI, goal_cases)
  case 1
  show ?case
    by (auto simp: main_def main_prepare_def main_steps_def Instance_SetupWithManager_def Pool_SetupWithManager_def
        SetupWebhookWithManager_def map_prod_def split: prod.splits sum.splits option.splits)
next
  case 2
  show ?case
    by (simp only: traced_prepare traced_steps run_logged run_indexes run_steps.simps(1) follow.simps Let_def
        append_Cons append_Nil)
qed

text \<open>A run in which the webhook cannot be set up: the checks are not added and nothing is started.\<close>

theorem main_in_order_witness:
  "main (traced_ops (\<lambda>c. if c = CallWebhook ''InfobloxIPPool'' True True then Some (ErrorText (Text ''no'')) else None))
     (\<lambda>cfg. Inr ()) 9443 ''system'' [] =
   (FailedStep ''unable to create webhook InfobloxIPPool'',
    [CallParse, CallManagerOptions, CallConfig, CallNewManager, CallIndexField ''IPAddress'' ''index.poolRef'',
     CallIndexField ''IPAddressClaim'' ''index.poolRef'', CallClaimReconciler [] ''system'',
     CallController ''InfobloxInstance'' ''system'', CallController ''InfobloxIPPool'' ''system'',
     CallWebhook ''InfobloxIPPool'' True True])"
  unfolding main_in_order [THEN conjunct2] by simp

end
