(* ===== verification/InstanceClient.thy ===== *)
theory InstanceClient
  imports ClientInterface
begin

text \<open>
  \<open>internal/controllers/util.go\<close>: building the Infoblox client of an instance from the instance
  and its credentials secret. Reads of the API server are a parameter.
\<close>

text \<open>The data of a secret, and the reads the controllers make.\<close>

type_synonym secret_data = "string \<rightharpoonup> string"

record kube_reader =
  get_Instance :: "string \<Rightarrow> kube_error + InfobloxInstance"
  get_Secret :: "string \<Rightarrow> string \<Rightarrow> kube_error + secret_data"
  get_Pool :: "string \<Rightarrow> string \<Rightarrow> kube_error + InfobloxIPPool"

definition instance_config :: "InfobloxInstance \<Rightarrow> AuthConfig \<Rightarrow> Config" where
  "instance_config instance ac =
     \<lparr>cfg_HostConfig =
        \<lparr>hc_Host = i_Host (i_Spec instance) @ '':'' @ i_Port (i_Spec instance),
         hc_Version = i_WAPIVersion (i_Spec instance),
         hc_DisableTLSVerification = i_DisableTLSVerification (i_Spec instance),
         hc_CustomCAPath = [],
         hc_DefaultNetworkView = i_DefaultNetworkView (i_Spec instance),
         hc_DefaultDNSView = i_DefaultDNSView (i_Spec instance)\<rparr>,
      cfg_AuthConfig = ac\<rparr>"

definition getInfobloxClientForInstance ::
  "kube_reader \<Rightarrow> string \<Rightarrow> string \<Rightarrow> (Config \<Rightarrow> error + 'c) \<Rightarrow> error + 'c" where
  "getInfobloxClientForInstance rd name secretNamespace newClientFn =
     (case get_Instance rd name of
        Inl err \<Rightarrow> Inl (Wrap ''failed to fetch instance: %w'' (OfKube err))
      | Inr instance \<Rightarrow>
          (case get_Secret rd secretNamespace (i_CredentialsSecretRef (i_Spec instance)) of
             Inl err \<Rightarrow> Inl (Wrap ''failed to fetch secret: %w'' (OfKube err))
           | Inr secret \<Rightarrow>
               (case AuthConfigFromSecretData secret of
                  Inl err \<Rightarrow> Inl (Wrap ''credentials secret is invalid: %w'' err)
                | Inr ac \<Rightarrow> newClientFn (instance_config instance ac))))"

subsection \<open>Facts\<close>

text \<open>A client is obtained only with an instance, its secret and usable credentials.\<close>

lemma client_for_instance_ok:
  "getInfobloxClientForInstance rd name ns f = Inr c \<longleftrightarrow>
     (\<exists>instance secret ac. get_Instance rd name = Inr instance \<and>
        get_Secret rd ns (i_CredentialsSecretRef (i_Spec instance)) = Inr secret \<and>
        AuthConfigFromSecretData secret = Inr ac \<and> f (instance_config instance ac) = Inr c)"
  by (auto simp: getInfobloxClientForInstance_def split: sum.splits)

lemma AuthConfig_fields:
  "AuthConfigFromSecretData secret = Inr ac \<Longrightarrow>
     ac_Username ac = map_get secret ''username'' \<and> ac_Password ac = map_get secret ''password'' \<and>
     ac_ClientCert ac = map_get secret ''clientCert'' \<and> ac_ClientKey ac = map_get secret ''clientKey''"
  by (auto simp: AuthConfigFromSecretData_def Let_def secretKeyUsername_def secretKeyPassowrd_def
      secretKeyClientCert_def secretKeyClientKey_def split: if_splits)

subsection \<open>Properties\<close>

definition example_instance :: InfobloxInstance where
  "example_instance =
     \<lparr>i_Name = ''i1'',
      i_Spec = \<lparr>i_Host = ''infoblox.example'', i_Port = ''8443'', i_WAPIVersion = ''2.12'',
                i_CredentialsSecretRef = ''creds'', i_DefaultNetworkView = [], i_DefaultDNSView = [],
                i_DisableTLSVerification = False, i_CustomCAPath = ''/etc/ca.pem''\<rparr>,
      i_Conditions = []\<rparr>"

definition example_secret :: secret_data where
  "example_secret = [''username'' \<mapsto> ''admin'', ''password'' \<mapsto> ''secret'']"

lemma credentials_of_example: "\<exists>ac. AuthConfigFromSecretData example_secret = Inr ac"
  using AuthConfig_ok_iff [of example_secret]
  by (simp add: map_get_def example_secret_def split: sum.splits)

text \<open>Credentials: the data of a secret is accepted exactly if it has both a non-empty user
name and password, or both a non-empty certificate and key; and whatever of the four is
present is passed on, both pairs if both are there.\<close>

theorem credentials_accepted:
  "(is_ok (AuthConfigFromSecretData data) \<longleftrightarrow>
      (map_get data ''username'' \<noteq> [] \<and> map_get data ''password'' \<noteq> []) \<or>
      (map_get data ''clientCert'' \<noteq> [] \<and> map_get data ''clientKey'' \<noteq> [])) \<and>
   (\<forall>ac. AuthConfigFromSecretData data = Inr ac \<longrightarrow>
      ac = \<lparr>ac_Username = map_get data ''username'', ac_Password = map_get data ''password'',
            ac_ClientCert = map_get data ''clientCert'', ac_ClientKey = map_get data ''clientKey''\<rparr>)"
  using AuthConfig_ok_iff [of data] AuthConfig_fields [of data] by auto

theorem credentials_accepted_witness:
  "AuthConfigFromSecretData example_secret =
     Inr \<lparr>ac_Username = ''admin'', ac_Password = ''secret'', ac_ClientCert = [], ac_ClientKey = []\<rparr>"
proof -
  have g: "map_get example_secret ''username'' = ''admin''" "map_get example_secret ''password'' = ''secret''"
    "map_get example_secret ''clientCert'' = []" "map_get example_secret ''clientKey'' = []"
    by (simp_all add: map_get_def example_secret_def)
  then obtain ac where ac: "AuthConfigFromSecretData example_secret = Inr ac"
    using credentials_accepted [of example_secret] by (auto split: sum.splits)
  from credentials_accepted [of example_secret, THEN conjunct2, rule_format, OF ac] ac g
  show ?thesis by simp
qed

text \<open>C34: The client of a pool or claim connects where the instance says. If the client is
obtained, with \<open>NewClient\<close> as the constructor, and the host of the instance has no colon, then its connector is
the one that the library made for exactly the instance's host, port and WAPI version, with the
credentials of the instance's secret, for a transport that verifies certificates unless
the instance disables it; its object manager is on that connector, and its configuration has the
default views of the instance. If the library makes no connector, its error is returned.
The instance's own CA file is not passed on: with verification on, the transport always
uses the system's roots.\<close>

theorem client_connects_to_instance:
  assumes "get_Instance rd name = Inr instance" and "CHR '':'' \<notin> set (i_Host (i_Spec instance))"
    and "get_Secret rd ns (i_CredentialsSecretRef (i_Spec instance)) = Inr secret"
    and "is_ok (AuthConfigFromSecretData secret)"
    and "lib_NewConnector ib
           \<lparr>ib_Host = i_Host (i_Spec instance), ib_Port = i_Port (i_Spec instance), ib_Version = i_WAPIVersion (i_Spec instance)\<rparr>
           \<lparr>ac_Username = map_get secret ''username'', ac_Password = map_get secret ''password'',
            ac_ClientCert = map_get secret ''clientCert'', ac_ClientKey = map_get secret ''clientKey''\<rparr>
           \<lparr>tr_sslVerify = (if i_DisableTLSVerification (i_Spec instance) then ''false'' else ''true''),
            tr_timeout = 1000000000, tr_pool = 5\<rparr> = con"
  shows "case con of
      Inl err \<Rightarrow> getInfobloxClientForInstance rd name ns (NewClient ib) = Inl (OfIB err)
    | Inr cn \<Rightarrow> \<exists>cl. getInfobloxClientForInstance rd name ns (NewClient ib) = Inr cl \<and> connector cl = cn \<and>
        objMgr cl = lib_NewObjectManager ib cn ''cluster-api-ipam-provider-infoblox'' [] \<and>
        hc_DefaultNetworkView (GetHostConfig cl) = i_DefaultNetworkView (i_Spec instance) \<and>
        hc_DefaultDNSView (GetHostConfig cl) = i_DefaultDNSView (i_Spec instance) \<and>
        hc_CustomCAPath (GetHostConfig cl) = []"
proof -
  obtain ac where ac: "AuthConfigFromSecretData secret = Inr ac" using assms(4) by (rule is_okE)
  have creds: "ac = \<lparr>ac_Username = map_get secret ''username'', ac_Password = map_get secret ''password'',
      ac_ClientCert = map_get secret ''clientCert'', ac_ClientKey = map_get secret ''clientKey''\<rparr>"
    using AuthConfig_fields [OF ac] by simp
  let ?cfg = "instance_config instance ac"
  have "hc_Host (cfg_HostConfig ?cfg) = i_Host (i_Spec instance) @ '':'' @ i_Port (i_Spec instance)"
    by (simp add: instance_config_def)
  from client_host_port [OF assms(2) this] have "client_host (cfg_HostConfig ?cfg) =
      \<lparr>ib_Host = i_Host (i_Spec instance), ib_Port = i_Port (i_Spec instance), ib_Version = i_WAPIVersion (i_Spec instance)\<rparr>"
    by (simp add: client_host_def instance_config_def Let_def)
  moreover have "client_tlsVerify (cfg_HostConfig ?cfg) = (if i_DisableTLSVerification (i_Spec instance) then ''false'' else ''true'')"
    by (simp add: client_tlsVerify_def instance_config_def)
  moreover have "cfg_AuthConfig ?cfg = ac" by (simp add: instance_config_def)
  ultimately have "NewClient ib ?cfg = (case con of
      Inl err \<Rightarrow> Inl (OfIB err)
    | Inr cn \<Rightarrow> Inr \<lparr>connector = cn, objMgr = lib_NewObjectManager ib cn ''cluster-api-ipam-provider-infoblox'' [],
                    hc = cfg_HostConfig ?cfg\<rparr>)"
    using assms(5) [folded creds] by (simp add: NewClient_def)
  moreover have "getInfobloxClientForInstance rd name ns (NewClient ib) = NewClient ib ?cfg"
    using assms(1,3) ac by (simp add: getInfobloxClientForInstance_def)
  ultimately show ?thesis by (simp add: GetHostConfig_def instance_config_def split: sum.split)
qed

definition example_reader :: kube_reader where
  "example_reader =
     \<lparr>get_Instance = (\<lambda>n. Inr example_instance), get_Secret = (\<lambda>ns n. Inr example_secret),
      get_Pool = (\<lambda>ns n. Inl (KubeNotFound n))\<rparr>"

text \<open>A library that keeps what it is given.\<close>

definition recording_lib :: "(ib_host \<times> AuthConfig \<times> ib_transport, unit) ib_lib" where
  "recording_lib = \<lparr>lib_NewConnector = (\<lambda>h a t. Inr (h, a, t)), lib_NewObjectManager = (\<lambda>cn cmp tenant. ())\<rparr>"

theorem client_connects_to_instance_witness:
  "\<exists>cl. getInfobloxClientForInstance example_reader ''i1'' ''system'' (NewClient recording_lib) = Inr cl \<and>
     connector cl =
       (\<lparr>ib_Host = ''infoblox.example'', ib_Port = ''8443'', ib_Version = ''2.12''\<rparr>,
        \<lparr>ac_Username = ''admin'', ac_Password = ''secret'', ac_ClientCert = [], ac_ClientKey = []\<rparr>,
        \<lparr>tr_sslVerify = ''true'', tr_timeout = 1000000000, tr_pool = 5\<rparr>)"
proof -
  have i: "get_Instance example_reader ''i1'' = Inr example_instance" by (simp add: example_reader_def)
  have h: "CHR '':'' \<notin> set (i_Host (i_Spec example_instance))" by (simp add: example_instance_def)
  have s: "get_Secret example_reader ''system'' (i_CredentialsSecretRef (i_Spec example_instance)) = Inr example_secret"
    by (simp add: example_reader_def)
  have ok: "is_ok (AuthConfigFromSecretData example_secret)" using credentials_of_example by auto
  have "i_Host (i_Spec example_instance) = ''infoblox.example''" "i_Port (i_Spec example_instance) = ''8443''"
    "i_WAPIVersion (i_Spec example_instance) = ''2.12''" "\<not> i_DisableTLSVerification (i_Spec example_instance)"
    by (simp_all add: example_instance_def)
  moreover have "map_get example_secret ''username'' = ''admin''" "map_get example_secret ''password'' = ''secret''"
    "map_get example_secret ''clientCert'' = []" "map_get example_secret ''clientKey'' = []"
    by (simp_all add: map_get_def example_secret_def)
  ultimately show ?thesis
    using client_connects_to_instance [OF i h s ok refl, of recording_lib] by (auto simp: recording_lib_def)
qed

end
