(* ===== verification/InstanceController.thy ===== *)
theory InstanceController
  imports InstanceClient
begin

text \<open>
  \<open>internal/controllers/infobloxinstance.go\<close>: the reconciliation of an instance. The result
  \<open>ctrl.Result\<close> is empty on every path, so an operation returns its error only.
\<close>

subsection \<open>Setting conditions\<close>

definition instance_Set :: "kube_lib \<Rightarrow> InfobloxInstance \<Rightarrow> condition \<Rightarrow> InfobloxInstance" where
  "instance_Set L i c = instance_SetConditions i (lib_Set L (instance_GetConditions i) c)"

definition pool_Set :: "kube_lib \<Rightarrow> InfobloxIPPool \<Rightarrow> condition \<Rightarrow> InfobloxIPPool" where
  "pool_Set L p c = pool_SetConditions p (lib_Set L (pool_GetConditions p) c)"

text \<open>\<open>err != nil || !ok\<close> on the result of an existence check.\<close>

definition check_fails :: "error + bool \<Rightarrow> bool" where
  "check_fails r = (case r of Inl err \<Rightarrow> True | Inr ok \<Rightarrow> \<not> ok)"

subsection \<open>reconcile\<close>

record 's instance_reconciler =
  ir_lib :: kube_lib
  ir_reader :: kube_reader
  ir_OperatorNamespace :: string
  ir_NewInfobloxClientFunc :: "Config \<Rightarrow> error + 's ib_client"

definition instance_host_config :: "InfobloxInstance \<Rightarrow> HostConfig" where
  "instance_host_config instance =
     \<lparr>hc_Host = i_Host (i_Spec instance),
      hc_Version = i_WAPIVersion (i_Spec instance),
      hc_DisableTLSVerification = i_DisableTLSVerification (i_Spec instance),
      hc_CustomCAPath = i_CustomCAPath (i_Spec instance),
      hc_DefaultNetworkView = i_DefaultNetworkView (i_Spec instance),
      hc_DefaultDNSView = i_DefaultDNSView (i_Spec instance)\<rparr>"

definition instance_reconcile ::
  "'s instance_reconciler \<Rightarrow> InfobloxInstance \<Rightarrow> InfobloxInstance \<times> error option" where
  "instance_reconcile r instance =
     (let not_ready = (\<lambda>reason msg. instance_Set (ir_lib r) instance (ready_cond ConditionFalse reason msg))
      in case get_Secret (ir_reader r) (ir_OperatorNamespace r) (i_CredentialsSecretRef (i_Spec instance)) of
        Inl err \<Rightarrow>
          if \<not> IsNotFound err then (instance, Some (OfKube err))
          else (not_ready AuthenticationFailedReason
                  (Fmt ''the referenced settings secret %q could not be found in namespace %q''
                     [Text (i_CredentialsSecretRef (i_Spec instance)), Text (ir_OperatorNamespace r)]), None)
      | Inr authSecret \<Rightarrow>
          (case AuthConfigFromSecretData authSecret of
             Inl err \<Rightarrow> (not_ready AuthenticationFailedReason
                          (Fmt ''the referenced settings secret is invalid: %v'' [Error err]), None)
           | Inr authConfig \<Rightarrow>
               (case ir_NewInfobloxClientFunc r
                       \<lparr>cfg_HostConfig = instance_host_config instance, cfg_AuthConfig = authConfig\<rparr> of
                  Inl err \<Rightarrow> (not_ready AuthenticationFailedReason
                               (Fmt ''could not create infoblox client: %v'' [Error err]), None)
                | Inr ibcl \<Rightarrow>
                    if i_DefaultNetworkView (i_Spec instance) \<noteq> [] \<and>
                       check_fails (cl_CheckNetworkViewExists ibcl (i_DefaultNetworkView (i_Spec instance)))
                    then (not_ready NetworkViewNotFoundReason
                            (Fmt ''could not find default network view %q''
                               [Text (i_DefaultNetworkView (i_Spec instance))]), None)
                    else if i_DefaultDNSView (i_Spec instance) \<noteq> [] \<and>
                       check_fails (cl_CheckDNSViewExists ibcl (i_DefaultDNSView (i_Spec instance)))
                    then (not_ready DNSViewNotFoundReason
                            (Fmt ''could not find default DNS view %q''
                               [Text (i_DefaultDNSView (i_Spec instance))]), None)
                    else (instance_Set (ir_lib r) instance
                            (ready_cond ConditionTrue ConfigurationValidReason
                               (Text ''Successfully connected to Infoblox instance and validated configuration'')),
                          None))))"

subsection \<open>Reconcile\<close>

text \<open>
  \<open>get\<close> reads the object, \<open>new_helper\<close> is \<open>patch.NewHelper\<close>, and \<open>patch\<close> is the deferred
  \<open>Patch\<close> of the helper, from the object it was made for to the one it is given, on the state
  \<open>'k\<close> of the API server.
\<close>

definition instance_Reconcile ::
  "'s instance_reconciler \<Rightarrow> (string \<Rightarrow> kube_error + InfobloxInstance) \<Rightarrow>
     (InfobloxInstance \<Rightarrow> error option) \<Rightarrow>
     (InfobloxInstance \<Rightarrow> InfobloxInstance \<Rightarrow> 'k \<Rightarrow> error option \<times> 'k) \<Rightarrow> string \<Rightarrow> 'k \<Rightarrow> error option \<times> 'k" where
  "instance_Reconcile r get new_helper patch req k =
     (case get req of
        Inl err \<Rightarrow> if IsNotFound err then (None, k) else (Some (OfKube err), k)
      | Inr instance \<Rightarrow>
          (case new_helper instance of
             Some err \<Rightarrow> (Some err, k)
           | None \<Rightarrow>
               (let (instance', reterr) = instance_reconcile r instance
                in case patch instance instance' k of
                     (Some err, k') \<Rightarrow> (Some (Aggregate [reterr, Some err]), k')
                   | (None, k') \<Rightarrow> (reterr, k'))))"

subsection \<open>Facts\<close>

text \<open>What the reconciliation establishes before it declares an instance ready.\<close>

definition instance_valid :: "'s instance_reconciler \<Rightarrow> InfobloxInstance \<Rightarrow> bool" where
  "instance_valid r instance \<longleftrightarrow>
     (\<exists>secret ac cl.
        get_Secret (ir_reader r) (ir_OperatorNamespace r) (i_CredentialsSecretRef (i_Spec instance)) = Inr secret \<and>
        AuthConfigFromSecretData secret = Inr ac \<and>
        ir_NewInfobloxClientFunc r \<lparr>cfg_HostConfig = instance_host_config instance, cfg_AuthConfig = ac\<rparr> = Inr cl \<and>
        (i_DefaultNetworkView (i_Spec instance) \<noteq> [] \<longrightarrow>
           cl_CheckNetworkViewExists cl (i_DefaultNetworkView (i_Spec instance)) = Inr True) \<and>
        (i_DefaultDNSView (i_Spec instance) \<noteq> [] \<longrightarrow>
           cl_CheckDNSViewExists cl (i_DefaultDNSView (i_Spec instance)) = Inr True))"

lemma check_fails_iff: "check_fails r \<longleftrightarrow> r \<noteq> Inr True"
  by (auto simp: check_fails_def split: sum.splits)

lemma ready_cond_simps [simp]:
  "cond_Type (ready_cond st reason msg) = ReadyCondition"
  "cond_Status (ready_cond st reason msg) = st"
  "cond_Reason (ready_cond st reason msg) = reason"
  by (simp_all add: ready_cond_def)

lemma instance_reconcile_cases:
  obtains (read_error) err where "instance_reconcile r instance = (instance, Some (OfKube err))"
      "\<not> IsNotFound err"
      "get_Secret (ir_reader r) (ir_OperatorNamespace r) (i_CredentialsSecretRef (i_Spec instance)) = Inl err"
  | (not_ready) reason msg where
      "instance_reconcile r instance = (instance_Set (ir_lib r) instance (ready_cond ConditionFalse reason msg), None)"
      "\<not> instance_valid r instance"
      "reason \<in> {AuthenticationFailedReason, NetworkViewNotFoundReason, DNSViewNotFoundReason}"
  | (ready) msg where
      "instance_reconcile r instance =
         (instance_Set (ir_lib r) instance (ready_cond ConditionTrue ConfigurationValidReason msg), None)"
      "instance_valid r instance"
proof (cases "get_Secret (ir_reader r) (ir_OperatorNamespace r) (i_CredentialsSecretRef (i_Spec instance))")
  case s: (Inl err)
  show ?thesis
  proof (cases "IsNotFound err")
    case True
    with s show ?thesis
      by (intro not_ready) (auto simp: instance_reconcile_def instance_valid_def)
  next
    case False
    with s show ?thesis by (intro read_error) (auto simp: instance_reconcile_def)
  qed
next
  case s: (Inr secret)
  show ?thesis
  proof (cases "AuthConfigFromSecretData secret")
    case (Inl err)
    with s show ?thesis
      by (intro not_ready) (auto simp: instance_reconcile_def instance_valid_def)
  next
    case a: (Inr ac)
    show ?thesis
    proof (cases "ir_NewInfobloxClientFunc r
        \<lparr>cfg_HostConfig = instance_host_config instance, cfg_AuthConfig = ac\<rparr>")
      case (Inl err)
      with s a show ?thesis
        by (intro not_ready) (auto simp: instance_reconcile_def instance_valid_def)
    next
      case c: (Inr cl)
      let ?nv = "i_DefaultNetworkView (i_Spec instance)"
      let ?dv = "i_DefaultDNSView (i_Spec instance)"
      consider "?nv \<noteq> []" "cl_CheckNetworkViewExists cl ?nv \<noteq> Inr True"
        | "?nv = [] \<or> cl_CheckNetworkViewExists cl ?nv = Inr True" "?dv \<noteq> []"
          "cl_CheckDNSViewExists cl ?dv \<noteq> Inr True"
        | "?nv = [] \<or> cl_CheckNetworkViewExists cl ?nv = Inr True"
          "?dv = [] \<or> cl_CheckDNSViewExists cl ?dv = Inr True"
        by blast
      then show ?thesis
      proof cases
        case 1
        with s a c show ?thesis
          by (intro not_ready) (auto simp: instance_reconcile_def instance_valid_def check_fails_iff)
      next
        case 2
        with s a c show ?thesis
          by (intro not_ready) (auto simp: instance_reconcile_def instance_valid_def check_fails_iff)
      next
        case 3
        with s a c show ?thesis
          by (intro ready) (auto simp: instance_reconcile_def instance_valid_def check_fails_iff)
      qed
    qed
  qed
qed

lemma instance_Set_simps [simp]:
  "i_Spec (instance_Set L i c) = i_Spec i" "i_Name (instance_Set L i c) = i_Name i"
  "instance_GetConditions (instance_Set L i c) = lib_Set L (instance_GetConditions i) c"
  by (simp_all add: instance_Set_def instance_SetConditions_def instance_GetConditions_def)

subsection \<open>Properties\<close>

text \<open>C27: An instance is declared ready exactly if it is valid: when the reconciliation ends
without an error, it has set the Ready condition, to true if and only if the secret exists
with usable credentials, the client can be created, and the default views that are given
exist; otherwise to false with one of the three failure reasons. Name and specification are
not touched.\<close>

theorem instance_ready_exact:
  assumes "instance_reconcile r inst = (inst', None)"
  shows "\<exists>c. inst' = instance_Set (ir_lib r) inst c \<and> cond_Type c = ReadyCondition \<and>
           (if instance_valid r inst
            then cond_Status c = ConditionTrue \<and> cond_Reason c = ConfigurationValidReason
            else cond_Status c = ConditionFalse \<and>
                 cond_Reason c \<in> {AuthenticationFailedReason, NetworkViewNotFoundReason, DNSViewNotFoundReason}) \<and>
           i_Spec inst' = i_Spec inst \<and> i_Name inst' = i_Name inst"
  by (cases rule: instance_reconcile_cases [of r inst]) (use assms in auto)

definition example_impl :: "(HostRecord option connector_ops, obj_mgr) client" where
  "example_impl =
     \<lparr>connector = example_con,
       objMgr = \<lparr>GetNetworkView = (\<lambda>v. None), GetDNSView = (\<lambda>v. None), GetNetwork = (\<lambda>v c b. None)\<rparr>,
       hc = \<lparr>hc_Host = ''h'', hc_Version = ''2.12'', hc_DisableTLSVerification = False, hc_CustomCAPath = [],
             hc_DefaultNetworkView = ''nv'', hc_DefaultDNSView = []\<rparr>\<rparr>"

definition example_client :: "HostRecord option ib_client" where
  "example_client = infoblox_Client example_impl"

definition example_ir :: "HostRecord option instance_reconciler" where
  "example_ir =
     \<lparr>ir_lib = example_lib, ir_reader = example_reader, ir_OperatorNamespace = ''system'',
      ir_NewInfobloxClientFunc = (\<lambda>cfg. Inr example_client)\<rparr>"

theorem instance_ready_exact_witness:
  "\<exists>c. fst (instance_reconcile example_ir example_instance) = instance_Set example_lib example_instance c \<and>
     cond_Status c = ConditionTrue"
proof -
  obtain ac where ac: "AuthConfigFromSecretData example_secret = Inr ac" using credentials_of_example by blast
  have s: "get_Secret (ir_reader example_ir) (ir_OperatorNamespace example_ir)
      (i_CredentialsSecretRef (i_Spec example_instance)) = Inr example_secret"
    by (simp add: example_ir_def example_reader_def)
  have valid: "instance_valid example_ir example_instance"
    unfolding instance_valid_def
    by (intro exI [of _ example_secret] exI [of _ ac] exI [of _ example_client] conjI s ac)
      (simp_all add: example_ir_def example_instance_def)
  have "snd (instance_reconcile example_ir example_instance) = None"
    using s ac by (simp add: instance_reconcile_def example_ir_def example_instance_def)
  then have "instance_reconcile example_ir example_instance =
      (fst (instance_reconcile example_ir example_instance), None)"
    by (metis prod.collapse)
  from instance_ready_exact [OF this] valid show ?thesis
    by (auto simp: example_ir_def)
qed

text \<open>The reconciliation of an instance loses no error and invents none: a missing object is
not an error; the only error of the inner step is a failed read of the secret other than
not found, and then the object is unchanged; and whatever the inner step does, the object is
patched exactly once, with its error joined to the patch's.\<close>

theorem instance_errors:
  assumes "instance_reconcile r inst = (inst', e)"
  shows "(e \<noteq> None \<longrightarrow> inst' = inst \<and>
            (\<exists>err. e = Some (OfKube err) \<and> \<not> IsNotFound err \<and>
               get_Secret (ir_reader r) (ir_OperatorNamespace r) (i_CredentialsSecretRef (i_Spec inst)) = Inl err)) \<and>
         (get req = Inr inst \<longrightarrow> new_helper inst = None \<longrightarrow>
            instance_Reconcile r get new_helper patch req k =
              (case patch inst inst' k of
                 (None, k') \<Rightarrow> (e, k') | (Some err, k') \<Rightarrow> (Some (Aggregate [e, Some err]), k'))) \<and>
         (get req = Inl (KubeNotFound m) \<longrightarrow>
            instance_Reconcile r get new_helper patch req k = (None, k))"
proof -
  have "e \<noteq> None \<longrightarrow> inst' = inst \<and>
      (\<exists>err. e = Some (OfKube err) \<and> \<not> IsNotFound err \<and>
         get_Secret (ir_reader r) (ir_OperatorNamespace r) (i_CredentialsSecretRef (i_Spec inst)) = Inl err)"
    by (cases rule: instance_reconcile_cases [of r inst]) (use assms in auto)
  then show ?thesis
    using assms by (auto simp: instance_Reconcile_def split: prod.splits option.splits)
qed

theorem instance_errors_witness:
  "instance_Reconcile example_ir (\<lambda>n. Inl (KubeNotFound n)) (\<lambda>i. None) (\<lambda>i i' k. (None, k)) ''i2'' () = (None, ())"
  using instance_errors [of example_ir example_instance "fst (instance_reconcile example_ir example_instance)"
      "snd (instance_reconcile example_ir example_instance)" "\<lambda>n. Inl (KubeNotFound n)" "''i2''" "\<lambda>i. None"
      "\<lambda>i i' k. (None, k)" "()" "''i2''"]
  by simp

text \<open>The check of an instance does not use the instance's port: for a host without a colon
it connects to port 443, whatever port the instance names, while the client of a pool or a
claim uses that port.\<close>

theorem instance_check_port:
  assumes "CHR '':'' \<notin> set (i_Host (i_Spec inst))"
  shows "ib_Port (client_host (instance_host_config inst)) = ''443'' \<and>
         ib_Host (client_host (instance_host_config inst)) = i_Host (i_Spec inst) \<and>
         ib_Port (client_host (cfg_HostConfig (instance_config inst ac))) = i_Port (i_Spec inst)"
  using client_host_default_port [of "instance_host_config inst"]
    client_host_port [OF assms, of "cfg_HostConfig (instance_config inst ac)" "i_Port (i_Spec inst)"] assms
  by (simp add: instance_host_config_def instance_config_def)

theorem instance_check_port_witness:
  "ib_Port (client_host (instance_host_config example_instance)) = ''443'' \<and>
   ib_Port (client_host (cfg_HostConfig (instance_config example_instance
      \<lparr>ac_Username = ''admin'', ac_Password = ''secret'', ac_ClientCert = [], ac_ClientKey = []\<rparr>))) = ''8443''"
  using instance_check_port [of example_instance
      "\<lparr>ac_Username = ''admin'', ac_Password = ''secret'', ac_ClientCert = [], ac_ClientKey = []\<rparr>"]
  by (simp add: example_instance_def)

end
