(* ===== verification/PoolController.thy ===== *)
theory PoolController
  imports InstanceController PoolIndex
begin

text \<open>
  \<open>internal/controllers/infobloxippool.go\<close>: the reconciliation of a pool, its finalizer and the DNS
  view it uses. The result \<open>ctrl.Result\<close> is empty on every path.
\<close>

definition ProtectPoolFinalizer :: string where
  "ProtectPoolFinalizer = ''ipam.cluster.x-k8s.io/ProtectPool''"

definition determineDNSView :: "string \<Rightarrow> string \<Rightarrow> string \<Rightarrow> string" where
  "determineDNSView poolDNSView instanceDefaultDNSView networkView =
     (if poolDNSView \<noteq> [] then poolDNSView
      else if instanceDefaultDNSView \<noteq> [] then instanceDefaultDNSView
      else if networkView = [] \<or> networkView = ''default'' then ''default''
      else ''default.'' @ networkView)"

subsection \<open>reconcile\<close>

record 's pool_reconciler =
  pr_lib :: kube_lib
  pr_reader :: kube_reader
  pr_OperatorNamespace :: string
  pr_NewInfobloxClientFunc :: "Config \<Rightarrow> error + 's ib_client"

text \<open>The loop over the subnets: a condition to set and return, an error to return, or neither.\<close>

datatype subnets_result = SubnetsOk | SubnetMissing prefix | SubnetError error

fun check_subnets :: "'s ib_client \<Rightarrow> string \<Rightarrow> Subnet list \<Rightarrow> subnets_result" where
  "check_subnets ibclient nv [] = SubnetsOk"
| "check_subnets ibclient nv (sub # subs) =
     (case ParsePrefix (CIDR sub) of
        None \<Rightarrow> SubnetError (Wrap ''failed to parse subnet: %w'' (ParseError (CIDR sub)))
      | Some subnet \<Rightarrow>
          if check_fails (cl_CheckNetworkExists ibclient nv subnet) then SubnetMissing subnet
          else check_subnets ibclient nv subs)"

definition default_network_view :: "'s ib_client \<Rightarrow> InfobloxIPPool \<Rightarrow> InfobloxIPPool" where
  "default_network_view ibclient pool =
     (if NetworkView (p_Spec pool) = []
      then pool\<lparr>p_Spec := (p_Spec pool)\<lparr>NetworkView := hc_DefaultNetworkView (cl_GetHostConfig ibclient)\<rparr>\<rparr>
      else pool)"

definition pool_reconcile ::
  "'s pool_reconciler \<Rightarrow> InfobloxIPPool \<Rightarrow> InfobloxIPPool \<times> error option" where
  "pool_reconcile r pool =
     (case getInfobloxClientForInstance (pr_reader r) (InstanceRef (p_Spec pool)) (pr_OperatorNamespace r)
             (pr_NewInfobloxClientFunc r) of
        Inl err \<Rightarrow>
          (pool_Set (pr_lib r) pool (ready_cond ConditionFalse AuthenticationFailedReason
             (Fmt ''client creation failed for instance %q: %s'' [Text (InstanceRef (p_Spec pool)), Error err])),
           Some err)
      | Inr ibclient \<Rightarrow>
          (let pool = default_network_view ibclient pool;
               nv = NetworkView (p_Spec pool);
               not_found = (\<lambda>reason msg. (pool_Set (pr_lib r) pool (ready_cond ConditionFalse reason msg), None));
               dnsView = determineDNSView (DNSView (p_Spec pool))
                           (hc_DefaultDNSView (cl_GetHostConfig ibclient)) nv
           in if check_fails (cl_CheckNetworkViewExists ibclient nv)
              then not_found NetworkViewNotFoundReason (Fmt ''could not find network view %q'' [Text nv])
              else if dnsView \<noteq> [] \<and> check_fails (cl_CheckDNSViewExists ibclient dnsView)
              then not_found DNSViewNotFoundReason (Fmt ''could not find DNS view %q'' [Text dnsView])
              else case check_subnets ibclient nv (Subnets (p_Spec pool)) of
                SubnetError err \<Rightarrow> (pool, Some err)
              | SubnetMissing subnet \<Rightarrow>
                  not_found NetworkNotFoundReason
                    (Fmt ''could not find network %q in view %q'' [Text (PrefixString subnet), Text nv])
              | SubnetsOk \<Rightarrow>
                  (pool_Set (pr_lib r) pool (ready_cond ConditionTrue ReadyReason (Text ''pool is ready'')), None)))"

subsection \<open>Reconcile\<close>

definition pool_ref_of :: "InfobloxIPPool \<Rightarrow> IPPoolReference" where
  "pool_ref_of pool =
     \<lparr>ref_APIGroup = p_Group pool, ref_Kind = p_Kind pool, ref_Name = p_Name pool\<rparr>"

text \<open>What happens to the pool between the read and the deferred patch.\<close>

definition pool_step ::
  "'s pool_reconciler \<Rightarrow> IPAddressClaim lister \<Rightarrow> InfobloxIPPool \<Rightarrow> InfobloxIPPool \<times> error option" where
  "pool_step r lister pool =
     (let isMarkedForDeletion = (p_DeletionTimestamp pool \<noteq> None);
          (fins, added) = lib_AddFinalizer (pr_lib r) (p_Finalizers pool) ProtectPoolFinalizer
      in if \<not> isMarkedForDeletion \<and> added then (pool\<lparr>p_Finalizers := fins\<rparr>, None)
         else if isMarkedForDeletion then
           (let (inUseClaims, err) =
              ListClaimsReferencingPool (pr_lib r) lister (p_Namespace pool) (pool_ref_of pool)
            in case err of
                 Some e \<Rightarrow> (pool, Some (OfKube e))
               | None \<Rightarrow>
                   if length inUseClaims = 0
                   then (pool\<lparr>p_Finalizers := fst (lib_RemoveFinalizer (pr_lib r) (p_Finalizers pool)
                                ProtectPoolFinalizer)\<rparr>, None)
                   else (pool, Some (ErrorText (Text ''pool has IPAddresses or IPAddressClaims allocated. Cannot delete Pool until all IPAddresses and IPAddressClaims have been removed''))))
         else pool_reconcile r (pool\<lparr>p_Finalizers := fins\<rparr>))"

definition pool_Reconcile ::
  "'s pool_reconciler \<Rightarrow> IPAddressClaim lister \<Rightarrow> (string \<Rightarrow> string \<Rightarrow> kube_error + InfobloxIPPool) \<Rightarrow>
     (InfobloxIPPool \<Rightarrow> error option) \<Rightarrow>
     (InfobloxIPPool \<Rightarrow> InfobloxIPPool \<Rightarrow> 'k \<Rightarrow> error option \<times> 'k) \<Rightarrow>
     string \<Rightarrow> string \<Rightarrow> 'k \<Rightarrow> error option \<times> 'k" where
  "pool_Reconcile r lister get new_helper patch ns name k =
     (case get ns name of
        Inl err \<Rightarrow> if IsNotFound err then (None, k) else (Some (OfKube err), k)
      | Inr pool \<Rightarrow>
          (case new_helper pool of
             Some err \<Rightarrow> (Some err, k)
           | None \<Rightarrow>
               (let (pool', reterr) = pool_step r lister pool
                in case patch pool pool' k of
                     (Some err, k') \<Rightarrow> (Some (Aggregate [reterr, Some err]), k')
                   | (None, k') \<Rightarrow> (reterr, k'))))"

subsection \<open>Facts\<close>

lemma determineDNSView_nonempty [simp]: "determineDNSView d i n \<noteq> []"
  by (simp add: determineDNSView_def)

lemma check_subnets_ok_iff:
  "check_subnets cl nv subs = SubnetsOk \<longleftrightarrow>
     (\<forall>sub \<in> set subs. \<exists>p. ParsePrefix (CIDR sub) = Some p \<and> cl_CheckNetworkExists cl nv p = Inr True)"
  by (induction subs) (auto simp: check_fails_iff split: option.splits)

lemma check_subnets_error:
  "check_subnets cl nv subs = SubnetError e \<Longrightarrow>
     \<exists>sub \<in> set subs. ParsePrefix (CIDR sub) = None \<and>
       e = Wrap ''failed to parse subnet: %w'' (ParseError (CIDR sub))"
  by (induction subs) (auto split: option.splits if_splits)

lemma check_subnets_missing:
  "check_subnets cl nv subs = SubnetMissing p \<Longrightarrow>
     \<exists>sub \<in> set subs. ParsePrefix (CIDR sub) = Some p \<and> cl_CheckNetworkExists cl nv p \<noteq> Inr True"
  by (induction subs) (auto simp: check_fails_iff split: option.splits if_splits)

lemma pool_Set_simps [simp]:
  "p_Spec (pool_Set L p c) = p_Spec p" "p_Finalizers (pool_Set L p c) = p_Finalizers p"
  "p_Name (pool_Set L p c) = p_Name p" "p_Namespace (pool_Set L p c) = p_Namespace p"
  "p_DeletionTimestamp (pool_Set L p c) = p_DeletionTimestamp p"
  "p_Kind (pool_Set L p c) = p_Kind p"
  "pool_GetConditions (pool_Set L p c) = lib_Set L (pool_GetConditions p) c"
  by (simp_all add: pool_Set_def pool_SetConditions_def pool_GetConditions_def)

lemma default_network_view_simps [simp]:
  "p_Finalizers (default_network_view cl p) = p_Finalizers p"
  "p_Name (default_network_view cl p) = p_Name p"
  "p_Namespace (default_network_view cl p) = p_Namespace p"
  "p_DeletionTimestamp (default_network_view cl p) = p_DeletionTimestamp p"
  "p_Conditions (default_network_view cl p) = p_Conditions p"
  "Subnets (p_Spec (default_network_view cl p)) = Subnets (p_Spec p)"
  "DNSView (p_Spec (default_network_view cl p)) = DNSView (p_Spec p)"
  "DNSZone (p_Spec (default_network_view cl p)) = DNSZone (p_Spec p)"
  "InstanceRef (p_Spec (default_network_view cl p)) = InstanceRef (p_Spec p)"
  by (simp_all add: default_network_view_def)

text \<open>
  What a pool needs of the appliance: the network view is the pool's, or else the default of the
  instance; the DNS view is the first that is given of the pool's, the default of the instance, and
  the one that belongs to the network view.
\<close>

definition wanted_network_view :: "'s ib_client \<Rightarrow> InfobloxIPPool \<Rightarrow> string" where
  "wanted_network_view cl pool =
     hd (filter (\<lambda>v. v \<noteq> []) [NetworkView (p_Spec pool)] @ [hc_DefaultNetworkView (cl_GetHostConfig cl)])"

definition wanted_dns_view :: "'s ib_client \<Rightarrow> InfobloxIPPool \<Rightarrow> string" where
  "wanted_dns_view cl pool =
     hd (filter (\<lambda>v. v \<noteq> [])
       [DNSView (p_Spec pool), hc_DefaultDNSView (cl_GetHostConfig cl),
        if wanted_network_view cl pool \<in> {[], ''default''} then ''default''
        else ''default.'' @ wanted_network_view cl pool])"

definition network_exists :: "'s ib_client \<Rightarrow> string \<Rightarrow> Subnet \<Rightarrow> bool" where
  "network_exists cl nv sub \<longleftrightarrow> (\<exists>p. ParsePrefix (CIDR sub) = Some p \<and> cl_CheckNetworkExists cl nv p = Inr True)"

definition pool_exists :: "'s ib_client \<Rightarrow> InfobloxIPPool \<Rightarrow> bool" where
  "pool_exists cl pool \<longleftrightarrow>
     cl_CheckNetworkViewExists cl (wanted_network_view cl pool) = Inr True \<and>
     cl_CheckDNSViewExists cl (wanted_dns_view cl pool) = Inr True \<and>
     (\<forall>sub \<in> set (Subnets (p_Spec pool)). network_exists cl (wanted_network_view cl pool) sub)"

lemma default_network_view_wanted:
  "default_network_view cl pool = pool\<lparr>p_Spec := (p_Spec pool)\<lparr>NetworkView := wanted_network_view cl pool\<rparr>\<rparr>"
  by (simp add: default_network_view_def wanted_network_view_def)

lemma NetworkView_wanted [simp]:
  "NetworkView (p_Spec (default_network_view cl pool)) = wanted_network_view cl pool"
  by (simp add: default_network_view_wanted)

lemma determineDNSView_wanted [simp]:
  "determineDNSView (DNSView (p_Spec pool)) (hc_DefaultDNSView (cl_GetHostConfig cl)) (wanted_network_view cl pool) =
     wanted_dns_view cl pool"
  by (simp add: determineDNSView_def wanted_dns_view_def)

lemma pool_exists_alt:
  "pool_exists cl pool \<longleftrightarrow>
     cl_CheckNetworkViewExists cl (wanted_network_view cl pool) = Inr True \<and>
     cl_CheckDNSViewExists cl (wanted_dns_view cl pool) = Inr True \<and>
     check_subnets cl (wanted_network_view cl pool) (Subnets (p_Spec pool)) = SubnetsOk"
  by (simp add: pool_exists_def network_exists_def check_subnets_ok_iff)

lemma wanted_dns_view_nonempty [simp]: "wanted_dns_view cl pool \<noteq> []"
  by (simp add: wanted_dns_view_def)

lemma pool_reconcile_wanted:
  assumes "getInfobloxClientForInstance (pr_reader r) (InstanceRef (p_Spec pool)) (pr_OperatorNamespace r)
             (pr_NewInfobloxClientFunc r) = Inr cl"
  shows "pool_reconcile r pool =
    (let nv = wanted_network_view cl pool;
         dv = wanted_dns_view cl pool;
         viewed = default_network_view cl pool;
         failed = (\<lambda>reason msg. (pool_Set (pr_lib r) viewed (ready_cond ConditionFalse reason msg), None))
     in if cl_CheckNetworkViewExists cl nv \<noteq> Inr True
        then failed NetworkViewNotFoundReason (Fmt ''could not find network view %q'' [Text nv])
        else if cl_CheckDNSViewExists cl dv \<noteq> Inr True
        then failed DNSViewNotFoundReason (Fmt ''could not find DNS view %q'' [Text dv])
        else case check_subnets cl nv (Subnets (p_Spec pool)) of
          SubnetError err \<Rightarrow> (viewed, Some err)
        | SubnetMissing p \<Rightarrow>
            failed NetworkNotFoundReason (Fmt ''could not find network %q in view %q'' [Text (PrefixString p), Text nv])
        | SubnetsOk \<Rightarrow>
            (pool_Set (pr_lib r) viewed (ready_cond ConditionTrue ReadyReason (Text ''pool is ready'')), None))"
  by (simp add: assms pool_reconcile_def Let_def check_fails_iff split: subnets_result.split)

text \<open>The loop stops at the first subnet that is not there.\<close>

lemma check_subnets_first:
  "check_subnets cl nv subs \<noteq> SubnetsOk \<Longrightarrow>
     \<exists>pre sub post. subs = pre @ sub # post \<and> (\<forall>t \<in> set pre. network_exists cl nv t) \<and> \<not> network_exists cl nv sub \<and>
       check_subnets cl nv subs =
         (case ParsePrefix (CIDR sub) of
            None \<Rightarrow> SubnetError (Wrap ''failed to parse subnet: %w'' (ParseError (CIDR sub)))
          | Some p \<Rightarrow> SubnetMissing p)"
proof (induction subs)
  case Nil
  then show ?case by simp
next
  case (Cons sub subs)
  show ?case
  proof (cases "network_exists cl nv sub")
    case True
    then have eq: "check_subnets cl nv (sub # subs) = check_subnets cl nv subs"
      by (auto simp: network_exists_def check_fails_iff)
    with Cons.prems Cons.IH obtain pre t post where "subs = pre @ t # post" "\<forall>u \<in> set pre. network_exists cl nv u"
      "\<not> network_exists cl nv t"
      "check_subnets cl nv subs = (case ParsePrefix (CIDR t) of
         None \<Rightarrow> SubnetError (Wrap ''failed to parse subnet: %w'' (ParseError (CIDR t))) | Some p \<Rightarrow> SubnetMissing p)"
      by auto
    with True eq show ?thesis by (intro exI [of _ "sub # pre"] exI [of _ t] exI [of _ post]) simp
  next
    case False
    then show ?thesis
      by (intro exI [of _ "[]"] exI [of _ sub] exI [of _ subs])
        (auto simp: network_exists_def check_fails_iff split: option.splits)
  qed
qed

text \<open>The reconciliation of a pool, with a client and without one.\<close>

lemma pool_reconcile_no_client:
  assumes "getInfobloxClientForInstance (pr_reader r) (InstanceRef (p_Spec pool)) (pr_OperatorNamespace r)
             (pr_NewInfobloxClientFunc r) = Inl err"
  shows "\<exists>msg. pool_reconcile r pool =
           (pool_Set (pr_lib r) pool (ready_cond ConditionFalse AuthenticationFailedReason msg), Some err)"
  using assms by (auto simp: pool_reconcile_def)

lemma pool_reconcile_client:
  assumes "getInfobloxClientForInstance (pr_reader r) (InstanceRef (p_Spec pool)) (pr_OperatorNamespace r)
             (pr_NewInfobloxClientFunc r) = Inr cl"
  obtains (ready) msg where "pool_exists cl pool"
      "pool_reconcile r pool =
         (pool_Set (pr_lib r) (default_network_view cl pool) (ready_cond ConditionTrue ReadyReason msg), None)"
  | (missing) reason msg where "\<not> pool_exists cl pool"
      "reason \<in> {NetworkViewNotFoundReason, DNSViewNotFoundReason, NetworkNotFoundReason}"
      "pool_reconcile r pool =
         (pool_Set (pr_lib r) (default_network_view cl pool) (ready_cond ConditionFalse reason msg), None)"
  | (unparsed) sub where "\<not> pool_exists cl pool" "sub \<in> set (Subnets (p_Spec pool))"
      "ParsePrefix (CIDR sub) = None"
      "pool_reconcile r pool =
         (default_network_view cl pool, Some (Wrap ''failed to parse subnet: %w'' (ParseError (CIDR sub))))"
proof -
  let ?sub = "check_subnets cl (wanted_network_view cl pool) (Subnets (p_Spec pool))"
  note r = pool_reconcile_wanted [OF assms]
  consider (nv) "cl_CheckNetworkViewExists cl (wanted_network_view cl pool) \<noteq> Inr True"
    | (dv) "cl_CheckNetworkViewExists cl (wanted_network_view cl pool) = Inr True"
      "cl_CheckDNSViewExists cl (wanted_dns_view cl pool) \<noteq> Inr True"
    | (subs) "cl_CheckNetworkViewExists cl (wanted_network_view cl pool) = Inr True"
      "cl_CheckDNSViewExists cl (wanted_dns_view cl pool) = Inr True" by blast
  then show thesis
  proof cases
    case nv
    then show ?thesis by (intro missing) (simp_all add: r pool_exists_def Let_def)
  next
    case dv
    then show ?thesis by (intro missing) (simp_all add: r pool_exists_def Let_def)
  next
    case subs
    show ?thesis
    proof (cases ?sub)
      case SubnetsOk
      with subs show ?thesis by (intro ready) (simp_all add: r pool_exists_alt Let_def)
    next
      case (SubnetMissing p)
      with subs show ?thesis by (intro missing) (simp_all add: r pool_exists_alt Let_def)
    next
      case (SubnetError e)
      with check_subnets_error [OF SubnetError] subs show ?thesis
        by (auto intro!: unparsed simp: r pool_exists_alt Let_def)
    qed
  qed
qed

subsection \<open>The finalizer\<close>

lemma lib_finalizers:
  assumes "lib_ok L"
  shows "lib_AddFinalizer L fs f = (if f \<in> set fs then (fs, False) else (fs @ [f], True))"
    and "fst (lib_RemoveFinalizer L fs f) = filter (\<lambda>g. g \<noteq> f) fs"
  using assms by (simp_all add: lib_ok_def)

text \<open>A claim of the pool's namespace that refers to it by kind and name.\<close>

definition refers_to_pool :: "kube_lib \<Rightarrow> InfobloxIPPool \<Rightarrow> IPAddressClaim \<Rightarrow> bool" where
  "refers_to_pool L pool c \<longleftrightarrow>
     c_Namespace c = p_Namespace pool \<and>
     ref_Kind (c_PoolRef c) @ ref_Name (c_PoolRef c) = p_Kind pool @ p_Name pool \<and>
     lib_ParseGroup L (c_APIVersion c) = ''ipam.cluster.x-k8s.io''"

abbreviation claim_cache :: "IPAddressClaim list \<Rightarrow> IPAddressClaim lister" where
  "claim_cache store \<equiv> cache_of OIPAddressClaim ipAddressClaimByCombinedPoolRef c_Namespace store"

lemma claims_of_pool:
  "ListClaimsReferencingPool L (claim_cache store) (p_Namespace pool) (pool_ref_of pool) =
     (filter (refers_to_pool L pool) store, None)"
  by (simp add: claims.listing_cache pool_ref_of_def refers_to_pool_def [abs_def])

lemma pool_step_marked:
  assumes "lib_ok (pr_lib r)" and "p_DeletionTimestamp pool \<noteq> None"
  shows "pool_step r (claim_cache store) pool =
     (if filter (refers_to_pool (pr_lib r) pool) store = []
      then (pool\<lparr>p_Finalizers := filter (\<lambda>g. g \<noteq> ProtectPoolFinalizer) (p_Finalizers pool)\<rparr>, None)
      else (pool, Some (ErrorText (Text ''pool has IPAddresses or IPAddressClaims allocated. Cannot delete Pool until all IPAddresses and IPAddressClaims have been removed''))))"
  using assms(2)
  by (auto simp: pool_step_def lib_finalizers [OF assms(1)] claims_of_pool Let_def)

lemma pool_reconcile_finalizers:
  "p_Finalizers (fst (pool_reconcile r pool)) = p_Finalizers pool \<and>
   p_DeletionTimestamp (fst (pool_reconcile r pool)) = p_DeletionTimestamp pool \<and>
   p_Name (fst (pool_reconcile r pool)) = p_Name pool \<and>
   p_Namespace (fst (pool_reconcile r pool)) = p_Namespace pool \<and>
   p_Kind (fst (pool_reconcile r pool)) = p_Kind pool"
proof (cases "getInfobloxClientForInstance (pr_reader r) (InstanceRef (p_Spec pool)) (pr_OperatorNamespace r)
      (pr_NewInfobloxClientFunc r)")
  case (Inl err)
  then show ?thesis by (simp add: pool_reconcile_def)
next
  case (Inr cl)
  have "p_Kind (default_network_view cl pool) = p_Kind pool" by (simp add: default_network_view_def)
  then show ?thesis by (cases rule: pool_reconcile_client [OF Inr]) simp_all
qed

lemma pool_step_unmarked:
  assumes "lib_ok (pr_lib r)" and "p_DeletionTimestamp pool = None"
  shows "pool_step r lister pool =
     (if ProtectPoolFinalizer \<in> set (p_Finalizers pool) then pool_reconcile r pool
      else (pool\<lparr>p_Finalizers := p_Finalizers pool @ [ProtectPoolFinalizer]\<rparr>, None))"
  using assms(2) by (simp add: pool_step_def lib_finalizers [OF assms(1)] Let_def)

subsection \<open>Properties of one reconciliation\<close>

text \<open>C17: The protection of a pool: while it is not marked for deletion, the first reconciliation
adds the finalizer and does nothing else, and later ones keep all finalizers; once it is
marked, the finalizer is taken off exactly if no claim refers to the pool, with an error
otherwise, and nothing but this finalizer is changed.\<close>

theorem pool_protected:
  assumes "lib_ok (pr_lib r)" and "pool_step r (claim_cache store) pool = (pool', e)"
  shows "(p_DeletionTimestamp pool = None \<longrightarrow>
            ProtectPoolFinalizer \<in> set (p_Finalizers pool') \<and> set (p_Finalizers pool) \<subseteq> set (p_Finalizers pool') \<and>
            (ProtectPoolFinalizer \<notin> set (p_Finalizers pool) \<longrightarrow>
               pool' = pool\<lparr>p_Finalizers := p_Finalizers pool @ [ProtectPoolFinalizer]\<rparr> \<and> e = None)) \<and>
         (p_DeletionTimestamp pool \<noteq> None \<longrightarrow>
            (if \<exists>c \<in> set store. refers_to_pool (pr_lib r) pool c then pool' = pool \<and> e \<noteq> None
             else e = None \<and>
               pool' = pool\<lparr>p_Finalizers := filter (\<lambda>g. g \<noteq> ProtectPoolFinalizer) (p_Finalizers pool)\<rparr>))"
proof (cases "p_DeletionTimestamp pool")
  case None
  show ?thesis
  proof (cases "ProtectPoolFinalizer \<in> set (p_Finalizers pool)")
    case True
    then have "pool' = fst (pool_reconcile r pool)"
      using assms(2) pool_step_unmarked [OF assms(1) None] by simp
    then have "p_Finalizers pool' = p_Finalizers pool"
      using pool_reconcile_finalizers [of r pool] by simp
    with None True show ?thesis by simp
  next
    case False
    then show ?thesis
      using assms(2) pool_step_unmarked [OF assms(1) None] None by auto
  qed
next
  case (Some t)
  then have m: "p_DeletionTimestamp pool \<noteq> None" by simp
  show ?thesis
    using assms(2) unfolding pool_step_marked [OF assms(1) m]
    by (auto simp: Some filter_empty_conv split: if_splits)
qed

definition example_pr :: "HostRecord option pool_reconciler" where
  "example_pr =
     \<lparr>pr_lib = example_lib, pr_reader = example_reader, pr_OperatorNamespace = ''system'',
      pr_NewInfobloxClientFunc = (\<lambda>cfg. Inr example_client)\<rparr>"

definition deleted_pool :: InfobloxIPPool where
  "deleted_pool =
     \<lparr>p_Group = ''ipam.cluster.x-k8s.io'', p_Kind = ''InfobloxIPPool'', p_Name = ''p1'', p_Namespace = ''ns'',
      p_Annotations = (\<lambda>_. None), p_Finalizers = [ProtectPoolFinalizer], p_DeletionTimestamp = Some ''now'',
      p_Spec = \<lparr>InstanceRef = ''i1'', Subnets = [\<lparr>CIDR = ''10.0.0.0/24'', Gateway = ''10.0.0.1''\<rparr>],
                NetworkView = [], DNSView = [], DNSZone = []\<rparr>,
      p_Conditions = []\<rparr>"

theorem pool_protected_witness:
  "p_Finalizers (fst (pool_step example_pr (claim_cache []) deleted_pool)) = []"
proof -
  have "pool_step example_pr (claim_cache []) deleted_pool =
      (fst (pool_step example_pr (claim_cache []) deleted_pool),
       snd (pool_step example_pr (claim_cache []) deleted_pool))" by simp
  from pool_protected [OF _ this] show ?thesis
    by (simp add: example_pr_def example_lib_ok deleted_pool_def)
qed

text \<open>C15: A pool is declared ready exactly if everything it needs is there, and else the condition
says what is missing. Let the network view be the pool's or else the instance's default, and the
DNS view the first that is given of the pool's, the instance's default, and the one that
belongs to the network view. With a client for its instance: Ready becomes true if and only if both views and
the network of every subnet exist. Otherwise it becomes false without an error, because of the network
view if that does not exist; else because of the DNS view if that does not; else because of
the network of the first subnet that is not there - unless this subnet does not parse, in which
case the conditions stay and the error is returned. The pool keeps the network view that was
used. Without a client Ready becomes false and the error is returned.\<close>

theorem pool_ready_exact:
  assumes "pool_reconcile r pool = (pool', e)"
    and "getInfobloxClientForInstance (pr_reader r) (InstanceRef (p_Spec pool)) (pr_OperatorNamespace r)
           (pr_NewInfobloxClientFunc r) = c"
  shows "case c of
      Inl err \<Rightarrow> e = Some err \<and>
        (\<exists>msg. pool' = pool_Set (pr_lib r) pool (ready_cond ConditionFalse AuthenticationFailedReason msg))
    | Inr cl \<Rightarrow>
        (let nv = wanted_network_view cl pool;
             viewed = pool\<lparr>p_Spec := (p_Spec pool)\<lparr>NetworkView := nv\<rparr>\<rparr>;
             failed = (\<lambda>reason msg. e = None \<and> pool' = pool_Set (pr_lib r) viewed (ready_cond ConditionFalse reason msg))
         in if pool_exists cl pool
            then e = None \<and> (\<exists>msg. pool' = pool_Set (pr_lib r) viewed (ready_cond ConditionTrue ReadyReason msg))
            else if cl_CheckNetworkViewExists cl nv \<noteq> Inr True
            then failed NetworkViewNotFoundReason (Fmt ''could not find network view %q'' [Text nv])
            else if cl_CheckDNSViewExists cl (wanted_dns_view cl pool) \<noteq> Inr True
            then failed DNSViewNotFoundReason (Fmt ''could not find DNS view %q'' [Text (wanted_dns_view cl pool)])
            else \<exists>pre sub post. Subnets (p_Spec pool) = pre @ sub # post \<and>
                   (\<forall>t \<in> set pre. network_exists cl nv t) \<and> \<not> network_exists cl nv sub \<and>
                   (case ParsePrefix (CIDR sub) of
                      Some p \<Rightarrow> failed NetworkNotFoundReason
                        (Fmt ''could not find network %q in view %q'' [Text (PrefixString p), Text nv])
                    | None \<Rightarrow> e = Some (Wrap ''failed to parse subnet: %w'' (ParseError (CIDR sub))) \<and> pool' = viewed))"
proof (cases c)
  case (Inl err)
  then show ?thesis
    using assms pool_reconcile_no_client [of r pool err] by auto
next
  case (Inr cl)
  with assms(2) have cl: "getInfobloxClientForInstance (pr_reader r) (InstanceRef (p_Spec pool))
      (pr_OperatorNamespace r) (pr_NewInfobloxClientFunc r) = Inr cl" by simp
  let ?sub = "check_subnets cl (wanted_network_view cl pool) (Subnets (p_Spec pool))"
  note r = pool_reconcile_wanted [OF cl] and v = default_network_view_wanted [of cl pool]
  show ?thesis
  proof (cases "?sub = SubnetsOk")
    case True
    with assms(1) Inr show ?thesis by (auto simp: r v pool_exists_alt Let_def split: if_splits)
  next
    case False
    from check_subnets_first [OF this] obtain pre sub post where sub: "Subnets (p_Spec pool) = pre @ sub # post"
      "\<forall>t \<in> set pre. network_exists cl (wanted_network_view cl pool) t"
      "\<not> network_exists cl (wanted_network_view cl pool) sub"
      and res: "?sub = (case ParsePrefix (CIDR sub) of
            None \<Rightarrow> SubnetError (Wrap ''failed to parse subnet: %w'' (ParseError (CIDR sub)))
          | Some p \<Rightarrow> SubnetMissing p)" by blast
    have no: "\<not> pool_exists cl pool" using False by (simp add: pool_exists_alt)
    show ?thesis
    proof (cases "cl_CheckNetworkViewExists cl (wanted_network_view cl pool) = Inr True \<and>
        cl_CheckDNSViewExists cl (wanted_dns_view cl pool) = Inr True")
      case True
      then have "pool_reconcile r pool = (case ParsePrefix (CIDR sub) of
          None \<Rightarrow> (default_network_view cl pool, Some (Wrap ''failed to parse subnet: %w'' (ParseError (CIDR sub))))
        | Some p \<Rightarrow> (pool_Set (pr_lib r) (default_network_view cl pool) (ready_cond ConditionFalse NetworkNotFoundReason
            (Fmt ''could not find network %q in view %q'' [Text (PrefixString p), Text (wanted_network_view cl pool)])), None))"
        using res by (simp add: r Let_def split: option.split)
      with True no sub(2,3) assms(1) Inr show ?thesis
        unfolding sub(1)
        by (cases "ParsePrefix (CIDR sub)") (simp_all add: v Let_def, (intro exI [of _ pre] exI [of _ sub], simp)+)
    next
      case False
      with no assms(1) Inr show ?thesis by (auto simp: r v Let_def split: if_splits)
    qed
  qed
qed

theorem pool_ready_exact_witness:
  "\<exists>msg. pool_reconcile example_pr deleted_pool =
     (pool_Set example_lib (default_network_view example_client deleted_pool)
        (ready_cond ConditionTrue ReadyReason msg), None)"
proof -
  obtain ac where ac: "AuthConfigFromSecretData example_secret = Inr ac" using credentials_of_example by blast
  have c: "getInfobloxClientForInstance (pr_reader example_pr) (InstanceRef (p_Spec deleted_pool))
      (pr_OperatorNamespace example_pr) (pr_NewInfobloxClientFunc example_pr) = Inr example_client"
    using ac by (simp add: client_for_instance_ok example_pr_def example_reader_def)
  have "\<exists>p. ParsePrefix ''10.0.0.0/24'' = Some p"
  proof -
    have "ParsePrefix ''10.0.0.0/24'' = Some (Prefix (V4 0x0A000000) 24)" by code_simp
    then show ?thesis by blast
  qed
  then have "pool_exists example_client deleted_pool"
    by (simp add: pool_exists_def network_exists_def example_client_def example_impl_def infoblox_Client_def deleted_pool_def
        CheckNetworkViewExists_def CheckDNSViewExists_def CheckNetworkExists_def)
  with pool_ready_exact [OF _ c, of "fst (pool_reconcile example_pr deleted_pool)"
      "snd (pool_reconcile example_pr deleted_pool)"] show ?thesis
    by (auto simp: example_pr_def prod_eq_iff default_network_view_wanted Let_def)
qed

end
