(* ===== verification/Hostname.thy ===== *)
theory Hostname
  imports ApiTypes "HOL-Library.Multiset"
begin

text \<open>
  \<open>internal/hostname/resolver.go\<close>: the two resolvers that find the hostname of a claim by following
  owner references, and the order in which the search visits them. The API server's answers
  are a parameter, fixed during one call.
\<close>

subsection \<open>Objects and references\<close>

text \<open>What a resolver reads of an object: its namespace and its owner references.\<close>

record kobject =
  o_Namespace :: string
  o_OwnerReferences :: "OwnerReference list"

definition claim_object :: "IPAddressClaim \<Rightarrow> kobject" where
  "claim_object c = \<lparr>o_Namespace = c_Namespace c, o_OwnerReferences = c_OwnerReferences c\<rparr>"

text \<open>\<open>Get\<close> of an unstructured object: API version, kind, namespace, name.\<close>

type_synonym getter = "string \<Rightarrow> string \<Rightarrow> string \<Rightarrow> string \<Rightarrow> kube_error + kobject"

record GroupVersion =
  gv_Group :: string
  gv_Version :: string

definition apiVersionToGroupVersion :: "string \<Rightarrow> GroupVersion" where
  "apiVersionToGroupVersion apiVersion =
     (let s = Split apiVersion CHR ''/''
      in if length s = 2 then \<lparr>gv_Group = s ! 0, gv_Version = s ! 1\<rparr>
         else \<lparr>gv_Group = [], gv_Version = apiVersion\<rparr>)"

definition matches :: "GroupKind \<Rightarrow> OwnerReference \<Rightarrow> bool" where
  "matches gk r \<longleftrightarrow>
     or_Kind r = gk_Kind gk \<and> gv_Group (apiVersionToGroupVersion (or_APIVersion r)) = gk_Group gk"

definition findOwnerReferenceWithGK :: "kobject \<Rightarrow> GroupKind \<Rightarrow> error + OwnerReference" where
  "findOwnerReferenceWithGK obj gk =
     (case List.find (matches gk) (o_OwnerReferences obj) of
        Some r \<Rightarrow> Inr r
      | None \<Rightarrow> Inl (ErrorText (Fmt (''failed to find owner reference with kind '' @ [CHR 0x27] @ ''%s'' @ [CHR 0x27])
                  [Text (gk_Kind gk), Text (gk_Group gk)])))"

subsection \<open>Following a fixed chain\<close>

fun follow_chain :: "getter \<Rightarrow> kobject \<Rightarrow> GroupKind list \<Rightarrow> error + string" where
  "follow_chain get obj [] = Inl (ErrorText (Text ''failed to follow owner chain''))"
| "follow_chain get obj (c # cs) =
     (case findOwnerReferenceWithGK obj c of
        Inl err \<Rightarrow> Inl (Wrap ''failed to find next owner in chain: %w'' err)
      | Inr ref \<Rightarrow>
          if cs = [] then Inr (or_Name ref)
          else case get (or_APIVersion ref) (or_Kind ref) (o_Namespace obj) (or_Name ref) of
            Inl err \<Rightarrow> Inl (Wrap ''failed to fetch next owner in chain: %w'' (OfKube err))
          | Inr nextObj \<Rightarrow> follow_chain get nextObj cs)"

definition OwnerChain_GetHostname ::
  "getter \<Rightarrow> GroupKind list \<Rightarrow> IPAddressClaim \<Rightarrow> error + string" where
  "OwnerChain_GetHostname get chain claim = follow_chain get (claim_object claim) chain"

subsection \<open>The order of the search\<close>

definition compareRefs :: "OwnerReference \<Rightarrow> OwnerReference \<Rightarrow> int" where
  "compareRefs a b =
     (if Contains (or_Kind b) ''Machine'' then 1
      else if Contains (or_Kind a) ''Machine'' \<or> HasPrefix (or_APIVersion b) ''infrastructure'' then - 1
      else if HasPrefix (or_APIVersion b) ''infrastructure'' then 1
      else 0)"

text \<open>
  \<open>slices.SortFunc\<close> sorts at most twelve elements by insertion: the next element moves left
  while it compares less than its neighbour. The sorted part is kept reversed here. Longer
  slices are sorted by pattern-defeating quicksort, whose result for a comparison that is not
  an order, as this one, is any permutation: it is the parameter \<open>pdq\<close>.
\<close>

fun insert_left :: "('a \<Rightarrow> 'a \<Rightarrow> int) \<Rightarrow> 'a \<Rightarrow> 'a list \<Rightarrow> 'a list" where
  "insert_left cmp x [] = [x]"
| "insert_left cmp x (y # ys) = (if cmp x y < 0 then y # insert_left cmp x ys else x # y # ys)"

definition insertionSort :: "('a \<Rightarrow> 'a \<Rightarrow> int) \<Rightarrow> 'a list \<Rightarrow> 'a list" where
  "insertionSort cmp xs = rev (fold (insert_left cmp) xs [])"

type_synonym sorter = "(OwnerReference \<Rightarrow> OwnerReference \<Rightarrow> int) \<Rightarrow> OwnerReference list \<Rightarrow> OwnerReference list"

definition SortFunc :: "sorter \<Rightarrow> (OwnerReference \<Rightarrow> OwnerReference \<Rightarrow> int) \<Rightarrow> OwnerReference list \<Rightarrow> OwnerReference list" where
  "SortFunc pdq cmp xs = (if length xs \<le> 12 then insertionSort cmp xs else pdq cmp xs)"

subsection \<open>The depth-first search\<close>

record SearchOwnerReferenceResolver =
  MaxDepth :: int
  SearchFor :: GroupKind

text \<open>
  \<open>find\<close> returns a name and an error; an empty name without an error means that nothing was
  found. \<open>search_refs\<close> is its second loop.
\<close>

function find_owner ::
    "sorter \<Rightarrow> getter \<Rightarrow> SearchOwnerReferenceResolver \<Rightarrow> kobject \<Rightarrow> int \<Rightarrow> error + string"
  and search_refs ::
    "sorter \<Rightarrow> getter \<Rightarrow> SearchOwnerReferenceResolver \<Rightarrow> kobject \<Rightarrow> int \<Rightarrow> OwnerReference list \<Rightarrow> error + string"
where
  "find_owner pdq get r obj currentDepth =
     (case List.find (matches (SearchFor r)) (o_OwnerReferences obj) of
        Some ref \<Rightarrow> Inr (or_Name ref)
      | None \<Rightarrow> search_refs pdq get r obj currentDepth
                  (SortFunc pdq compareRefs (o_OwnerReferences obj)))"
| "search_refs pdq get r obj currentDepth [] = Inr []"
| "search_refs pdq get r obj currentDepth (ref # refs) =
     (if currentDepth \<ge> MaxDepth r then search_refs pdq get r obj currentDepth refs
      else case get (or_APIVersion ref) (or_Kind ref) (o_Namespace obj) (or_Name ref) of
        Inl err \<Rightarrow> Inl (OfKube err)
      | Inr obj2 \<Rightarrow>
          (case find_owner pdq get r obj2 (currentDepth + 1) of
             Inl err \<Rightarrow> Inl err
           | Inr name \<Rightarrow> if name \<noteq> [] then Inr name
                         else search_refs pdq get r obj currentDepth refs))"
  by pat_completeness auto
termination
  by (relation "measures
      [\<lambda>x. case x of Inl (_, _, r, _, d) \<Rightarrow> nat (MaxDepth r - d) | Inr (_, _, r, _, d, _) \<Rightarrow> nat (MaxDepth r - d),
       \<lambda>x. case x of Inl _ \<Rightarrow> 1 | Inr _ \<Rightarrow> 0,
       \<lambda>x. case x of Inl _ \<Rightarrow> 0 | Inr (_, _, _, _, _, refs) \<Rightarrow> length refs]") auto

definition Search_GetHostname ::
  "sorter \<Rightarrow> getter \<Rightarrow> SearchOwnerReferenceResolver \<Rightarrow> IPAddressClaim \<Rightarrow> error + string" where
  "Search_GetHostname pdq get r claim =
     (let r = (if MaxDepth r = 0 then r\<lparr>MaxDepth := 5\<rparr> else r)
      in case find_owner pdq get r (claim_object claim) 1 of
           Inl err \<Rightarrow> Inl err
         | Inr name \<Rightarrow>
             if name \<noteq> [] then Inr name
             else Inl (ErrorText (Text ''failed to find owner reference to specified group and kind'')))"

subsection \<open>The sort\<close>

lemma insert_left_skip:
  "(\<forall>y \<in> set ys. cmp x y < 0) \<Longrightarrow> insert_left cmp x (ys @ zs) = ys @ insert_left cmp x zs"
  by (induction ys) auto

lemma insert_left_stop:
  "zs = [] \<or> \<not> cmp x (hd zs) < 0 \<Longrightarrow> insert_left cmp x zs = x # zs"
  by (cases zs) auto

lemma mset_insert_left [simp]: "mset (insert_left cmp x xs) = add_mset x (mset xs)"
  by (induction xs) auto

lemma mset_fold_insert_left: "mset (fold (insert_left cmp) xs acc) = mset xs + mset acc"
  by (induction xs arbitrary: acc) auto

lemma mset_insertionSort [simp]: "mset (insertionSort cmp xs) = mset xs"
  by (simp add: insertionSort_def mset_fold_insert_left)

abbreviation is_machine :: "OwnerReference \<Rightarrow> bool" where
  "is_machine r \<equiv> Contains (or_Kind r) ''Machine''"

abbreviation is_infra :: "OwnerReference \<Rightarrow> bool" where
  "is_infra r \<equiv> HasPrefix (or_APIVersion r) ''infrastructure''"

lemma compareRefs_less_iff:
  "compareRefs a b < 0 \<longleftrightarrow> \<not> is_machine b \<and> (is_machine a \<or> is_infra b)"
  by (simp add: compareRefs_def)

lemma insert_ref:
  assumes "\<forall>y \<in> set ms. is_machine y" and "\<forall>y \<in> set ps. \<not> is_machine y \<and> \<not> is_infra y"
    and "\<forall>y \<in> set is. \<not> is_machine y \<and> is_infra y"
  shows "insert_left compareRefs x (is @ ps @ ms) =
     (if is_machine x then is @ ps @ x # ms else is @ x # ps @ ms)"
proof (cases "is_machine x")
  case True
  then have "insert_left compareRefs x ((is @ ps) @ ms) = (is @ ps) @ insert_left compareRefs x ms"
    using assms by (intro insert_left_skip) (auto simp: compareRefs_less_iff)
  moreover have "insert_left compareRefs x ms = x # ms"
    using assms(1) by (intro insert_left_stop) (cases ms; simp add: compareRefs_less_iff)
  ultimately show ?thesis using True by simp
next
  case False
  then have "insert_left compareRefs x (is @ ps @ ms) = is @ insert_left compareRefs x (ps @ ms)"
    using assms by (intro insert_left_skip) (auto simp: compareRefs_less_iff)
  moreover have "insert_left compareRefs x (ps @ ms) = x # ps @ ms"
    using assms False
    by (intro insert_left_stop) (cases ps; cases ms; simp add: compareRefs_less_iff)
  ultimately show ?thesis using False by simp
qed

lemma insertionSort_refs:
  "insertionSort compareRefs xs =
     filter is_machine xs @ filter (\<lambda>r. \<not> is_machine r \<and> \<not> is_infra r) xs @
     rev (filter (\<lambda>r. \<not> is_machine r \<and> is_infra r) xs)"
proof -
  have "fold (insert_left compareRefs) xs [] =
     filter (\<lambda>r. \<not> is_machine r \<and> is_infra r) xs @
     rev (filter (\<lambda>r. \<not> is_machine r \<and> \<not> is_infra r) xs) @ rev (filter is_machine xs)"
  proof (induction xs rule: rev_induct)
    case Nil
    then show ?case by simp
  next
    case (snoc x xs)
    let ?ms = "rev (filter is_machine xs)"
    let ?ps = "rev (filter (\<lambda>r. \<not> is_machine r \<and> \<not> is_infra r) xs)"
    let ?is = "filter (\<lambda>r. \<not> is_machine r \<and> is_infra r) xs"
    have "insert_left compareRefs x (?is @ ?ps @ ?ms) =
      (if is_machine x then ?is @ ?ps @ x # ?ms else ?is @ x # ?ps @ ?ms)"
      by (rule insert_ref) simp_all
    with snoc show ?case by simp
  qed
  then show ?thesis by (simp add: insertionSort_def)
qed

text \<open>The rank of a reference in this order, as a linear order.\<close>

datatype ref_rank = MachineRank | OtherRank | InfraRank

fun rank_no :: "ref_rank \<Rightarrow> nat" where
  "rank_no MachineRank = 0"
| "rank_no OtherRank = 1"
| "rank_no InfraRank = 2"

lemma rank_no_eq: "rank_no a = rank_no b \<longleftrightarrow> a = b"
  by (cases a; cases b) simp_all

instantiation ref_rank :: linorder
begin

definition less_eq_ref_rank :: "ref_rank \<Rightarrow> ref_rank \<Rightarrow> bool" where
  "less_eq_ref_rank a b \<longleftrightarrow> rank_no a \<le> rank_no b"

definition less_ref_rank :: "ref_rank \<Rightarrow> ref_rank \<Rightarrow> bool" where
  "less_ref_rank a b \<longleftrightarrow> rank_no a < rank_no b"

instance
  by standard (auto simp: less_eq_ref_rank_def less_ref_rank_def rank_no_eq)

end

definition rank_of :: "OwnerReference \<Rightarrow> ref_rank" where
  "rank_of r = (if is_machine r then MachineRank else if is_infra r then InfraRank else OtherRank)"

lemma sorted_const: "\<forall>x \<in> set xs. f x = c \<Longrightarrow> sorted (map f xs)"
  by (induction xs) auto

lemma sorted_ranks: "sorted (map rank_of (insertionSort compareRefs xs))"
  unfolding insertionSort_refs map_append sorted_append
  by (intro conjI sorted_const [of _ _ MachineRank] sorted_const [of _ _ OtherRank]
      sorted_const [of _ _ InfraRank]) (auto simp: rank_of_def less_eq_ref_rank_def)

subsection \<open>Owner paths\<close>

text \<open>
  \<open>owner_path get o n o'\<close>: fetching an owner, then an owner of that, and so on, \<open>n\<close> times, leads
  from \<open>o\<close> to \<open>o'\<close>.
\<close>

inductive owner_path :: "getter \<Rightarrow> kobject \<Rightarrow> nat \<Rightarrow> kobject \<Rightarrow> bool" for get where
  path_here: "owner_path get obj 0 obj"
| path_step: "r \<in> set (o_OwnerReferences obj) \<Longrightarrow>
    get (or_APIVersion r) (or_Kind r) (o_Namespace obj) (or_Name r) = Inr obj2 \<Longrightarrow>
    owner_path get obj2 n obj3 \<Longrightarrow> owner_path get obj (Suc n) obj3"

inductive_simps owner_path_0 [simp]: "owner_path get obj 0 obj2"
inductive_simps owner_path_Suc: "owner_path get obj (Suc n) obj2"
inductive_cases owner_path_0E: "owner_path get obj 0 obj2"
inductive_cases owner_path_SucE: "owner_path get obj (Suc n) obj2"

text \<open>What a resolver promises: a name it returns is the name of an owner, at the end of a path.\<close>

locale hostname_resolver =
  fixes get :: getter
    and start :: "'a \<Rightarrow> kobject"
    and resolve :: "'a \<Rightarrow> error + string"
    and wanted :: "'a \<Rightarrow> GroupKind"
    and depth :: "'a \<Rightarrow> nat"
  assumes sound: "resolve x = Inr name \<Longrightarrow>
    \<exists>n obj r. n \<le> depth x \<and> owner_path get (start x) n obj \<and>
      r \<in> set (o_OwnerReferences obj) \<and> matches (wanted x) r \<and> or_Name r = name"
begin

text \<open>Nothing is invented: if no object on any path has a fitting owner, there is no hostname.\<close>

lemma no_owner_no_name:
  assumes "\<And>n obj r. owner_path get (start x) n obj \<Longrightarrow> r \<in> set (o_OwnerReferences obj) \<Longrightarrow>
             \<not> matches (wanted x) r"
  shows "\<exists>e. resolve x = Inl e"
proof (cases "resolve x")
  case (Inr name)
  with sound assms show ?thesis by blast
qed simp

lemma unique_name:
  assumes "resolve x = Inr name"
    and "\<And>n obj r. n \<le> depth x \<Longrightarrow> owner_path get (start x) n obj \<Longrightarrow>
           r \<in> set (o_OwnerReferences obj) \<Longrightarrow> matches (wanted x) r \<Longrightarrow> or_Name r = h"
  shows "name = h"
  using sound [OF assms(1)] assms(2) by blast

end

subsection \<open>The chain resolver\<close>

lemma find_owner_ref_ok:
  "findOwnerReferenceWithGK obj gk = Inr r \<Longrightarrow> r \<in> set (o_OwnerReferences obj) \<and> matches gk r"
  by (auto simp: findOwnerReferenceWithGK_def find_Some_iff split: option.splits)

lemma follow_chain_sound:
  "follow_chain get obj gks = Inr name \<Longrightarrow>
     \<exists>n obj' r. n = length gks - 1 \<and> owner_path get obj n obj' \<and> r \<in> set (o_OwnerReferences obj') \<and>
       matches (last gks) r \<and> or_Name r = name"
proof (induction get obj gks rule: follow_chain.induct)
  case (1 get obj)
  then show ?case by simp
next
  case (2 get obj c cs)
  then obtain r where f: "findOwnerReferenceWithGK obj c = Inr r"
    by (auto split: sum.splits)
  show ?case
  proof (cases "cs = []")
    case True
    with 2 f show ?thesis using find_owner_ref_ok [OF f] path_here by fastforce
  next
    case False
    with 2 f obtain obj2 where g: "get (or_APIVersion r) (or_Kind r) (o_Namespace obj) (or_Name r) = Inr obj2"
      and n: "follow_chain get obj2 cs = Inr name"
      by (auto split: sum.splits)
    obtain n obj' r' where *: "n = length cs - 1" "owner_path get obj2 n obj'"
      "r' \<in> set (o_OwnerReferences obj')" "matches (last cs) r'" "or_Name r' = name"
      using 2(1) [OF f False g n] by blast
    then have "owner_path get obj (Suc n) obj'"
      using find_owner_ref_ok [OF f] g by (blast intro: path_step)
    moreover have "Suc n = length (c # cs) - 1" using *(1) False by (cases cs) simp_all
    ultimately show ?thesis using * False by (intro exI [of _ "Suc n"]) auto
  qed
qed

interpretation chain: hostname_resolver get "\<lambda>(gks, claim). claim_object claim"
    "\<lambda>(gks, claim). OwnerChain_GetHostname get gks claim" "\<lambda>(gks, claim). last gks"
    "\<lambda>(gks, claim). length gks - 1" for get
  by unfold_locales (use follow_chain_sound in \<open>fastforce simp: OwnerChain_GetHostname_def\<close>)

subsection \<open>The search\<close>

text \<open>What \<open>SortFunc\<close> promises whatever the comparison: a permutation of the slice.\<close>

definition permutes_refs :: "sorter \<Rightarrow> bool" where
  "permutes_refs pdq \<longleftrightarrow> (\<forall>xs. mset (pdq compareRefs xs) = mset xs)"

lemma set_SortFunc: "permutes_refs pdq \<Longrightarrow> set (SortFunc pdq compareRefs xs) = set xs"
  by (metis SortFunc_def mset_insertionSort permutes_refs_def set_mset_mset)

text \<open>A name that is found is the name of an owner at the end of a path within the depth.\<close>

lemma find_sound:
  "find_owner pdq get r obj d = Inr name \<Longrightarrow> permutes_refs pdq \<Longrightarrow> name \<noteq> [] \<Longrightarrow>
     \<exists>n obj' ref. owner_path get obj n obj' \<and> (n = 0 \<or> d + int n \<le> MaxDepth r) \<and>
       ref \<in> set (o_OwnerReferences obj') \<and> matches (SearchFor r) ref \<and> or_Name ref = name"
  "search_refs pdq get r obj d refs = Inr name \<Longrightarrow> permutes_refs pdq \<Longrightarrow> name \<noteq> [] \<Longrightarrow>
     set refs \<subseteq> set (o_OwnerReferences obj) \<Longrightarrow>
     \<exists>n obj' ref. owner_path get obj (Suc n) obj' \<and> d + int (Suc n) \<le> MaxDepth r \<and>
       ref \<in> set (o_OwnerReferences obj') \<and> matches (SearchFor r) ref \<and> or_Name ref = name"
proof (induction pdq get r obj d and pdq get r obj d refs rule: find_owner_search_refs.induct)
  case (1 pdq get r obj d)
  show ?case
  proof (cases "List.find (matches (SearchFor r)) (o_OwnerReferences obj)")
    case None
    with 1 set_SortFunc show ?thesis by fastforce
  next
    case (Some ref)
    then have "ref \<in> set (o_OwnerReferences obj)" "matches (SearchFor r) ref"
      by (auto simp: find_Some_iff)
    with 1(2) Some path_here show ?thesis by fastforce
  qed
next
  case (2 pdq get r obj d)
  then show ?case by simp
next
  case (3 pdq get r obj d ref refs)
  show ?case
  proof (cases "MaxDepth r \<le> d")
    case True
    with 3 show ?thesis by simp
  next
    case False
    with 3(4) obtain obj2 where g: "get (or_APIVersion ref) (or_Kind ref) (o_Namespace obj) (or_Name ref) = Inr obj2"
      by (auto split: sum.splits)
    with False 3(4) obtain nm where nm: "find_owner pdq get r obj2 (d + 1) = Inr nm"
      by (auto split: sum.splits)
    show ?thesis
    proof (cases "nm = []")
      case True
      with 3 False g nm show ?thesis by simp
    next
      case neq: False
      then have "nm = name" using 3(4) False g nm by simp
      then obtain n obj' ref' where *: "owner_path get obj2 n obj'"
        "n = 0 \<or> d + 1 + int n \<le> MaxDepth r" "ref' \<in> set (o_OwnerReferences obj')"
        "matches (SearchFor r) ref'" "or_Name ref' = name"
        using 3(2) [OF False g] nm 3(5,6) by blast
      have "ref \<in> set (o_OwnerReferences obj)" using 3(7) by simp
      then have "owner_path get obj (Suc n) obj'" using g *(1) by (rule path_step)
      moreover have "d + int (Suc n) \<le> MaxDepth r" using *(2) False by auto
      ultimately show ?thesis using * by blast
    qed
  qed
qed

text \<open>An error of the search is the error of a fetch on an owner path within the depth.\<close>

lemma find_error:
  "find_owner pdq get r obj d = Inl e \<Longrightarrow> permutes_refs pdq \<Longrightarrow>
     \<exists>n obj' ref ke. owner_path get obj n obj' \<and> d + int n < MaxDepth r \<and>
       ref \<in> set (o_OwnerReferences obj') \<and> e = OfKube ke \<and>
       get (or_APIVersion ref) (or_Kind ref) (o_Namespace obj') (or_Name ref) = Inl ke"
  "search_refs pdq get r obj d refs = Inl e \<Longrightarrow> permutes_refs pdq \<Longrightarrow>
     set refs \<subseteq> set (o_OwnerReferences obj) \<Longrightarrow>
     \<exists>n obj' ref ke. owner_path get obj n obj' \<and> d + int n < MaxDepth r \<and>
       ref \<in> set (o_OwnerReferences obj') \<and> e = OfKube ke \<and>
       get (or_APIVersion ref) (or_Kind ref) (o_Namespace obj') (or_Name ref) = Inl ke"
proof (induction pdq get r obj d and pdq get r obj d refs rule: find_owner_search_refs.induct)
  case (1 pdq get r obj d)
  then show ?case using set_SortFunc
    by (cases "List.find (matches (SearchFor r)) (o_OwnerReferences obj)") fastforce+
next
  case (2 pdq get r obj d)
  then show ?case by simp
next
  case (3 pdq get r obj d ref refs)
  have ref: "ref \<in> set (o_OwnerReferences obj)" using 3(6) by simp
  show ?case
  proof (cases "MaxDepth r \<le> d")
    case True
    with 3 show ?thesis by simp
  next
    case False
    show ?thesis
    proof (cases "get (or_APIVersion ref) (or_Kind ref) (o_Namespace obj) (or_Name ref)")
      case (Inl ke)
      with False 3(4) ref path_here [of get obj] show ?thesis by fastforce
    next
      case g: (Inr obj2)
      show ?thesis
      proof (cases "find_owner pdq get r obj2 (d + 1)")
        case (Inl e')
        then have "e' = e" using 3(4) False g by simp
        then obtain n obj' ref' ke where *: "owner_path get obj2 n obj'" "d + 1 + int n < MaxDepth r"
          "ref' \<in> set (o_OwnerReferences obj')" "e = OfKube ke"
          "get (or_APIVersion ref') (or_Kind ref') (o_Namespace obj') (or_Name ref') = Inl ke"
          using 3(2) [OF False g] Inl 3(5) by blast
        then have "owner_path get obj (Suc n) obj'" using ref g by (blast intro: path_step)
        with * show ?thesis by (intro exI [of _ "Suc n"]) auto
      next
        case (Inr nm)
        with 3 False g show ?thesis by (cases "nm = []") simp_all
      qed
    qed
  qed
qed

text \<open>
  If nothing is found, there is nothing to be found within the depth. The API server rejects
  owner references without a name, which is what \<open>named\<close> says of every object on a path.
\<close>

definition named :: "getter \<Rightarrow> kobject \<Rightarrow> bool" where
  "named get obj \<longleftrightarrow>
     (\<forall>n obj' ref. owner_path get obj n obj' \<longrightarrow> ref \<in> set (o_OwnerReferences obj') \<longrightarrow> or_Name ref \<noteq> [])"

lemma named_step:
  "named get obj \<Longrightarrow> r \<in> set (o_OwnerReferences obj) \<Longrightarrow>
     get (or_APIVersion r) (or_Kind r) (o_Namespace obj) (or_Name r) = Inr obj2 \<Longrightarrow> named get obj2"
  unfolding named_def by (blast intro: path_step)

lemma find_complete:
  "find_owner pdq get r obj d = Inr [] \<Longrightarrow> permutes_refs pdq \<Longrightarrow> named get obj \<Longrightarrow>
     owner_path get obj n obj' \<Longrightarrow> n = 0 \<or> d + int n \<le> MaxDepth r \<Longrightarrow>
     ref \<in> set (o_OwnerReferences obj') \<Longrightarrow> \<not> matches (SearchFor r) ref"
  "search_refs pdq get r obj d refs = Inr [] \<Longrightarrow> permutes_refs pdq \<Longrightarrow> named get obj \<Longrightarrow>
     set refs \<subseteq> set (o_OwnerReferences obj) \<Longrightarrow> ref0 \<in> set refs \<Longrightarrow>
     get (or_APIVersion ref0) (or_Kind ref0) (o_Namespace obj) (or_Name ref0) = Inr obj0 \<Longrightarrow>
     owner_path get obj0 n obj' \<Longrightarrow> d + 1 + int n \<le> MaxDepth r \<Longrightarrow>
     ref \<in> set (o_OwnerReferences obj') \<Longrightarrow> \<not> matches (SearchFor r) ref"
proof (induction pdq get r obj d and pdq get r obj d refs arbitrary: n obj' ref and ref0 obj0 n obj' ref
    rule: find_owner_search_refs.induct)
  case (1 pdq get r obj d)
  have none: "List.find (matches (SearchFor r)) (o_OwnerReferences obj) = None"
  proof (cases "List.find (matches (SearchFor r)) (o_OwnerReferences obj)")
    case (Some ref1)
    then have "ref1 \<in> set (o_OwnerReferences obj)" by (auto simp: find_Some_iff)
    with 1(4) path_here have "or_Name ref1 \<noteq> []" unfolding named_def by blast
    with 1(2) Some show ?thesis by simp
  qed
  then have s: "search_refs pdq get r obj d (SortFunc pdq compareRefs (o_OwnerReferences obj)) = Inr []"
    using 1(2) by simp
  show ?case
  proof (cases n)
    case 0
    then have "obj' = obj" using 1(5) by (auto elim: owner_path_0E)
    with none 1(7) show ?thesis by (auto simp: find_None_iff)
  next
    case (Suc m)
    then obtain r0 obj0 where r0: "r0 \<in> set (o_OwnerReferences obj)" "owner_path get obj0 m obj'"
      and g: "get (or_APIVersion r0) (or_Kind r0) (o_Namespace obj) (or_Name r0) = Inr obj0"
      using 1(5) by (auto elim: owner_path_SucE)
    have "d + 1 + int m \<le> MaxDepth r" using 1(6) Suc by simp
    from 1(1) [OF none s 1(3,4) _ _ g r0(2) this 1(7)] r0(1) set_SortFunc [OF 1(3)] show ?thesis
      by simp
  qed
next
  case (2 pdq get r obj d)
  then show ?case by simp
next
  case (3 pdq get r obj d refh refs)
  have deep: "\<not> MaxDepth r \<le> d" using 3(11) by simp
  obtain objh where gh: "get (or_APIVersion refh) (or_Kind refh) (o_Namespace obj) (or_Name refh) = Inr objh"
    using 3(4) deep by (auto split: sum.splits)
  have fh: "find_owner pdq get r objh (d + 1) = Inr []"
    using 3(4) deep gh by (auto split: sum.splits if_splits)
  have rest: "search_refs pdq get r obj d refs = Inr []"
    using 3(4) deep gh fh by simp
  show ?case
  proof (cases "ref0 = refh")
    case True
    then have "objh = obj0" using gh 3(9) by simp
    moreover have "named get objh" using named_step [OF 3(6) _ gh] 3(7) by simp
    ultimately show ?thesis using 3(2) [OF deep gh fh 3(5)] 3(10-12) by blast
  next
    case False
    then have "ref0 \<in> set refs" using 3(8) by simp
    moreover have "set refs \<subseteq> set (o_OwnerReferences obj)" using 3(7) by simp
    ultimately show ?thesis
      using 3(3) [OF deep gh fh _ rest 3(5,6) _ _ 3(9-12)] by simp
  qed
qed

text \<open>The search depends only on the fetches of owners less than the depth away.\<close>

definition agree_within :: "getter \<Rightarrow> getter \<Rightarrow> kobject \<Rightarrow> int \<Rightarrow> bool" where
  "agree_within get get' obj k \<longleftrightarrow>
     (\<forall>n obj' ref. owner_path get obj n obj' \<longrightarrow> int n < k \<longrightarrow> ref \<in> set (o_OwnerReferences obj') \<longrightarrow>
        get (or_APIVersion ref) (or_Kind ref) (o_Namespace obj') (or_Name ref) =
        get' (or_APIVersion ref) (or_Kind ref) (o_Namespace obj') (or_Name ref))"

lemma agree_here:
  "agree_within get get' obj k \<Longrightarrow> 0 < k \<Longrightarrow> ref \<in> set (o_OwnerReferences obj) \<Longrightarrow>
     get (or_APIVersion ref) (or_Kind ref) (o_Namespace obj) (or_Name ref) =
     get' (or_APIVersion ref) (or_Kind ref) (o_Namespace obj) (or_Name ref)"
  unfolding agree_within_def using path_here [of get obj] by fastforce

lemma agree_step:
  assumes "agree_within get get' obj k" and "ref \<in> set (o_OwnerReferences obj)"
    and "get (or_APIVersion ref) (or_Kind ref) (o_Namespace obj) (or_Name ref) = Inr obj2"
  shows "agree_within get get' obj2 (k - 1)"
  unfolding agree_within_def
proof (intro allI impI)
  fix n obj' ref'
  assume p: "owner_path get obj2 n obj'" "int n < k - 1" "ref' \<in> set (o_OwnerReferences obj')"
  from assms(2,3) p(1) have "owner_path get obj (Suc n) obj'" by (rule path_step)
  moreover have "int (Suc n) < k" using p(2) by simp
  ultimately show "get (or_APIVersion ref') (or_Kind ref') (o_Namespace obj') (or_Name ref') =
      get' (or_APIVersion ref') (or_Kind ref') (o_Namespace obj') (or_Name ref')"
    using assms(1) p(3) unfolding agree_within_def by blast
qed

lemma find_local:
  "permutes_refs pdq \<Longrightarrow> agree_within get get' obj (MaxDepth r - d) \<Longrightarrow>
     find_owner pdq get' r obj d = find_owner pdq get r obj d"
  "permutes_refs pdq \<Longrightarrow> agree_within get get' obj (MaxDepth r - d) \<Longrightarrow>
     set refs \<subseteq> set (o_OwnerReferences obj) \<Longrightarrow>
     search_refs pdq get' r obj d refs = search_refs pdq get r obj d refs"
proof (induction pdq get r obj d and pdq get r obj d refs rule: find_owner_search_refs.induct)
  case (1 pdq get r obj d)
  then show ?case
    by (cases "List.find (matches (SearchFor r)) (o_OwnerReferences obj)") (simp_all add: set_SortFunc)
next
  case (2 pdq get r obj d)
  then show ?case by simp
next
  case (3 pdq get r obj d ref refs)
  have ref: "ref \<in> set (o_OwnerReferences obj)" using 3(6) by simp
  show ?case
  proof (cases "MaxDepth r \<le> d")
    case True
    with 3 show ?thesis by simp
  next
    case False
    then have same: "get' (or_APIVersion ref) (or_Kind ref) (o_Namespace obj) (or_Name ref) =
        get (or_APIVersion ref) (or_Kind ref) (o_Namespace obj) (or_Name ref)"
      using agree_here [OF 3(5) _ ref] by simp
    show ?thesis
    proof (cases "get (or_APIVersion ref) (or_Kind ref) (o_Namespace obj) (or_Name ref)")
      case (Inl ke)
      with False same show ?thesis by simp
    next
      case g: (Inr obj2)
      have "agree_within get get' obj2 (MaxDepth r - (d + 1))"
        using agree_step [OF 3(5) ref g] by (simp add: algebra_simps)
      then have f: "find_owner pdq get' r obj2 (d + 1) = find_owner pdq get r obj2 (d + 1)"
        using 3(2) [OF False g] 3(4) by simp
      with 3 False g same show ?thesis
        by (cases "find_owner pdq get r obj2 (d + 1)") (auto split: if_splits)
    qed
  qed
qed

locale pdq_sort =
  fixes pdq :: sorter
  assumes permutes: "permutes_refs pdq"
begin

lemma SortFunc_perm: "mset (SortFunc pdq compareRefs xs) = mset xs"
  using permutes by (simp add: SortFunc_def permutes_refs_def)

end

text \<open>The depth that \<open>GetHostname\<close> uses, and the search as a resolver.\<close>

definition effective_depth :: "SearchOwnerReferenceResolver \<Rightarrow> int" where
  "effective_depth r = (if MaxDepth r = 0 then 5 else MaxDepth r)"

lemma Search_GetHostname_eq:
  "Search_GetHostname pdq get r claim =
     (case find_owner pdq get (r\<lparr>MaxDepth := effective_depth r\<rparr>) (claim_object claim) 1 of
        Inl err \<Rightarrow> Inl err
      | Inr name \<Rightarrow>
          if name \<noteq> [] then Inr name
          else Inl (ErrorText (Text ''failed to find owner reference to specified group and kind'')))"
proof -
  have "r\<lparr>MaxDepth := effective_depth r\<rparr> = (if MaxDepth r = 0 then r\<lparr>MaxDepth := 5\<rparr> else r)"
    by (cases r) (simp add: effective_depth_def)
  then show ?thesis by (simp only: Search_GetHostname_def Let_def)
qed

sublocale pdq_sort \<subseteq> search: hostname_resolver get "\<lambda>(r, claim). claim_object claim"
    "\<lambda>(r, claim). Search_GetHostname pdq get r claim" "\<lambda>(r, claim). SearchFor r"
    "\<lambda>(r, claim). nat (effective_depth r - 1)" for get
proof (unfold_locales, clarify)
  fix r claim name
  assume "Search_GetHostname pdq get r claim = Inr name"
  then have "find_owner pdq get (r\<lparr>MaxDepth := effective_depth r\<rparr>) (claim_object claim) 1 = Inr name"
    and "name \<noteq> []"
    by (auto simp: Search_GetHostname_eq split: sum.splits if_splits)
  from find_sound(1) [OF this(1) permutes this(2)] obtain n obj ref
    where *: "owner_path get (claim_object claim) n obj" "n = 0 \<or> 1 + int n \<le> effective_depth r"
      "ref \<in> set (o_OwnerReferences obj)" "matches (SearchFor r) ref" "or_Name ref = name"
    by auto
  from *(2) have "n \<le> nat (effective_depth r - 1)" by auto
  with * show "\<exists>n obj ref. n \<le> nat (effective_depth r - 1) \<and> owner_path get (claim_object claim) n obj \<and>
      ref \<in> set (o_OwnerReferences obj) \<and> matches (SearchFor r) ref \<and> or_Name ref = name"
    by blast
qed

context pdq_sort
begin

lemma found_name:
  assumes "Search_GetHostname pdq get r claim = Inr name"
  shows "\<exists>n obj ref. n \<le> nat (effective_depth r - 1) \<and> owner_path get (claim_object claim) n obj \<and>
           ref \<in> set (o_OwnerReferences obj) \<and> matches (SearchFor r) ref \<and> or_Name ref = name"
  using search.sound [of get "(r, claim)" name] assms by simp

lemma no_owner_error:
  assumes "\<And>n obj ref. owner_path get (claim_object claim) n obj \<Longrightarrow> ref \<in> set (o_OwnerReferences obj) \<Longrightarrow>
             \<not> matches (SearchFor r) ref"
  shows "\<exists>e. Search_GetHostname pdq get r claim = Inl e"
  using search.no_owner_no_name [of get "(r, claim)"] assms by simp

lemma found_unique:
  assumes "Search_GetHostname pdq get r claim = Inr name"
    and "\<And>n obj ref. n \<le> nat (effective_depth r - 1) \<Longrightarrow> owner_path get (claim_object claim) n obj \<Longrightarrow>
           ref \<in> set (o_OwnerReferences obj) \<Longrightarrow> matches (SearchFor r) ref \<Longrightarrow> or_Name ref = h"
  shows "name = h"
  using search.unique_name [of get "(r, claim)" name h] assms by auto

end

text \<open>The sort itself is an instance: inserting every element, however long the slice.\<close>

lemma insertionSort_permutes: "permutes_refs insertionSort"
  by (simp add: permutes_refs_def)

interpretation insertion: pdq_sort insertionSort
  by unfold_locales (rule insertionSort_permutes)

subsection \<open>Properties\<close>

text \<open>C32: For up to twelve owner references, the order of the search is: those whose kind
mentions Machine, in their original order; then those that neither mention Machine nor have
an API version of an infrastructure group, in their original order; then the infrastructure
ones, in reverse; so the ranks machine, other, infrastructure ascend. The comment in the code wants the infrastructure ones before the others;
the comparison puts them last.\<close>

theorem search_order:
  assumes "length refs \<le> 12"
  shows "SortFunc pdq compareRefs refs =
     filter is_machine refs @ filter (\<lambda>r. \<not> is_machine r \<and> \<not> is_infra r) refs @
     rev (filter (\<lambda>r. \<not> is_machine r \<and> is_infra r) refs) \<and>
   sorted (map rank_of (SortFunc pdq compareRefs refs))"
  using assms sorted_ranks [of refs] by (simp add: SortFunc_def insertionSort_refs)

definition ref_of :: "string \<Rightarrow> string \<Rightarrow> string \<Rightarrow> OwnerReference" where
  "ref_of v k n = \<lparr>or_APIVersion = v, or_Kind = k, or_Name = n\<rparr>"

theorem search_order_witness:
  "SortFunc insertionSort compareRefs
     [ref_of ''infrastructure.x/v1'' ''A'' ''a'', ref_of ''v1'' ''B'' ''b'', ref_of ''v1'' ''Machine'' ''m''] =
   [ref_of ''v1'' ''Machine'' ''m'', ref_of ''v1'' ''B'' ''b'', ref_of ''infrastructure.x/v1'' ''A'' ''a'']"
  by (subst search_order [THEN conjunct1]) (simp, code_simp)

text \<open>A cluster for closed examples: the claim is owned by a data object, that by an
infrastructure machine, and that by the machine.\<close>

definition example_get :: getter where
  "example_get v k ns n =
     (if k = ''Data'' then Inr \<lparr>o_Namespace = ns,
        o_OwnerReferences = [ref_of ''infrastructure.cluster.x-k8s.io/v1beta1'' ''Metal3Machine'' ''i1'']\<rparr>
      else if k = ''Metal3Machine'' then Inr \<lparr>o_Namespace = ns,
        o_OwnerReferences = [ref_of ''cluster.x-k8s.io/v1beta1'' ''Machine'' ''m1'']\<rparr>
      else if k = ''Machine'' then Inr \<lparr>o_Namespace = ns, o_OwnerReferences = []\<rparr>
      else Inl (KubeNotFound n))"

definition example_claim :: IPAddressClaim where
  "example_claim =
     \<lparr>c_APIVersion = ''ipam.cluster.x-k8s.io/v1beta2'', c_Name = ''c1'', c_Namespace = ''ns'',
      c_Annotations = None, c_OwnerReferences = [ref_of ''infrastructure.cluster.x-k8s.io/v1beta1'' ''Data'' ''d1''],
      c_PoolRef = \<lparr>ref_APIGroup = ''ipam.cluster.x-k8s.io'', ref_Kind = ''InfobloxIPPool'', ref_Name = ''p1''\<rparr>,
      c_Conditions = []\<rparr>"

definition example_resolver :: SearchOwnerReferenceResolver where
  "example_resolver =
     \<lparr>MaxDepth = 0, SearchFor = \<lparr>gk_Group = ''cluster.x-k8s.io'', gk_Kind = ''Machine''\<rparr>\<rparr>"

lemma example_search: "Search_GetHostname insertionSort example_get example_resolver example_claim = Inr ''m1''"
  by code_simp

text \<open>C28: A hostname that the search returns is not invented: it is the name of an owner
reference of the wanted group and kind, held by an object that at most \<open>MaxDepth - 1\<close> fetches
of owners lead to (five levels if \<open>MaxDepth\<close> is zero), for every order in which the
references are visited.\<close>

theorem search_sound:
  assumes "permutes_refs pdq" and "Search_GetHostname pdq get r claim = Inr name"
  shows "\<exists>n obj ref. n \<le> nat ((if MaxDepth r = 0 then 5 else MaxDepth r) - 1) \<and>
           owner_path get (claim_object claim) n obj \<and> ref \<in> set (o_OwnerReferences obj) \<and>
           or_Kind ref = gk_Kind (SearchFor r) \<and>
           gv_Group (apiVersionToGroupVersion (or_APIVersion ref)) = gk_Group (SearchFor r) \<and>
           or_Name ref = name \<and> name \<noteq> []"
proof -
  have "name \<noteq> []" using assms(2) by (auto simp: Search_GetHostname_eq split: sum.splits if_splits)
  then show ?thesis
    using pdq_sort.found_name [OF pdq_sort.intro [OF assms(1)] assms(2)]
    unfolding matches_def effective_depth_def by blast
qed

theorem search_sound_witness:
  "\<exists>n obj ref. n \<le> nat ((if MaxDepth example_resolver = 0 then 5 else MaxDepth example_resolver) - 1) \<and>
     owner_path example_get (claim_object example_claim) n obj \<and> ref \<in> set (o_OwnerReferences obj) \<and>
     or_Kind ref = gk_Kind (SearchFor example_resolver) \<and>
     gv_Group (apiVersionToGroupVersion (or_APIVersion ref)) = gk_Group (SearchFor example_resolver) \<and>
     or_Name ref = ''m1'' \<and> ''m1'' \<noteq> []"
  by (rule search_sound [OF insertionSort_permutes example_search])

text \<open>C29: The search finds what is there: if the objects on the paths of owners can all be
fetched, and all owner references within the depth that have the wanted group and kind name
one and the same owner, and there is at least one, then the hostname is its name, whatever
the order in which references are visited.\<close>

theorem search_finds:
  assumes "permutes_refs pdq" and "named get (claim_object claim)"
    and "\<And>n obj ref ke. owner_path get (claim_object claim) n obj \<Longrightarrow>
           1 + int n < effective_depth r \<Longrightarrow> ref \<in> set (o_OwnerReferences obj) \<Longrightarrow>
           get (or_APIVersion ref) (or_Kind ref) (o_Namespace obj) (or_Name ref) \<noteq> Inl ke"
    and "\<And>n obj ref. n \<le> nat (effective_depth r - 1) \<Longrightarrow> owner_path get (claim_object claim) n obj \<Longrightarrow>
           ref \<in> set (o_OwnerReferences obj) \<Longrightarrow> matches (SearchFor r) ref \<Longrightarrow> or_Name ref = h"
    and "owner_path get (claim_object claim) n0 obj0" and "n0 \<le> nat (effective_depth r - 1)"
    and "ref0 \<in> set (o_OwnerReferences obj0)" and "matches (SearchFor r) ref0"
  shows "Search_GetHostname pdq get r claim = Inr h"
proof -
  let ?r = "r\<lparr>MaxDepth := effective_depth r\<rparr>"
  obtain name where f: "find_owner pdq get ?r (claim_object claim) 1 = Inr name"
    using find_error(1) [of pdq get ?r "claim_object claim" 1, OF _ assms(1)] assms(3)
    by (cases "find_owner pdq get ?r (claim_object claim) 1") fastforce+
  have "name \<noteq> []"
  proof
    assume "name = []"
    moreover have "n0 = 0 \<or> 1 + int n0 \<le> MaxDepth ?r" using assms(6) by auto
    ultimately have "\<not> matches (SearchFor ?r) ref0"
      using find_complete(1) [of pdq get ?r "claim_object claim" 1, OF _ assms(1,2,5) _ assms(7)] f by simp
    with assms(8) show False by simp
  qed
  with f have "Search_GetHostname pdq get r claim = Inr name" by (simp add: Search_GetHostname_eq)
  moreover have "name = h"
    by (rule pdq_sort.found_unique [OF pdq_sort.intro [OF assms(1)] calculation assms(4)])
  ultimately show ?thesis by simp
qed

lemma example_paths:
  assumes "owner_path example_get (claim_object example_claim) n obj"
  shows "(n, o_OwnerReferences obj) \<in>
     {(0, [ref_of ''infrastructure.cluster.x-k8s.io/v1beta1'' ''Data'' ''d1'']),
      (1, [ref_of ''infrastructure.cluster.x-k8s.io/v1beta1'' ''Metal3Machine'' ''i1'']),
      (2, [ref_of ''cluster.x-k8s.io/v1beta1'' ''Machine'' ''m1'']), (3, [])}"
proof -
  consider "n = 0" | "n = Suc 0" | "n = Suc (Suc 0)" | "n = Suc (Suc (Suc 0))"
    | k where "n = Suc (Suc (Suc (Suc k)))"
    by (metis not0_implies_Suc)
  then show ?thesis
    using assms
    by cases (auto simp: owner_path_Suc claim_object_def example_claim_def example_get_def ref_of_def)
qed

theorem search_finds_witness:
  "Search_GetHostname insertionSort example_get example_resolver example_claim = Inr ''m1''"
proof (rule search_finds [OF insertionSort_permutes])
  show "named example_get (claim_object example_claim)"
    unfolding named_def by (auto dest!: example_paths simp: ref_of_def)
next
  fix n obj ref ke
  assume "owner_path example_get (claim_object example_claim) n obj" "ref \<in> set (o_OwnerReferences obj)"
  then show "example_get (or_APIVersion ref) (or_Kind ref) (o_Namespace obj) (or_Name ref) \<noteq> Inl ke"
    by (auto dest!: example_paths simp: ref_of_def example_get_def)
next
  fix n obj ref
  assume "owner_path example_get (claim_object example_claim) n obj" "ref \<in> set (o_OwnerReferences obj)"
    and "matches (SearchFor example_resolver) ref"
  then show "or_Name ref = ''m1''"
    by (auto dest!: example_paths simp: ref_of_def matches_def example_resolver_def)
next
  show "owner_path example_get (claim_object example_claim) 2
     \<lparr>o_Namespace = ''ns'', o_OwnerReferences = [ref_of ''cluster.x-k8s.io/v1beta1'' ''Machine'' ''m1'']\<rparr>"
    by (simp add: numeral_2_eq_2 owner_path_Suc claim_object_def example_claim_def example_get_def ref_of_def)
next
  show "matches (SearchFor example_resolver) (ref_of ''cluster.x-k8s.io/v1beta1'' ''Machine'' ''m1'')"
    by code_simp
qed (simp_all add: effective_depth_def example_resolver_def)

text \<open>When the search fails, it is because nothing was found, or with the unchanged error of
fetching an owner that lies on a path within the depth: no other error and no lost one.\<close>

theorem search_error:
  assumes "permutes_refs pdq" and "Search_GetHostname pdq get r claim = Inl e"
  shows "e = ErrorText (Text ''failed to find owner reference to specified group and kind'') \<or>
         (\<exists>n obj ref ke. owner_path get (claim_object claim) n obj \<and> 1 + int n < effective_depth r \<and>
            ref \<in> set (o_OwnerReferences obj) \<and> e = OfKube ke \<and>
            get (or_APIVersion ref) (or_Kind ref) (o_Namespace obj) (or_Name ref) = Inl ke)"
proof (cases "find_owner pdq get (r\<lparr>MaxDepth := effective_depth r\<rparr>) (claim_object claim) 1")
  case (Inl e')
  with assms(2) have "e' = e" by (simp add: Search_GetHostname_eq)
  with find_error(1) [OF Inl assms(1)] show ?thesis by simp
next
  case (Inr name)
  with assms(2) show ?thesis by (simp add: Search_GetHostname_eq split: if_splits)
qed

theorem search_error_witness:
  "(OfKube (KubeNotFound ''d1'') = ErrorText (Text ''failed to find owner reference to specified group and kind'') \<or>
    (\<exists>n obj ref ke. owner_path (\<lambda>v k ns n. Inl (KubeNotFound n)) (claim_object example_claim) n obj \<and>
       1 + int n < effective_depth example_resolver \<and> ref \<in> set (o_OwnerReferences obj) \<and>
       OfKube (KubeNotFound ''d1'') = OfKube ke \<and>
       Inl (KubeNotFound (or_Name ref)) = (Inl ke :: kube_error + kobject)))"
  by (rule search_error [OF insertionSort_permutes]) code_simp

text \<open>C30: The search ends, also on an owner graph with cycles, since it looks only so far: if two
API servers answer alike the fetches of owner references held by objects that fewer than
\<open>MaxDepth - 1\<close> fetches lead to, then the outcome, name or error, is the same, whatever they
answer beyond that.\<close>

theorem search_depth_bounded:
  assumes "permutes_refs pdq"
    and "\<And>n obj ref. owner_path get (claim_object claim) n obj \<Longrightarrow>
           int n < (if MaxDepth r = 0 then 5 else MaxDepth r) - 1 \<Longrightarrow> ref \<in> set (o_OwnerReferences obj) \<Longrightarrow>
           get (or_APIVersion ref) (or_Kind ref) (o_Namespace obj) (or_Name ref) =
           get' (or_APIVersion ref) (or_Kind ref) (o_Namespace obj) (or_Name ref)"
  shows "Search_GetHostname pdq get' r claim = Search_GetHostname pdq get r claim"
proof -
  have "agree_within get get' (claim_object claim) (effective_depth r - 1)"
    unfolding agree_within_def effective_depth_def using assms(2) by blast
  then show ?thesis
    using find_local(1) [OF assms(1), of get get' "claim_object claim" "r\<lparr>MaxDepth := effective_depth r\<rparr>" 1]
    by (simp add: Search_GetHostname_eq)
qed

text \<open>A cluster in which every object is its own owner.\<close>

definition cyclic_get :: "kube_error \<Rightarrow> getter" where
  "cyclic_get e v k ns n =
     (if ns = ''ns'' then Inr \<lparr>o_Namespace = ''ns'', o_OwnerReferences = [ref_of v k n]\<rparr> else Inl e)"

lemma cyclic_paths: "owner_path (cyclic_get e) obj n obj' \<Longrightarrow> o_Namespace obj = ''ns'' \<Longrightarrow> o_Namespace obj' = ''ns''"
  by (induction rule: owner_path.induct) (auto simp: cyclic_get_def split: if_splits)

theorem search_depth_bounded_witness:
  "Search_GetHostname insertionSort (cyclic_get (KubeError ''e2'')) example_resolver example_claim =
   Search_GetHostname insertionSort (cyclic_get (KubeError ''e1'')) example_resolver example_claim"
proof (rule search_depth_bounded [OF insertionSort_permutes])
  fix n obj and ref :: OwnerReference
  assume "owner_path (cyclic_get (KubeError ''e1'')) (claim_object example_claim) n obj"
  then have "o_Namespace obj = ''ns''"
    by (rule cyclic_paths) (simp add: claim_object_def example_claim_def)
  then show "cyclic_get (KubeError ''e1'') (or_APIVersion ref) (or_Kind ref) (o_Namespace obj) (or_Name ref) =
      cyclic_get (KubeError ''e2'') (or_APIVersion ref) (or_Kind ref) (o_Namespace obj) (or_Name ref)"
    by (simp add: cyclic_get_def)
qed

text \<open>The chain resolver returns the name of an owner of exactly the last group and kind of
the chain, on the object that one fetch for each earlier element of the chain leads to.\<close>

theorem chain_sound:
  assumes "OwnerChain_GetHostname get gks claim = Inr name"
  shows "\<exists>obj r. owner_path get (claim_object claim) (length gks - 1) obj \<and>
           r \<in> set (o_OwnerReferences obj) \<and> matches (last gks) r \<and> or_Name r = name"
  using follow_chain_sound [of get "claim_object claim" gks name] assms
  by (auto simp: OwnerChain_GetHostname_def)

theorem chain_sound_witness:
  "\<exists>obj r. owner_path example_get (claim_object example_claim) (length
       [\<lparr>gk_Group = ''infrastructure.cluster.x-k8s.io'', gk_Kind = ''Data''\<rparr>,
        \<lparr>gk_Group = ''infrastructure.cluster.x-k8s.io'', gk_Kind = ''Metal3Machine''\<rparr>] - 1) obj \<and>
     r \<in> set (o_OwnerReferences obj) \<and>
     matches (last [\<lparr>gk_Group = ''infrastructure.cluster.x-k8s.io'', gk_Kind = ''Data''\<rparr>,
        \<lparr>gk_Group = ''infrastructure.cluster.x-k8s.io'', gk_Kind = ''Metal3Machine''\<rparr>]) r \<and>
     or_Name r = ''i1''"
  by (rule chain_sound) code_simp

end
