(* ===== verification/ClaimController.thy ===== *)
theory ClaimController
  imports PoolController Hostname
begin

text \<open>
  \<open>internal/controllers/ipaddressclaim.go\<close>: the handler of a claim, which fetches the pool, ensures
  that the claim has an address and releases it. The reconciler that calls it is the generic
  one of the in-cluster IPAM provider, a library. The result \<open>ctrl.Result\<close> is nil on every path.
\<close>

definition hostnameAnnotation :: string where
  "hostnameAnnotation = ''ipam.cluster.x-k8s.io/hostname''"

subsection \<open>The handler\<close>

text \<open>
  What the handler is given: the libraries, the reads of the API server, among them those of
  unstructured owners, the sort of the search, and the constructor of clients.
\<close>

record 's claim_env =
  ce_lib :: kube_lib
  ce_reader :: kube_reader
  ce_get :: getter
  ce_pdq :: sorter
  ce_newInfobloxClientFunc :: "Config \<Rightarrow> error + 's ib_client"
  ce_operatorNamespace :: string

text \<open>Its state: the claim, and the pool and client once they are fetched (nil before).\<close>

record 's claim_handler =
  h_claim :: IPAddressClaim
  h_pool :: "InfobloxIPPool option"
  h_ibclient :: "'s ib_client option"

definition ClaimHandlerFor :: "IPAddressClaim \<Rightarrow> 's claim_handler" where
  "ClaimHandlerFor claim = \<lparr>h_claim = claim, h_pool = None, h_ibclient = None\<rparr>"

definition GetPool :: "'s claim_handler \<Rightarrow> InfobloxIPPool option" where
  "GetPool h = h_pool h"

definition claim_Set :: "kube_lib \<Rightarrow> IPAddressClaim \<Rightarrow> condition \<Rightarrow> IPAddressClaim" where
  "claim_Set L c cond = c\<lparr>c_Conditions := lib_Set L (c_Conditions c) cond\<rparr>"

definition empty_pool :: InfobloxIPPool where
  "empty_pool =
     \<lparr>p_Group = [], p_Kind = [], p_Name = [], p_Namespace = [], p_Annotations = (\<lambda>_. None),
      p_Finalizers = [], p_DeletionTimestamp = None,
      p_Spec = \<lparr>InstanceRef = [], Subnets = [], NetworkView = [], DNSView = [], DNSZone = []\<rparr>,
      p_Conditions = []\<rparr>"

subsection \<open>Fetching the pool\<close>

text \<open>The handler afterwards, whether a pool is returned, and the error.\<close>

definition FetchPool ::
  "'s claim_env \<Rightarrow> 's claim_handler \<Rightarrow> 's claim_handler \<times> InfobloxIPPool option \<times> error option" where
  "FetchPool env h =
     (case get_Pool (ce_reader env) (c_Namespace (h_claim h)) (ref_Name (c_PoolRef (h_claim h))) of
        Inl err \<Rightarrow>
          (h\<lparr>h_pool := Some empty_pool\<rparr>, None,
           Some (if IsNotFound err
                 then Wrap ''pool not found: %w'' (ErrorText (Text ''pool could not be found''))
                 else Wrap ''failed to fetch pool: %w'' (OfKube err)))
      | Inr pool \<Rightarrow>
          (let h = h\<lparr>h_pool := Some pool\<rparr>
           in if lib_IsFalse (ce_lib env) (pool_GetConditions pool) ReadyCondition
              then (h\<lparr>h_claim := claim_Set (ce_lib env) (h_claim h)
                       (ready_cond ConditionFalse PoolNotReadyReason (Text ''the referenced pool is not ready''))\<rparr>,
                    Some pool, Some (ErrorText (Text ''pool not ready'')))
              else case getInfobloxClientForInstance (ce_reader env) (InstanceRef (p_Spec pool))
                          (ce_operatorNamespace env) (ce_newInfobloxClientFunc env) of
                Inl err \<Rightarrow> (h\<lparr>h_ibclient := None\<rparr>, Some pool,
                            Some (Wrap ''failed to get infoblox client: %w'' err))
              | Inr cl \<Rightarrow> (h\<lparr>h_ibclient := Some cl\<rparr>, Some pool, None)))"

subsection \<open>The hostname\<close>

definition getHostnameResolver :: "error + SearchOwnerReferenceResolver" where
  "getHostnameResolver =
     Inr \<lparr>MaxDepth = 5, SearchFor = \<lparr>gk_Group = ''cluster.x-k8s.io'', gk_Kind = ''Machine''\<rparr>\<rparr>"

text \<open>Reading a key of a map that may be nil.\<close>

definition annotation :: "IPAddressClaim \<Rightarrow> string \<Rightarrow> string" where
  "annotation c k = (case c_Annotations c of None \<Rightarrow> [] | Some m \<Rightarrow> map_get m k)"

definition getHostname :: "'s claim_env \<Rightarrow> 's claim_handler \<Rightarrow> error + string" where
  "getHostname env h =
     (let hostName = annotation (h_claim h) hostnameAnnotation
      in if hostName \<noteq> [] then Inr hostName
         else case h_pool h of
           None \<Rightarrow> Inl (Panic ''nil pointer dereference: h.pool'')
         | Some pool \<Rightarrow>
             if DNSZone (p_Spec pool) = [] then Inr (c_Name (h_claim h))
             else
               (case getHostnameResolver of
                  Inl err \<Rightarrow> Inl (Wrap ''failed to create hostname handler: %w'' err)
                | Inr hostnameHandler \<Rightarrow>
                    (case Search_GetHostname (ce_pdq env) (ce_get env) hostnameHandler (h_claim h) of
                       Inl err \<Rightarrow> Inl err
                     | Inr hostName \<Rightarrow>
                         if DNSZone (p_Spec pool) \<noteq> [] then Inr (hostName @ ''.'' @ DNSZone (p_Spec pool))
                         else Inr hostName)))"

text \<open>The annotation is stored even if the check of the zone fails afterwards.\<close>

definition ensureHostname ::
  "'s claim_env \<Rightarrow> 's claim_handler \<Rightarrow> 's claim_handler \<times> (error + string)" where
  "ensureHostname env h =
     (case getHostname env h of
        Inl err \<Rightarrow> (h, Inl (wrap_call ''failed to get hostname: %w'' err))
      | Inr hostname \<Rightarrow>
          (let m = (case c_Annotations (h_claim h) of None \<Rightarrow> (\<lambda>_. None) | Some m \<Rightarrow> m);
               h = h\<lparr>h_claim := (h_claim h)\<lparr>c_Annotations := Some (m(hostnameAnnotation \<mapsto> hostname))\<rparr>\<rparr>
           in case h_pool h of
                None \<Rightarrow> (h, Inl (Panic ''nil pointer dereference: h.pool''))
              | Some pool \<Rightarrow>
                  if \<not> HasSuffix hostname (DNSZone (p_Spec pool))
                  then (h, Inl (ErrorText (Fmt ''hostname %q must have DNS zone %q as suffix''
                              [Text hostname, Text (DNSZone (p_Spec pool))])))
                  else (h, Inr hostname)))"

subsection \<open>Ensuring an address\<close>

text \<open>
  The loop over the subnets: the first allocation that succeeds, or all errors. The client is
  used, and so dereferenced, only for a subnet that parses.
\<close>

datatype alloc_result = Allocated addr prefix Subnet | NotAllocated "error list" | AllocPanic string

fun allocate_loop ::
  "InfobloxIPPool \<Rightarrow> 's ib_client option \<Rightarrow> string \<Rightarrow> Subnet list \<Rightarrow> error list \<Rightarrow> 's \<Rightarrow> alloc_result \<times> 's" where
  "allocate_loop pool cl hostName [] errs s = (NotAllocated errs, s)"
| "allocate_loop pool cl hostName (sub # subs) errs s =
     (case ParsePrefix (CIDR sub) of
        None \<Rightarrow> allocate_loop pool cl hostName subs errs s
      | Some subnet \<Rightarrow>
          (case cl of
             None \<Rightarrow> (AllocPanic ''nil pointer dereference: h.ibclient'', s)
           | Some ibclient \<Rightarrow>
               (let dnsView = determineDNSView (DNSView (p_Spec pool))
                      (hc_DefaultDNSView (cl_GetHostConfig ibclient)) (NetworkView (p_Spec pool))
                in case cl_GetOrAllocateAddress ibclient (NetworkView (p_Spec pool)) dnsView subnet hostName
                          (DNSZone (p_Spec pool)) s of
                     (Inl err, s1) \<Rightarrow>
                       (case panic_of err of
                          Some msg \<Rightarrow> (AllocPanic msg, s1)
                        | None \<Rightarrow> allocate_loop pool cl hostName subs (errs @ [err]) s1)
                   | (Inr allocatedAddr, s1) \<Rightarrow> (Allocated allocatedAddr subnet sub, s1))))"

definition EnsureAddress ::
  "'s claim_env \<Rightarrow> 's claim_handler \<Rightarrow> IPAddress \<Rightarrow> 's \<Rightarrow>
     ('s claim_handler \<times> IPAddress \<times> error option) \<times> 's" where
  "EnsureAddress env h address s =
     (case ensureHostname env h of
        (h1, Inl err) \<Rightarrow> ((h1, address, Some err), s)
      | (h1, Inr hostName) \<Rightarrow>
          (case h_pool h1 of
             None \<Rightarrow> ((h1, address, Some (Panic ''nil pointer dereference: h.pool'')), s)
           | Some pool \<Rightarrow>
               (case allocate_loop pool (h_ibclient h1) hostName (Subnets (p_Spec pool)) [] s of
                  (AllocPanic msg, s1) \<Rightarrow> ((h1, address, Some (Panic msg)), s1)
                | (Allocated allocatedAddr subnet sub, s1) \<Rightarrow>
                    ((h1\<lparr>h_claim := claim_Set (ce_lib env) (h_claim h1)
                           (ready_cond ConditionTrue AddressAllocatedReason (Text []))\<rparr>,
                      address\<lparr>a_Address := AddrString allocatedAddr,
                              a_Prefix := Some (of_nat (Bits subnet)),
                              a_Gateway := Gateway sub\<rparr>, None), s1)
                | (NotAllocated errs, s1) \<Rightarrow>
                    (let err = (if length errs > 0 then Joined errs
                                else ErrorText (Text ''no (valid) subnets in IPPool''))
                     in ((h1\<lparr>h_claim := claim_Set (ce_lib env) (h_claim h1)
                               (ready_cond ConditionFalse AllocationFailedReason (Error err))\<rparr>,
                          address, Some err), s1)))))"

subsection \<open>Releasing\<close>

text \<open>The loop over the subnets: errors are logged and dropped. A result is a panic.\<close>

fun release_loop ::
  "InfobloxIPPool \<Rightarrow> 's ib_client option \<Rightarrow> string \<Rightarrow> Subnet list \<Rightarrow> 's \<Rightarrow> string option \<times> 's" where
  "release_loop pool cl hostName [] s = (None, s)"
| "release_loop pool cl hostName (sub # subs) s =
     (case ParsePrefix (CIDR sub) of
        None \<Rightarrow> release_loop pool cl hostName subs s
      | Some subnet \<Rightarrow>
          (case cl of
             None \<Rightarrow> (Some ''nil pointer dereference: h.ibclient'', s)
           | Some ibclient \<Rightarrow>
               (let dnsView = determineDNSView (DNSView (p_Spec pool))
                      (hc_DefaultDNSView (cl_GetHostConfig ibclient)) (NetworkView (p_Spec pool))
                in case cl_ReleaseAddress ibclient (NetworkView (p_Spec pool)) dnsView subnet hostName s of
                     (Some err, s1) \<Rightarrow>
                       (case panic_of err of
                          Some msg \<Rightarrow> (Some msg, s1)
                        | None \<Rightarrow> release_loop pool cl hostName subs s1)
                   | (None, s1) \<Rightarrow> release_loop pool cl hostName subs s1)))"

definition Handler_ReleaseAddress ::
  "'s claim_env \<Rightarrow> 's claim_handler \<Rightarrow> 's \<Rightarrow> error option \<times> 's" where
  "Handler_ReleaseAddress env h s =
     (case getHostname env h of
        Inl err \<Rightarrow> (Some (wrap_call ''failed to get hostname: %w'' err), s)
      | Inr hostName \<Rightarrow>
          (case h_pool h of
             None \<Rightarrow> (Some (Panic ''nil pointer dereference: h.pool''), s)
           | Some pool \<Rightarrow>
               if length (Subnets (p_Spec pool)) = 0
               then (Some (ErrorText (Text ''no subnets found in pool or pool not found'')), s)
               else (case release_loop pool (h_ibclient h) hostName (Subnets (p_Spec pool)) s of
                       (Some msg, s1) \<Rightarrow> (Some (Panic msg), s1)
                     | (None, s1) \<Rightarrow> (None, s1))))"

subsection \<open>Facts about the loops\<close>

text \<open>The DNS view that the handler asks for.\<close>

definition handler_view :: "InfobloxIPPool \<Rightarrow> 's ib_client \<Rightarrow> string" where
  "handler_view pool cl =
     determineDNSView (DNSView (p_Spec pool)) (hc_DefaultDNSView (cl_GetHostConfig cl)) (NetworkView (p_Spec pool))"

lemma allocate_loop_Allocated:
  "allocate_loop pool (Some cl) hn subs errs s = (Allocated a p sub, s') \<Longrightarrow>
     \<exists>pre post s0. subs = pre @ sub # post \<and> ParsePrefix (CIDR sub) = Some p \<and>
       cl_GetOrAllocateAddress cl (NetworkView (p_Spec pool)) (handler_view pool cl) p hn
         (DNSZone (p_Spec pool)) s0 = (Inr a, s')"
proof (induction subs arbitrary: errs s)
  case Nil
  then show ?case by simp
next
  case (Cons sb subs)
  show ?case
  proof (cases "ParsePrefix (CIDR sb)")
    case None
    with Cons.prems Cons.IH obtain pre post s0 where "subs = pre @ sub # post"
      "ParsePrefix (CIDR sub) = Some p"
      "cl_GetOrAllocateAddress cl (NetworkView (p_Spec pool)) (handler_view pool cl) p hn
         (DNSZone (p_Spec pool)) s0 = (Inr a, s')"
      by fastforce
    then show ?thesis by (intro exI [of _ "sb # pre"] exI [of _ post] exI [of _ s0]) simp
  next
    case (Some q)
    obtain r s1 where g: "cl_GetOrAllocateAddress cl (NetworkView (p_Spec pool)) (handler_view pool cl) q hn
        (DNSZone (p_Spec pool)) s = (r, s1)" by (cases "cl_GetOrAllocateAddress cl (NetworkView (p_Spec pool)) (handler_view pool cl) q hn
        (DNSZone (p_Spec pool)) s")
    show ?thesis
    proof (cases r)
      case (Inl err)
      with Cons.prems Some g have "allocate_loop pool (Some cl) hn subs (errs @ [err]) s1 = (Allocated a p sub, s')"
        by (auto simp: handler_view_def split: option.splits)
      from Cons.IH [OF this] obtain pre post s0 where "subs = pre @ sub # post"
        "ParsePrefix (CIDR sub) = Some p"
        "cl_GetOrAllocateAddress cl (NetworkView (p_Spec pool)) (handler_view pool cl) p hn
           (DNSZone (p_Spec pool)) s0 = (Inr a, s')"
        by blast
      then show ?thesis by (intro exI [of _ "sb # pre"] exI [of _ post] exI [of _ s0]) simp
    next
      case (Inr b)
      with Cons.prems Some g have "sub = sb" "p = q" "a = b" "s' = s1"
        by (simp_all add: handler_view_def)
      with Some g Inr show ?thesis by (intro exI [of _ "[]"] exI [of _ subs] exI [of _ s]) simp
    qed
  qed
qed

text \<open>Every subnet that parses contributes one error, if none can be allocated from.\<close>

lemma allocate_loop_NotAllocated:
  "allocate_loop pool (Some cl) hn subs errs s = (NotAllocated errs', s') \<Longrightarrow>
     \<exists>es. errs' = errs @ es \<and>
       length es = length (filter (\<lambda>sub. ParsePrefix (CIDR sub) \<noteq> None) subs)"
proof (induction subs arbitrary: errs s)
  case Nil
  then show ?case by simp
next
  case (Cons sb subs)
  show ?case
  proof (cases "ParsePrefix (CIDR sb)")
    case None
    with Cons show ?thesis by simp
  next
    case (Some q)
    with Cons.prems obtain err s1 where "allocate_loop pool (Some cl) hn subs (errs @ [err]) s1 = (NotAllocated errs', s')"
      by (auto simp: Let_def split: prod.splits sum.splits option.splits)
    from Cons.IH [OF this] Some show ?thesis by auto
  qed
qed

text \<open>With a client that does not panic on release, the loop releases in every subnet.\<close>

definition release_states :: "InfobloxIPPool \<Rightarrow> 's ib_client \<Rightarrow> string \<Rightarrow> prefix list \<Rightarrow> 's \<Rightarrow> 's" where
  "release_states pool cl hn ps s =
     fold (\<lambda>p s. snd (cl_ReleaseAddress cl (NetworkView (p_Spec pool)) (handler_view pool cl) p hn s)) ps s"

context infoblox_client
begin

lemma release_loop_all:
  "release_loop pool (Some cl) hn subs s =
     (None, release_states pool cl hn (List.map_filter (\<lambda>sub. ParsePrefix (CIDR sub)) subs) s)"
proof (induction subs arbitrary: s)
  case Nil
  then show ?case by (simp add: release_states_def map_filter_simps)
next
  case (Cons sb subs)
  show ?case
  proof (cases "ParsePrefix (CIDR sb)")
    case None
    with Cons show ?thesis by (simp add: map_filter_simps)
  next
    case (Some q)
    obtain r s1 where g: "cl_ReleaseAddress cl (NetworkView (p_Spec pool)) (handler_view pool cl) q hn s = (r, s1)"
      by (cases "cl_ReleaseAddress cl (NetworkView (p_Spec pool)) (handler_view pool cl) q hn s")
    have "panic_of e = None" if "r = Some e" for e
      using release_no_panic g that by (cases "panic_of e") auto
    with Some g Cons show ?thesis
      by (cases r) (simp_all add: map_filter_simps release_states_def handler_view_def)
  qed
qed

end

subsection \<open>Facts about the hostname\<close>

lemma getHostname_annotated:
  "annotation (h_claim h) hostnameAnnotation = hn \<Longrightarrow> hn \<noteq> [] \<Longrightarrow> getHostname env h = Inr hn"
  by (simp add: getHostname_def)

lemma annotation_stored [simp]:
  "annotation (c\<lparr>c_Annotations := Some (m(k \<mapsto> v))\<rparr>) k = v"
  by (simp add: annotation_def map_get_def)

lemma annotation_claim_Set [simp]: "annotation (claim_Set L c cond) k = annotation c k"
  by (simp add: annotation_def claim_Set_def)

lemma ensureHostname_ok:
  assumes "ensureHostname env h = (h1, Inr hn)"
  shows "getHostname env h = Inr hn \<and> annotation (h_claim h1) hostnameAnnotation = hn \<and>
         h_pool h1 = h_pool h \<and> h_ibclient h1 = h_ibclient h \<and>
         (\<exists>pool. h_pool h = Some pool \<and> HasSuffix hn (DNSZone (p_Spec pool)))"
  using assms by (auto simp: ensureHostname_def Let_def split: sum.splits option.splits if_splits)

lemma EnsureAddress_ok:
  assumes "EnsureAddress env h address s = ((h', address', None), s')"
  obtains h1 hn pool a p sub where "ensureHostname env h = (h1, Inr hn)" "h_pool h = Some pool"
    "allocate_loop pool (h_ibclient h) hn (Subnets (p_Spec pool)) [] s = (Allocated a p sub, s')"
    "address' = address\<lparr>a_Address := AddrString a, a_Prefix := Some (of_nat (Bits p)), a_Gateway := Gateway sub\<rparr>"
    "h' = h1\<lparr>h_claim := claim_Set (ce_lib env) (h_claim h1) (ready_cond ConditionTrue AddressAllocatedReason (Text []))\<rparr>"
proof -
  obtain h1 r where e: "ensureHostname env h = (h1, r)" by (cases "ensureHostname env h")
  with assms obtain hn where r: "r = Inr hn" by (auto simp: EnsureAddress_def split: sum.splits)
  with e ensureHostname_ok obtain pool where p: "h_pool h = Some pool" "h_pool h1 = Some pool"
    "h_ibclient h1 = h_ibclient h" by fastforce
  show thesis
    using assms e r p that
    by (auto simp: EnsureAddress_def Let_def split: prod.splits alloc_result.splits if_splits)
qed

lemma prefix_bits_word:
  assumes "prefix_ok p"
  shows "unat (of_nat (Bits p) :: 32 word) = Bits p"
proof -
  have "Bits p \<le> 128" using assms by (cases "PrefixAddr p") (auto simp: prefix_ok_def)
  then show ?thesis by (simp add: unat_of_nat)
qed

end
