(* ===== verification/Requests.thy ===== *)
theory Requests
  imports ClaimController
begin

text \<open>
  How many requests the provider sends to the appliance. A connector is wrapped so that it counts
  the requests in the state it passes on; nothing else changes, and the counts are bounded.
\<close>

subsection \<open>The counting connector\<close>

definition counted :: "('s \<Rightarrow> 'a \<times> 's) \<Rightarrow> 's \<times> nat \<Rightarrow> 'a \<times> 's \<times> nat" where
  "counted f sn = (case f (fst sn) of (x, s1) \<Rightarrow> (x, s1, Suc (snd sn)))"

definition counting :: "'s connector_ops \<Rightarrow> ('s \<times> nat) connector_ops" where
  "counting con =
     \<lparr>con_List = (\<lambda>q. counted (con_List con q)),
      con_Get = (\<lambda>hr ref q. counted (con_Get con hr ref q)),
      con_Create = (\<lambda>hr. counted (con_Create con hr)),
      con_Update = (\<lambda>hr ref. counted (con_Update con hr ref)),
      con_Delete = (\<lambda>ref. counted (con_Delete con ref)),
      con_EmptyHostRecord = con_EmptyHostRecord con,
      con_NewIpv4Addr = con_NewIpv4Addr con,
      con_NewIpv6Addr = con_NewIpv6Addr con\<rparr>"

definition counting_client ::
  "('s connector_ops, obj_mgr) client \<Rightarrow> (('s \<times> nat) connector_ops, obj_mgr) client" where
  "counting_client c = \<lparr>connector = counting (connector c), objMgr = objMgr c, hc = hc c\<rparr>"

lemma counting_simps [simp]:
  "con_List (counting con) q (s, n) = counted (con_List con q) (s, n)"
  "con_Get (counting con) hr ref q (s, n) = counted (con_Get con hr ref q) (s, n)"
  "con_Create (counting con) hr (s, n) = counted (con_Create con hr) (s, n)"
  "con_Update (counting con) hr ref (s, n) = counted (con_Update con hr ref) (s, n)"
  "con_Delete (counting con) ref (s, n) = counted (con_Delete con ref) (s, n)"
  "con_EmptyHostRecord (counting con) = con_EmptyHostRecord con"
  "con_NewIpv4Addr (counting con) = con_NewIpv4Addr con"
  "con_NewIpv6Addr (counting con) = con_NewIpv6Addr con"
  by (simp_all add: counting_def)

lemma counted_pair [simp]: "f s = (x, s1) \<Longrightarrow> counted f (s, n) = (x, s1, Suc n)"
  by (simp add: counted_def)

text \<open>
  \<open>within k n r r'\<close>: the counting run \<open>r'\<close>, begun at \<open>n\<close>, ends as the run \<open>r\<close> does, with at most
  \<open>k\<close> requests more.
\<close>

definition within :: "nat \<Rightarrow> nat \<Rightarrow> 'a \<times> 's \<Rightarrow> 'a \<times> 's \<times> nat \<Rightarrow> bool" where
  "within k n r r' \<longleftrightarrow> (\<exists>m. m \<le> k \<and> r' = (fst r, snd r, n + m))"

lemma withinI: "m \<le> k \<Longrightarrow> r' = (fst r, snd r, n + m) \<Longrightarrow> within k n r r'"
  by (auto simp: within_def)

lemma withinE:
  assumes "within k n (x, s) r'"
  obtains m where "m \<le> k" "r' = (x, s, n + m)"
  using assms by (auto simp: within_def)

lemma within_done [simp]: "within k n (x, s) (x, s, n)"
  by (rule withinI [of 0]) simp_all

lemma within_more: "within k (n + m) r r' \<Longrightarrow> m + k \<le> k' \<Longrightarrow> within k' n r r'"
  unfolding within_def by (metis add.assoc add_le_mono le_refl le_trans)

subsection \<open>The operations of the client\<close>

lemma new_host_record_counting [simp]: "new_host_record (counting con) = new_host_record con"
  by (simp add: fun_eq_iff new_host_record_def)

lemma request_address_counting [simp]: "request_address (counting con) = request_address con"
  by (simp add: fun_eq_iff request_address_def)

lemma getOrNew_counting:
  "getOrNewHostRecord con nv dv z h s = (x, s1) \<Longrightarrow>
     getOrNewHostRecord (counting con) nv dv z h (s, n) = (x, s1, Suc n)"
  by (cases "con_List con (record_query nv h) s")
    (auto simp: getOrNewHostRecord_def split: sum.splits ib_error.splits list.splits)

lemma createOrUpdate_within:
  "within 2 n (createOrUpdateHostRecord con hr s) (createOrUpdateHostRecord (counting con) hr (s, n))"
proof (cases "hr_Name hr = None")
  case True
  then show ?thesis by (simp add: createOrUpdateHostRecord_def)
next
  case False
  let ?q = "[(''_return_fields'', Join hostRecordReturnFields '','')]"
  define hr1 where "hr1 = (if hr_Ref hr = [] then hr else prepareHostRecordForUpdate hr)"
  define w where "w = (if hr_Ref hr = [] then con_Create con hr1 else con_Update con hr1 (hr_Ref hr1))"
  obtain r s1 where r: "w s = (r, s1)" by (cases "w s")
  show ?thesis
  proof (cases r)
    case (Inl e)
    with False r show ?thesis
      by (intro withinI [of 1]) (auto simp: createOrUpdateHostRecord_def hr1_def w_def Let_def split: if_splits)
  next
    case (Inr ref)
    obtain e hr2 s2 where "con_Get con hr1 ref ?q s1 = ((e, hr2), s2)"
      by (metis prod.collapse)
    with False r Inr show ?thesis
      by (intro withinI [of 2]) (auto simp: createOrUpdateHostRecord_def hr1_def w_def Let_def split: if_splits)
  qed
qed

lemma GetOrAllocate_within:
  "within 3 n (GetOrAllocateAddress con nv dv subnet h z s)
     (GetOrAllocateAddress (counting con) nv dv subnet h z (s, n))"
proof -
  obtain x s1 where g: "getOrNewHostRecord con nv dv z h s = (x, s1)" by (metis prod.collapse)
  note gc = getOrNew_counting [OF g]
  show ?thesis
  proof (cases x)
    case (Inl e)
    then show ?thesis by (intro withinI [of 1]) (simp_all add: GetOrAllocateAddress_def g gc)
  next
    case (Inr hr)
    show ?thesis
    proof (cases "IsValid (getAllocatedHostRecordAddrInSubnet hr subnet)")
      case True
      with Inr show ?thesis by (intro withinI [of 1]) (simp_all add: GetOrAllocateAddress_def g gc Let_def)
    next
      case False
      obtain e hr2 s2 where c: "createOrUpdateHostRecord con (request_address con nv subnet hr) s1 = ((e, hr2), s2)"
        by (metis prod.collapse)
      obtain m where m: "m \<le> 2"
        "createOrUpdateHostRecord (counting con) (request_address con nv subnet hr) (s1, Suc n) = ((e, hr2), s2, Suc n + m)"
        using createOrUpdate_within [of "Suc n" con "request_address con nv subnet hr" s1] c
        by (auto elim: withinE)
      with False Inr c show ?thesis
        by (intro withinI [of "Suc m"])
          (auto simp: GetOrAllocateAddress_def g gc Let_def split: option.split)
    qed
  qed
qed

lemma ReleaseAddress_within:
  "within 2 n (ReleaseAddress con nv dv subnet h s) (ReleaseAddress (counting con) nv dv subnet h (s, n))"
proof -
  obtain x s1 where g: "getOrNewHostRecord con nv dv [] h s = (x, s1)" by (metis prod.collapse)
  note gc = getOrNew_counting [OF g]
  show ?thesis
  proof (cases x)
    case (Inl e)
    then show ?thesis by (intro withinI [of 1]) (simp_all add: ReleaseAddress_def g gc)
  next
    case (Inr hr)
    show ?thesis
    proof (cases "release_from_record hr subnet")
      case None
      with Inr show ?thesis by (intro withinI [of 1]) (simp_all add: ReleaseAddress_def g gc)
    next
      case (Some hr1)
      let ?p = "prepareHostRecordForUpdate hr1"
      obtain d s2 where d: "con_Delete con (hr_Ref hr1) s1 = (d, s2)" by (metis prod.collapse)
      obtain u s3 where u: "con_Update con ?p (hr_Ref ?p) s1 = (u, s3)" by (metis prod.collapse)
      from Inr Some d u show ?thesis
        by (intro withinI [of 2]) (auto simp: ReleaseAddress_def g gc Let_def split: sum.split)
    qed
  qed
qed

subsection \<open>The loops of the claim handler\<close>

lemma counting_client_simps [simp]:
  "connector (counting_client c) = counting (connector c)"
  "cl_GetHostConfig (infoblox_Client (counting_client c)) = cl_GetHostConfig (infoblox_Client c)"
  "cl_GetOrAllocateAddress (infoblox_Client c) = GetOrAllocateAddress (connector c)"
  "cl_ReleaseAddress (infoblox_Client c) = ReleaseAddress (connector c)"
  by (simp_all add: infoblox_Client_def counting_client_def GetHostConfig_def)

lemma allocate_loop_within:
  "within (3 * length subs) n (allocate_loop pool (Some (infoblox_Client c)) h subs errs s)
     (allocate_loop pool (Some (infoblox_Client (counting_client c))) h subs errs (s, n))"
proof (induction subs arbitrary: errs s n)
  case Nil
  then show ?case by simp
next
  case (Cons sub subs)
  show ?case
  proof (cases "ParsePrefix (CIDR sub)")
    case None
    then show ?thesis using within_more [of _ n 0, simplified, OF Cons.IH] by simp
  next
    case (Some subnet)
    let ?v = "determineDNSView (DNSView (p_Spec pool))
                (hc_DefaultDNSView (cl_GetHostConfig (infoblox_Client c))) (NetworkView (p_Spec pool))"
    obtain x s1 where x: "GetOrAllocateAddress (connector c) (NetworkView (p_Spec pool)) ?v subnet h
        (DNSZone (p_Spec pool)) s = (x, s1)"
      by (metis prod.collapse)
    obtain m where m: "m \<le> 3" "GetOrAllocateAddress (counting (connector c)) (NetworkView (p_Spec pool)) ?v subnet h
        (DNSZone (p_Spec pool)) (s, n) = (x, s1, n + m)"
      using GetOrAllocate_within [of n "connector c" "NetworkView (p_Spec pool)" ?v subnet h
          "DNSZone (p_Spec pool)" s] x by (auto elim: withinE)
    show ?thesis
    proof (cases x)
      case (Inr a)
      with Some x m show ?thesis by (intro withinI [of m]) (simp_all add: Let_def)
    next
      case (Inl e)
      show ?thesis
      proof (cases "panic_of e")
        case None
        with Some x m Inl within_more [OF Cons.IH [where errs = "errs @ [e]" and s = s1 and n = "n + m"], of "3 * length (sub # subs)"]
        show ?thesis by (simp add: Let_def)
      next
        case (Some msg)
        with \<open>ParsePrefix (CIDR sub) = Some subnet\<close> x m Inl show ?thesis
          by (intro withinI [of m]) (simp_all add: Let_def)
      qed
    qed
  qed
qed

lemma release_loop_within:
  "within (2 * length subs) n (release_loop pool (Some (infoblox_Client c)) h subs s)
     (release_loop pool (Some (infoblox_Client (counting_client c))) h subs (s, n))"
proof (induction subs arbitrary: s n)
  case Nil
  then show ?case by simp
next
  case (Cons sub subs)
  show ?case
  proof (cases "ParsePrefix (CIDR sub)")
    case None
    then show ?thesis using within_more [of _ n 0, simplified, OF Cons.IH] by simp
  next
    case (Some subnet)
    let ?v = "determineDNSView (DNSView (p_Spec pool))
                (hc_DefaultDNSView (cl_GetHostConfig (infoblox_Client c))) (NetworkView (p_Spec pool))"
    obtain x s1 where x: "ReleaseAddress (connector c) (NetworkView (p_Spec pool)) ?v subnet h s = (x, s1)"
      by (metis prod.collapse)
    obtain m where m: "m \<le> 2"
      "ReleaseAddress (counting (connector c)) (NetworkView (p_Spec pool)) ?v subnet h (s, n) = (x, s1, n + m)"
      using ReleaseAddress_within [of n "connector c" "NetworkView (p_Spec pool)" ?v subnet h s] x
      by (auto elim: withinE)
    have rest: "within (2 * length (sub # subs)) n (release_loop pool (Some (infoblox_Client c)) h subs s1)
        (release_loop pool (Some (infoblox_Client (counting_client c))) h subs (s1, n + m))"
      using within_more [OF Cons.IH [where s = s1 and n = "n + m"]] m(1) by simp
    show ?thesis
    proof (cases "case x of None \<Rightarrow> None | Some e \<Rightarrow> panic_of e")
      case None
      with Some x m rest show ?thesis by (cases x) (simp_all add: Let_def)
    next
      case (Some msg)
      then obtain e where "x = Some e" "panic_of e = Some msg" by (cases x) auto
      with \<open>ParsePrefix (CIDR sub) = Some subnet\<close> x m show ?thesis
        by (intro withinI [of m]) (simp_all add: Let_def)
    qed
  qed
qed

subsection \<open>The bounds\<close>

text \<open>C31: The load on the appliance is bounded: ensuring an address sends at most three requests for
each subnet of the pool, releasing it at most two, whatever the appliance answers. The requests
are counted by a connector that leaves the outcome and the effects of the run as they are.\<close>

theorem requests_bounded:
  "(\<exists>m. m \<le> 3 * length (Subnets (p_Spec pool)) \<and>
      allocate_loop pool (Some (infoblox_Client (counting_client c))) h (Subnets (p_Spec pool)) [] (s, 0) =
      (case allocate_loop pool (Some (infoblox_Client c)) h (Subnets (p_Spec pool)) [] s of
         (r, s') \<Rightarrow> (r, s', m))) \<and>
   (\<exists>m. m \<le> 2 * length (Subnets (p_Spec pool)) \<and>
      release_loop pool (Some (infoblox_Client (counting_client c))) h (Subnets (p_Spec pool)) (s, 0) =
      (case release_loop pool (Some (infoblox_Client c)) h (Subnets (p_Spec pool)) s of
         (r, s') \<Rightarrow> (r, s', m)))"
  using allocate_loop_within [of "Subnets (p_Spec pool)" 0 pool c h "[]" s]
    release_loop_within [of "Subnets (p_Spec pool)" 0 pool c h s]
  by (auto simp: within_def case_prod_unfold)

end
