(* ===== verification/AddressProps.thy ===== *)
theory AddressProps
  imports AddressFacts
begin

text \<open>
  Properties of allocation and release: what the two operations return and what they write
  to the appliance, on every branch.
\<close>

subsection \<open>What allocation returns\<close>

text \<open>C3: Whatever the appliance answers, an address that \<open>GetOrAllocateAddress\<close> returns
  without an error is a valid address inside the requested subnet (and so carries no zone).\<close>

theorem allocate_in_subnet:
  assumes "GetOrAllocateAddress con nv dv subnet h z s = (Inr a, s')"
  shows "PrefixContains subnet a \<and> IsValid a \<and> \<not> hasZone a"
  using assms by (rule GetOrAllocate_in_subnet)

theorem allocate_in_subnet_witness:
  "PrefixContains example_subnet (V4 0x0A000002) \<and> IsValid (V4 0x0A000002) \<and> \<not> hasZone (V4 0x0A000002)"
proof -
  have "GetOrAllocateAddress example_con [] [] example_subnet ''m1'' [] (Some example_record) =
          (Inr (V4 0x0A000002), Some example_record)"
    by code_simp
  then show ?thesis by (rule allocate_in_subnet)
qed

text \<open>If the hostname has one record and that record already holds addresses of the
  subnet, \<open>GetOrAllocateAddress\<close> returns the first of them, and the state is the one the
  query left: nothing is created, updated or fetched again.\<close>

theorem allocate_reuses:
  assumes "con_List con (record_query nv h) s = (Inr [hr], s1)"
    and "addrs_in hr subnet = a # as"
  shows "GetOrAllocateAddress con nv dv subnet h z s = (Inr a, s1)"
  using assms by (rule allocate_found)

theorem allocate_reuses_witness:
  "GetOrAllocateAddress example_con [] [] example_subnet ''m1'' [] (Some example_record) =
     (Inr (V4 0x0A000002), Some example_record)"
proof (rule allocate_reuses)
  show "con_List example_con (record_query [] ''m1'') (Some example_record) =
          (Inr [example_record], Some example_record)"
    by code_simp
  show "addrs_in example_record example_subnet = V4 0x0A000002 # []"
    by code_simp
qed

text \<open>If the query for the host record fails, or finds several records, both allocation and
release return an error, and nothing is written after the query.\<close>

theorem query_failure_no_write:
  assumes "con_List con (record_query nv h) s = (r, s1)"
    and "\<forall>hr. r \<noteq> Inr [hr]" and "\<forall>m. r \<noteq> Inl (NotFoundError m)"
  shows "(\<exists>e. GetOrAllocateAddress con nv dv subnet h z s = (Inl e, s1)) \<and>
         (\<exists>e. ReleaseAddress con nv dv subnet h s = (Some e, s1))"
proof -
  have "\<exists>e. getOrNewHostRecord con nv dv z' h s = (Inl e, s1)" for z'
  proof (cases r)
    case (Inl err)
    with assms obtain m where "r = Inl (IBError m)" by (cases err) auto
    with assms(1) show ?thesis by (auto simp: getOrNew_failed)
  next
    case (Inr rs)
    with assms(2) have "length rs \<noteq> 1" by (auto simp: length_Suc_conv)
    with Inr assms(1) show ?thesis by (simp add: getOrNew_ambiguous)
  qed
  then obtain e e' where "getOrNewHostRecord con nv dv z h s = (Inl e, s1)"
    and "getOrNewHostRecord con nv dv [] h s = (Inl e', s1)" by blast
  then show ?thesis by (simp add: GetOrAllocateAddress_def ReleaseAddress_def)
qed

definition ambiguous_con :: "unit connector_ops" where
  "ambiguous_con =
     \<lparr>con_List = (\<lambda>q s. (Inr [example_record, example_record], s)),
      con_Get = (\<lambda>hr ref q s. ((None, hr), s)),
      con_Create = (\<lambda>hr s. (Inr [], s)), con_Update = (\<lambda>hr ref s. (Inr ref, s)),
      con_Delete = (\<lambda>ref s. (Inr ref, s)),
      con_EmptyHostRecord = example_record,
      con_NewIpv4Addr = (\<lambda>a m e r. \<lparr>Ipv4Addr = Some a, v4_Host = [], v4_Mac = m, v4_EnableDhcp = e, v4_Ref = r\<rparr>),
      con_NewIpv6Addr = (\<lambda>a d e r. \<lparr>Ipv6Addr = Some a, v6_Host = [], v6_Duid = d, v6_EnableDhcp = e, v6_Ref = r\<rparr>)\<rparr>"

theorem query_failure_no_write_witness:
  "(\<exists>e. GetOrAllocateAddress ambiguous_con [] [] example_subnet ''m1'' [] () = (Inl e, ())) \<and>
   (\<exists>e. ReleaseAddress ambiguous_con [] [] example_subnet ''m1'' () = (Some e, ()))"
  by (rule query_failure_no_write [where r = "Inr [example_record, example_record]"])
    (simp_all add: ambiguous_con_def)

subsection \<open>What is written\<close>

text \<open>
  To say what an operation may write, the connector is replaced by one that does anything at
  all (\<open>bad\<close>) when it is asked to create, update or delete something that is not allowed. An
  operation that behaves the same on both never makes such a request.
\<close>

definition guard_writes ::
  "'s connector_ops \<Rightarrow> (HostRecord \<Rightarrow> bool) \<Rightarrow> (HostRecord \<Rightarrow> string \<Rightarrow> bool) \<Rightarrow> (string \<Rightarrow> bool) \<Rightarrow>
     ('s \<Rightarrow> (ib_error + string) \<times> 's) \<Rightarrow> 's connector_ops" where
  "guard_writes con okc oku okd bad =
     con\<lparr>con_Create := (\<lambda>hr s. if okc hr then con_Create con hr s else bad s),
         con_Update := (\<lambda>hr ref s. if oku hr ref then con_Update con hr ref s else bad s),
         con_Delete := (\<lambda>ref s. if okd ref then con_Delete con ref s else bad s)\<rparr>"

lemma guard_writes_simps [simp]:
  "con_List (guard_writes con okc oku okd bad) = con_List con"
  "con_Get (guard_writes con okc oku okd bad) = con_Get con"
  "con_EmptyHostRecord (guard_writes con okc oku okd bad) = con_EmptyHostRecord con"
  "con_NewIpv4Addr (guard_writes con okc oku okd bad) = con_NewIpv4Addr con"
  "con_NewIpv6Addr (guard_writes con okc oku okd bad) = con_NewIpv6Addr con"
  "con_Create (guard_writes con okc oku okd bad) hr s = (if okc hr then con_Create con hr s else bad s)"
  "con_Update (guard_writes con okc oku okd bad) hr ref s =
     (if oku hr ref then con_Update con hr ref s else bad s)"
  "con_Delete (guard_writes con okc oku okd bad) ref s = (if okd ref then con_Delete con ref s else bad s)"
  by (simp_all add: guard_writes_def)

lemma guard_writes_record [simp]:
  "getOrNewHostRecord (guard_writes con okc oku okd bad) = getOrNewHostRecord con"
  "request_address (guard_writes con okc oku okd bad) = request_address con"
  by (auto simp: fun_eq_iff getOrNewHostRecord_def new_host_record_def request_address_def
      split: prod.splits sum.splits ib_error.splits)

text \<open>
  The appliance gives every record it lists a reference, and the library's empty record has
  neither a reference nor addresses.
\<close>

definition refs_ok :: "'s connector_ops \<Rightarrow> bool" where
  "refs_ok con \<longleftrightarrow>
     empty_record_ok con \<and>
     (\<forall>q s rs s'. con_List con q s = (Inr rs, s') \<longrightarrow> (\<forall>r \<in> set rs. hr_Ref r \<noteq> []))"

lemma refs_okD:
  "refs_ok con \<Longrightarrow> con_List con q s = (Inr rs, s') \<Longrightarrow> r \<in> set rs \<Longrightarrow> hr_Ref r \<noteq> []"
  unfolding refs_ok_def by blast

text \<open>What a new record must say: the host, its views, and one request for an address.\<close>

definition create_ok ::
  "'s connector_ops \<Rightarrow> string \<Rightarrow> string \<Rightarrow> prefix \<Rightarrow> string \<Rightarrow> string \<Rightarrow> HostRecord \<Rightarrow> bool" where
  "create_ok con nv dv subnet h z hr \<longleftrightarrow>
     hr_Name hr = Some h \<and> hr_NetworkView hr = nv \<and>
     hr_EnableDns hr = Some (z \<noteq> []) \<and>
     (z \<noteq> [] \<longrightarrow> hr_View hr = (if dv = [] then None else Some dv)) \<and>
     (if Is4 (PrefixAddr subnet)
      then elems (hr_Ipv4Addrs hr) = [con_NewIpv4Addr con (nextAvailableIBFunc subnet nv) [] False []] \<and>
           elems (hr_Ipv6Addrs hr) = []
      else elems (hr_Ipv6Addrs hr) = [con_NewIpv6Addr con (nextAvailableIBFunc subnet nv) [] False []] \<and>
           elems (hr_Ipv4Addrs hr) = [])"

lemma getOrNew_cases:
  assumes "getOrNewHostRecord con nv dv z h s = (Inr hr, s1)"
  obtains "con_List con (record_query nv h) s = (Inr [hr], s1)"
  | m where "con_List con (record_query nv h) s = (Inl (NotFoundError m), s1)"
      "hr = new_host_record con nv dv z h"
  using assms
  by (auto simp: getOrNewHostRecord_def split: prod.splits sum.splits ib_error.splits list.splits)

lemma create_ok_new:
  assumes "empty_record_ok con"
  shows "create_ok con nv dv subnet h z (request_address con nv subnet (new_host_record con nv dv z h))"
  using assms
  by (simp add: create_ok_def request_address_def new_host_record_def empty_record_ok_def Let_def
      toDNSView_def)

text \<open>C16: \<open>GetOrAllocateAddress\<close> never deletes; it creates only a record that names the host and
the network view, enables DNS exactly if a zone is given (in the given DNS view), and asks for
exactly one next available address of the subnet; and it updates only under a record's own
reference, with a record the appliance accepts (zone, network view and the entries' hosts
cleared, no nil list).\<close>

theorem allocate_writes:
  assumes "refs_ok con"
  shows "GetOrAllocateAddress
           (guard_writes con (create_ok con nv dv subnet h z)
              (\<lambda>hr ref. prepared hr \<and> ref = hr_Ref hr \<and> ref \<noteq> []) (\<lambda>ref. False) bad)
           nv dv subnet h z s =
         GetOrAllocateAddress con nv dv subnet h z s"
proof (cases "getOrNewHostRecord con nv dv z h s")
  case (Pair r s1)
  let ?g = "guard_writes con (create_ok con nv dv subnet h z)
              (\<lambda>hr ref. prepared hr \<and> ref = hr_Ref hr \<and> ref \<noteq> []) (\<lambda>ref. False) bad"
  have "createOrUpdateHostRecord ?g (request_address con nv subnet hr) s1 =
        createOrUpdateHostRecord con (request_address con nv subnet hr) s1" if "r = Inr hr" for hr
  proof (cases "hr_Ref hr = []")
    case True
    from Pair that have "getOrNewHostRecord con nv dv z h s = (Inr hr, s1)" by simp
    then have "hr = new_host_record con nv dv z h"
      by (rule getOrNew_cases) (use refs_okD [OF assms] True in fastforce)+
    with assms True show ?thesis
      by (simp add: createOrUpdateHostRecord_def refs_ok_def create_ok_new Let_def
          split: sum.split prod.split)
  next
    case False
    then show ?thesis
      by (simp add: createOrUpdateHostRecord_def Let_def split: sum.split prod.split)
  qed
  with Pair show ?thesis
    by (simp add: GetOrAllocateAddress_def Let_def split: sum.split if_split)
qed

lemma example_refs_ok: "refs_ok example_con"
  by (auto simp: refs_ok_def empty_record_ok_def example_con_def example_assign_def split: option.splits if_splits)

theorem allocate_writes_witness:
  "GetOrAllocateAddress
     (guard_writes example_con (create_ok example_con [] [] example_subnet ''m1'' [])
        (\<lambda>hr ref. prepared hr \<and> ref = hr_Ref hr \<and> ref \<noteq> []) (\<lambda>ref. False)
        (\<lambda>s. (Inl (IBError ''refused''), s)))
     [] [] example_subnet ''m1'' [] None =
   GetOrAllocateAddress example_con [] [] example_subnet ''m1'' [] None"
  by (rule allocate_writes [OF example_refs_ok])

subsection \<open>Release\<close>

text \<open>The error that release reports for a failed write.\<close>

definition write_result :: "string \<Rightarrow> ib_error + string \<Rightarrow> error option" where
  "write_result msg r =
     (case r of Inl err \<Rightarrow> Some (Wrap msg (the (tryParseWapiError (Some err)))) | Inr _ \<Rightarrow> None)"

lemma release_empty_iff:
  "length (elems (hr_Ipv4Addrs hr)) = 0 \<and> length (elems (hr_Ipv6Addrs hr)) = 0 \<longleftrightarrow> record_texts hr = []"
  by (simp add: record_texts_def)

lemma release_one:
  assumes "con_List con (record_query nv h) s = (Inr [hr], s1)"
    and "addrs_in hr subnet = a # as"
  shows "\<exists>hr1 pre t post.
           record_texts hr = pre @ t # post \<and> record_texts hr1 = pre @ post \<and>
           entry_addr subnet t = Some a \<and> addrs_in hr1 subnet = as \<and>
           (\<forall>other. (\<forall>b. PrefixContains subnet b \<longrightarrow> \<not> PrefixContains other b) \<longrightarrow>
              addrs_in hr1 other = addrs_in hr other) \<and>
           hr_Ref hr1 = hr_Ref hr \<and> prepared (prepareHostRecordForUpdate hr1) \<and>
           record_texts (prepareHostRecordForUpdate hr1) = record_texts hr1 \<and>
           ReleaseAddress con nv dv subnet h s =
             (if record_texts hr1 = []
              then apfst (write_result ''failed to delete Infoblox host record: %w'')
                     (con_Delete con (hr_Ref hr) s1)
              else apfst (write_result ''failed to update Infoblox host record: %w'')
                     (con_Update con (prepareHostRecordForUpdate hr1) (hr_Ref hr) s1))"
proof -
  obtain hr1 where r: "release_from_record hr subnet = Some hr1"
    using assms(2) release_None_spec [of hr subnet] by fastforce
  obtain pre t post where one: "record_texts hr = pre @ t # post" "record_texts hr1 = pre @ post"
    "entry_addr subnet t = Some (getAllocatedHostRecordAddrInSubnet hr subnet)"
    using release_one_entry [OF r] by blast
  have "ReleaseAddress con nv dv subnet h s =
     (if record_texts hr1 = []
      then apfst (write_result ''failed to delete Infoblox host record: %w'')
             (con_Delete con (hr_Ref hr) s1)
      else apfst (write_result ''failed to update Infoblox host record: %w'')
             (con_Update con (prepareHostRecordForUpdate hr1) (hr_Ref hr) s1))"
    unfolding release_empty_iff [symmetric]
    by (simp add: ReleaseAddress_def getOrNew_found [OF assms(1)] r write_result_def Let_def
        release_keeps_rest [OF r] apfst_def map_prod_def split: prod.split sum.split)
  then show ?thesis
    using one release_spec [OF r] release_spec_other [OF r] release_keeps_rest [OF r] assms(2)
    by (intro exI [of _ hr1] exI [of _ pre] exI [of _ t] exI [of _ post])
      (simp add: allocated_spec)
qed

text \<open>C6: Release takes exactly one address, the first of the subnet, out of the record: the
other entries keep their texts and their order, the addresses of subnets that do not overlap
stay, and there is exactly one write, under the record's own reference: the record is deleted
if no entry of either family is left, and otherwise updated in the form the appliance
accepts.\<close>

theorem release_exactly_one:
  assumes "con_List con (record_query nv h) s = (Inr [hr], s1)"
    and "addrs_in hr subnet = a # as"
  shows "\<exists>hr1 pre t post.
           record_texts hr = pre @ t # post \<and> record_texts hr1 = pre @ post \<and>
           entry_addr subnet t = Some a \<and> addrs_in hr1 subnet = as \<and>
           (\<forall>other. (\<forall>b. PrefixContains subnet b \<longrightarrow> \<not> PrefixContains other b) \<longrightarrow>
              addrs_in hr1 other = addrs_in hr other) \<and>
           hr_Ref hr1 = hr_Ref hr \<and> prepared (prepareHostRecordForUpdate hr1) \<and>
           record_texts (prepareHostRecordForUpdate hr1) = record_texts hr1 \<and>
           ReleaseAddress con nv dv subnet h s =
             (if record_texts hr1 = []
              then apfst (write_result ''failed to delete Infoblox host record: %w'')
                     (con_Delete con (hr_Ref hr) s1)
              else apfst (write_result ''failed to update Infoblox host record: %w'')
                     (con_Update con (prepareHostRecordForUpdate hr1) (hr_Ref hr) s1))"
  using assms by (rule release_one)

theorem release_exactly_one_witness:
  "\<exists>hr1. record_texts hr1 = [] \<and>
     ReleaseAddress example_con [] [] example_subnet ''m1'' (Some example_record) = (None, None)"
proof -
  have "con_List example_con (record_query [] ''m1'') (Some example_record) =
          (Inr [example_record], Some example_record)"
    by code_simp
  moreover have "addrs_in example_record example_subnet = [V4 0x0A000002]"
    by code_simp
  ultimately obtain hr1 pre t post where "record_texts example_record = pre @ t # post"
    and n: "record_texts hr1 = pre @ post"
    and w: "ReleaseAddress example_con [] [] example_subnet ''m1'' (Some example_record) =
      (if record_texts hr1 = []
       then apfst (write_result ''failed to delete Infoblox host record: %w'')
              (con_Delete example_con (hr_Ref example_record) (Some example_record))
       else apfst (write_result ''failed to update Infoblox host record: %w'')
              (con_Update example_con (prepareHostRecordForUpdate hr1) (hr_Ref example_record)
                 (Some example_record)))"
    using release_exactly_one [of example_con "[]" "''m1''" "Some example_record" example_record
        "Some example_record" example_subnet "V4 0x0A000002" "[]"] by blast
  moreover have "record_texts example_record = [Some ''10.0.0.2'']"
    by (simp add: record_texts_def example_record_def)
  ultimately have "record_texts hr1 = []"
    by (cases pre) auto
  with w show ?thesis
    by (auto simp: write_result_def example_con_def)
qed

text \<open>If the hostname has no record, or its record has no address in the subnet, release
succeeds and the state is the one the query left.\<close>

theorem release_nothing:
  assumes "empty_record_ok con"
    and "(\<exists>m. con_List con (record_query nv h) s = (Inl (NotFoundError m), s1)) \<or>
         (\<exists>hr. con_List con (record_query nv h) s = (Inr [hr], s1) \<and> addrs_in hr subnet = [])"
  shows "ReleaseAddress con nv dv subnet h s = (None, s1)"
  using assms(2)
proof (elim disjE exE conjE)
  fix m
  assume "con_List con (record_query nv h) s = (Inl (NotFoundError m), s1)"
  moreover have "release_from_record (new_host_record con nv dv [] h) subnet = None"
    using new_record_unallocated [OF assms(1)] by (simp add: release_None_iff IsValid_def)
  ultimately show ?thesis by (simp add: ReleaseAddress_def getOrNew_not_found)
next
  fix hr
  assume "con_List con (record_query nv h) s = (Inr [hr], s1)" and "addrs_in hr subnet = []"
  then show ?thesis
    using release_None_spec [of hr subnet] by (simp add: ReleaseAddress_def getOrNew_found)
qed

theorem release_nothing_witness:
  "ReleaseAddress example_con [] [] example_subnet ''m1'' None = (None, None)"
proof (rule release_nothing)
  show "empty_record_ok example_con" by (simp add: empty_record_ok_def example_con_def)
  have "con_List example_con (record_query [] ''m1'') None = (Inl (NotFoundError ''not found''), None)"
    by (simp add: example_con_def)
  then show "(\<exists>m. con_List example_con (record_query [] ''m1'') None = (Inl (NotFoundError m), None)) \<or>
     (\<exists>hr. con_List example_con (record_query [] ''m1'') None = (Inr [hr], None) \<and>
        addrs_in hr example_subnet = [])"
    by blast
qed

subsection \<open>Idempotence\<close>

text \<open>
  What allocation relies on: queries do not change the appliance, and after a record is
  created, or updated under its own reference and name, the query for its name lists exactly
  that record, with the addresses that fetching it reports.
\<close>

definition same_addrs :: "HostRecord \<Rightarrow> HostRecord \<Rightarrow> bool" where
  "same_addrs r r' \<longleftrightarrow>
     map Ipv4Addr (elems (hr_Ipv4Addrs r)) = map Ipv4Addr (elems (hr_Ipv4Addrs r')) \<and>
     map Ipv6Addr (elems (hr_Ipv6Addrs r)) = map Ipv6Addr (elems (hr_Ipv6Addrs r'))"

definition wapi_ok :: "'s connector_ops \<Rightarrow> bool" where
  "wapi_ok con \<longleftrightarrow>
     (\<forall>q s. snd (con_List con q s) = s) \<and>
     (\<forall>hr ref q s. snd (con_Get con hr ref q s) = s) \<and>
     (\<forall>nv h s m hr ref s1 q hr2 s2.
        con_List con (record_query nv h) s = (Inl (NotFoundError m), s) \<longrightarrow>
        hr_Name hr = Some h \<longrightarrow> hr_NetworkView hr = nv \<longrightarrow>
        con_Create con hr s = (Inr ref, s1) \<longrightarrow> con_Get con hr ref q s1 = ((None, hr2), s2) \<longrightarrow>
        (\<exists>r. con_List con (record_query nv h) s1 = (Inr [r], s1) \<and> same_addrs r hr2)) \<and>
     (\<forall>nv h s r0 hr ref s1 q hr2 s2.
        con_List con (record_query nv h) s = (Inr [r0], s) \<longrightarrow>
        hr_Ref hr = hr_Ref r0 \<longrightarrow> hr_Name hr = hr_Name r0 \<longrightarrow>
        con_Update con hr (hr_Ref r0) s = (Inr ref, s1) \<longrightarrow>
        con_Get con hr ref q s1 = ((None, hr2), s2) \<longrightarrow>
        (\<exists>r. con_List con (record_query nv h) s1 = (Inr [r], s1) \<and> same_addrs r hr2))"

lemma map_filter_texts: "List.map_filter (\<lambda>x. f (g x)) xs = List.map_filter f (map g xs)"
  by (induction xs) (simp_all add: map_filter_simps split: option.split)

lemma same_addrs_in: "same_addrs r r' \<Longrightarrow> addrs_in r subnet = addrs_in r' subnet"
  by (simp add: same_addrs_def addrs_in_def map_filter_texts [of "entry_addr subnet" Ipv4Addr]
      map_filter_texts [of "entry_addr subnet" Ipv6Addr])

lemma wapi_read_only:
  "wapi_ok con \<Longrightarrow> con_List con q s = (r, s') \<Longrightarrow> s' = s"
  "wapi_ok con \<Longrightarrow> con_Get con hr ref q s = (x, s') \<Longrightarrow> s' = s"
  using wapi_ok_def [THEN iffD1, THEN conjunct1, rule_format, of con q s]
    wapi_ok_def [THEN iffD1, THEN conjunct2, THEN conjunct1, rule_format, of con hr ref q s]
  by simp_all

lemma wapi_create:
  "wapi_ok con \<Longrightarrow> con_List con (record_query (hr_NetworkView hr) h) s = (Inl (NotFoundError m), s) \<Longrightarrow>
     hr_Name hr = Some h \<Longrightarrow> con_Create con hr s = (Inr ref, s1) \<Longrightarrow>
     con_Get con hr ref q s1 = ((None, hr2), s2) \<Longrightarrow>
     \<exists>r. con_List con (record_query (hr_NetworkView hr) h) s1 = (Inr [r], s1) \<and> same_addrs r hr2"
  by (rule wapi_ok_def [THEN iffD1, THEN conjunct2, THEN conjunct2, THEN conjunct1, rule_format,
        of con "hr_NetworkView hr" h s m hr ref s1 q hr2 s2]) (assumption | rule refl)+

lemma wapi_update:
  "wapi_ok con \<Longrightarrow> con_List con (record_query nv h) s = (Inr [r0], s) \<Longrightarrow>
     hr_Ref hr = hr_Ref r0 \<Longrightarrow> hr_Name hr = hr_Name r0 \<Longrightarrow>
     con_Update con hr (hr_Ref r0) s = (Inr ref, s1) \<Longrightarrow>
     con_Get con hr ref q s1 = ((None, hr2), s2) \<Longrightarrow>
     \<exists>r. con_List con (record_query nv h) s1 = (Inr [r], s1) \<and> same_addrs r hr2"
  by (rule wapi_ok_def [THEN iffD1, THEN conjunct2, THEN conjunct2, THEN conjunct2, rule_format,
        of con nv h s r0 hr ref s1 q hr2 s2]) assumption+

lemma createOrUpdate_ok:
  assumes "createOrUpdateHostRecord con hr s = ((None, hr2), s2)"
  obtains ref s1 where "hr_Ref hr = []" "con_Create con hr s = (Inr ref, s1)"
      "con_Get con hr ref [(''_return_fields'', Join hostRecordReturnFields '','')] s1 = ((None, hr2), s2)"
  | ref s1 where "hr_Ref hr \<noteq> []"
      "con_Update con (prepareHostRecordForUpdate hr) (hr_Ref hr) s = (Inr ref, s1)"
      "con_Get con (prepareHostRecordForUpdate hr) ref
         [(''_return_fields'', Join hostRecordReturnFields '','')] s1 = ((None, hr2), s2)"
  using assms
  by (auto simp: createOrUpdateHostRecord_def Let_def split: if_splits prod.splits sum.splits)

text \<open>A successful write leaves a single record for the host, with the addresses just fetched.\<close>

lemma createOrUpdate_listed:
  assumes W: "wapi_ok con" and R: "refs_ok con"
    and g: "getOrNewHostRecord con nv dv z h s = (Inr hr, s1)"
    and c: "createOrUpdateHostRecord con (request_address con nv subnet hr) s1 = ((None, hr2), s2)"
  shows "\<exists>r. con_List con (record_query nv h) s2 = (Inr [r], s2) \<and> same_addrs r hr2"
  using g
proof (cases rule: getOrNew_cases)
  case 1
  then have s: "s1 = s" and ref: "hr_Ref hr \<noteq> []"
    using wapi_read_only(1) [OF W] refs_okD [OF R] by fastforce+
  from c show ?thesis
  proof (cases rule: createOrUpdate_ok)
    case 1
    with ref show ?thesis by simp
  next
    case (2 r' s')
    then have "s2 = s'" using wapi_read_only(2) [OF W] by blast
    with 2 show ?thesis
      using wapi_update [OF W \<open>con_List con (record_query nv h) s = (Inr [hr], s1)\<close> [unfolded s] _ _ _ 2(3)]
      by (simp add: s)
  qed
next
  case (2 m)
  then have s: "s1 = s" using wapi_read_only(1) [OF W] by blast
  have hr: "hr_Ref hr = []" "hr_NetworkView hr = nv" "hr_Name hr = Some h"
    using 2 R by (simp_all add: new_host_record_fields refs_ok_def empty_record_ok_def)
  from c show ?thesis
  proof (cases rule: createOrUpdate_ok)
    case (1 r' s')
    then have "s2 = s'" using wapi_read_only(2) [OF W] by blast
    with 1 2 hr show ?thesis
      using wapi_create [OF W, of "request_address con nv subnet hr" h s m r' s'] by (simp add: s)
  next
    case 2
    with hr show ?thesis by simp
  qed
qed

lemma allocate_listed:
  assumes "wapi_ok con" and "refs_ok con"
    and "GetOrAllocateAddress con nv dv subnet h z s = (Inr a, s1)"
  shows "\<exists>r as. con_List con (record_query nv h) s1 = (Inr [r], s1) \<and> addrs_in r subnet = a # as"
proof -
  obtain hr s0 where g: "getOrNewHostRecord con nv dv z h s = (Inr hr, s0)"
    using assms(3) by (auto simp: GetOrAllocateAddress_def split: prod.splits sum.splits)
  show ?thesis
  proof (cases "addrs_in hr subnet")
    case Nil
    then obtain hr2 where
      c: "createOrUpdateHostRecord con (request_address con nv subnet hr) s0 = ((None, hr2), s1)"
      and a: "getAllocatedHostRecordAddrInSubnet hr2 subnet = a" "IsValid a"
      using assms(3)
      by (auto simp: GetOrAllocateAddress_def g allocated_spec [of hr] IsValid_def Let_def
          split: prod.splits option.splits if_splits)
    then have "\<exists>as. addrs_in hr2 subnet = a # as"
      by (auto simp: allocated_spec IsValid_def split: list.splits)
    with createOrUpdate_listed [OF assms(1,2) g c] show ?thesis
      by (metis same_addrs_in)
  next
    case (Cons b bs)
    then have v: "IsValid b" using addrs_in_subnet [of b hr subnet] by simp
    with Cons assms(3) have ab: "a = b" and s: "s1 = s0"
      by (auto simp: GetOrAllocateAddress_def g allocated_spec [of hr])
    from g show ?thesis
    proof (cases rule: getOrNew_cases)
      case 1
      then show ?thesis
        using wapi_read_only(1) [OF assms(1)] Cons ab s by metis
    next
      case 2
      with Cons v show ?thesis
        using new_record_unallocated [of con nv dv z h subnet] assms(2)
        by (simp add: refs_ok_def allocated_spec IsValid_def)
    qed
  qed
qed

lemma allocate_repeat:
  assumes "wapi_ok con" and "refs_ok con"
    and "GetOrAllocateAddress con nv dv subnet h z s = (Inr a, s1)"
  shows "GetOrAllocateAddress con nv dv' subnet h z' s1 = (Inr a, s1)"
proof -
  obtain r as where "con_List con (record_query nv h) s1 = (Inr [r], s1)"
    and "addrs_in r subnet = a # as"
    using allocate_listed [OF assms] by blast
  then show ?thesis by (rule allocate_found)
qed

text \<open>C4: Allocation is idempotent: once it has returned an address, calling it again for the
same host and subnet, with any DNS view and zone, returns the same address and leaves the
appliance as it is, so a reconciliation that is repeated does not use up a second address.\<close>

theorem allocate_idempotent:
  assumes "wapi_ok con" and "refs_ok con"
    and "GetOrAllocateAddress con nv dv subnet h z s = (Inr a, s1)"
  shows "GetOrAllocateAddress con nv dv' subnet h z' s1 = (Inr a, s1)"
  using assms by (rule allocate_repeat)

lemma example_assign_keeps [simp]:
  "hr_Name (example_assign hr) = hr_Name hr" "hr_Ref (example_assign hr) = hr_Ref hr"
  by (simp_all add: example_assign_def)

lemma example_con_simps:
  "con_Get example_con hr ref q (Some r) = ((None, example_assign r), Some r)"
  "con_Create example_con hr s = (Inr ''record:host/1'', Some (hr\<lparr>hr_Ref := ''record:host/1''\<rparr>))"
  "con_Update example_con hr ref s = (Inr ref, Some hr)"
  "con_Delete example_con ref s = (Inr ref, None)"
  "con_List example_con (record_query nv h) None = (Inl (NotFoundError ''not found''), None)"
  "hr_Name r = Some h \<Longrightarrow> hr_Ref r \<noteq> [] \<Longrightarrow>
     con_List example_con (record_query nv h) (Some r) = (Inr [example_assign r], Some r)"
  by (simp_all add: example_con_def record_query_def)

lemma example_listed:
  assumes "con_List example_con (record_query nv h) s = (Inr [r0], s)"
  obtains r where "s = Some r" "r0 = example_assign r" "hr_Name r = Some h" "hr_Ref r \<noteq> []"
  using assms by (auto simp: example_con_def record_query_def split: option.splits if_splits)

lemma example_wapi_ok: "wapi_ok example_con"
proof -
  have r: "snd (con_List example_con q s) = s" "snd (con_Get example_con hr ref q s) = s" for q s hr ref
    by (simp_all add: example_con_def split: option.split)
  have same: "same_addrs r r" for r by (simp add: same_addrs_def)
  show ?thesis
    unfolding wapi_ok_def
  proof (intro conjI allI impI r)
    fix nv h s m hr ref s1 q hr2 s2
    assume hr: "hr_Name hr = Some h"
      and c: "con_Create example_con hr s = (Inr ref, s1)"
      and g: "con_Get example_con hr ref q s1 = ((None, hr2), s2)"
    let ?r = "hr\<lparr>hr_Ref := ''record:host/1''\<rparr>"
    have s1: "s1 = Some ?r" using c by (auto simp: example_con_simps)
    have "hr2 = example_assign ?r" using g by (auto simp: s1 example_con_simps)
    moreover have "con_List example_con (record_query nv h) s1 = (Inr [example_assign ?r], s1)"
      unfolding s1 by (rule example_con_simps) (simp_all add: hr)
    ultimately show "\<exists>r. con_List example_con (record_query nv h) s1 = (Inr [r], s1) \<and> same_addrs r hr2"
      using same by blast
  next
    fix nv h s r0 hr ref s1 q hr2 s2
    assume l: "con_List example_con (record_query nv h) s = (Inr [r0], s)"
      and hr: "hr_Ref hr = hr_Ref r0" "hr_Name hr = hr_Name r0"
      and u: "con_Update example_con hr (hr_Ref r0) s = (Inr ref, s1)"
      and g: "con_Get example_con hr ref q s1 = ((None, hr2), s2)"
    from l obtain r where r0: "r0 = example_assign r" "hr_Name r = Some h" "hr_Ref r \<noteq> []"
      by (rule example_listed)
    have s1: "s1 = Some hr" using u by (auto simp: example_con_simps)
    have "hr2 = example_assign hr" using g by (auto simp: s1 example_con_simps)
    moreover have "con_List example_con (record_query nv h) s1 = (Inr [example_assign hr], s1)"
      unfolding s1 by (rule example_con_simps) (simp_all add: hr r0)
    ultimately show "\<exists>r. con_List example_con (record_query nv h) s1 = (Inr [r], s1) \<and> same_addrs r hr2"
      using same by blast
  qed
qed

theorem allocate_idempotent_witness:
  "GetOrAllocateAddress example_con [] ''view'' example_subnet ''m1'' []
     (snd (GetOrAllocateAddress example_con [] [] example_subnet ''m1'' [] None)) =
   (Inr (V4 0x0A000002), snd (GetOrAllocateAddress example_con [] [] example_subnet ''m1'' [] None))"
proof (rule allocate_idempotent [OF example_wapi_ok example_refs_ok])
  have "fst (GetOrAllocateAddress example_con [] [] example_subnet ''m1'' [] None) = Inr (V4 0x0A000002)"
    by code_simp
  then show "GetOrAllocateAddress example_con [] [] example_subnet ''m1'' [] None =
    (Inr (V4 0x0A000002), snd (GetOrAllocateAddress example_con [] [] example_subnet ''m1'' [] None))"
    by (metis prod.collapse)
qed

subsection \<open>The request for a next available address\<close>

text \<open>The text that asks the appliance for a next available address determines the subnet
and the network view: after the function name, the part before the first comma parses back
to the very prefix that was given, and the rest is the view, whatever characters it has.\<close>

theorem nextAvailable_roundtrip:
  assumes "prefix_ok subnet"
  shows "\<exists>args p. nextAvailableIBFunc subnet view = ''func:nextavailableip:'' @ args \<and>
           SplitN2 args CHR '','' = [p, view] \<and> ParsePrefix p = Some subnet"
  by (intro exI [of _ "PrefixString subnet @ '','' @ view"] exI [of _ "PrefixString subnet"])
    (simp add: nextAvailableIBFunc_def SplitN2_sep PrefixString_no_comma [OF assms]
      ParsePrefix_PrefixString [OF assms])

theorem nextAvailable_roundtrip_witness:
  "\<exists>args p. nextAvailableIBFunc example_subnet ''a,b'' = ''func:nextavailableip:'' @ args \<and>
     SplitN2 args CHR '','' = [p, ''a,b''] \<and> ParsePrefix p = Some example_subnet"
  by (rule nextAvailable_roundtrip) (simp add: prefix_ok_def example_subnet_def)

end
