(* ===== verification/ClaimProps.thy ===== *)
theory ClaimProps
  imports ClaimController AddressProps
begin

text \<open>
  Properties of the claim handler: the address it writes, the errors it reports, the hostname
  it uses over the life of a claim, and the release.
\<close>

subsection \<open>Examples\<close>

definition claim_pool :: InfobloxIPPool where
  "claim_pool = deleted_pool\<lparr>p_DeletionTimestamp := None\<rparr>"

definition example_env :: "HostRecord option claim_env" where
  "example_env =
     \<lparr>ce_lib = example_lib, ce_reader = example_reader\<lparr>get_Pool := (\<lambda>ns n. Inr claim_pool)\<rparr>,
      ce_get = example_get, ce_pdq = insertionSort, ce_newInfobloxClientFunc = (\<lambda>cfg. Inr example_client),
      ce_operatorNamespace = ''system''\<rparr>"

definition example_handler :: "HostRecord option claim_handler" where
  "example_handler =
     \<lparr>h_claim = example_claim, h_pool = Some claim_pool, h_ibclient = Some example_client\<rparr>"

definition new_address :: IPAddress where
  "new_address =
     \<lparr>a_APIVersion = [], a_Name = [], a_Namespace = [],
      a_PoolRef = \<lparr>ref_APIGroup = [], ref_Kind = [], ref_Name = []\<rparr>, a_Address = [], a_Prefix = None, a_Gateway = []\<rparr>"

subsection \<open>The address of a claim\<close>

lemma ensured_address:
  assumes "EnsureAddress env h address s = ((h', address', None), s')"
    and "h_ibclient h = Some (infoblox_Client c)"
  shows "\<exists>pool sub p a w. h_pool h = Some pool \<and> sub \<in> set (Subnets (p_Spec pool)) \<and>
           ParsePrefix (CIDR sub) = Some p \<and> PrefixContains p a \<and>
           ParseAddr (a_Address address') = Some a \<and>
           a_Prefix address' = Some w \<and> unat w = Bits p \<and> a_Gateway address' = Gateway sub \<and>
           a_Name address' = a_Name address \<and> a_PoolRef address' = a_PoolRef address \<and>
           (\<exists>conds. c_Conditions (h_claim h') = lib_Set (ce_lib env) conds
              (ready_cond ConditionTrue AddressAllocatedReason (Text [])))"
proof -
  from assms(1) obtain h1 hn pool a p sub where e: "h_pool h = Some pool"
    "allocate_loop pool (h_ibclient h) hn (Subnets (p_Spec pool)) [] s = (Allocated a p sub, s')"
    and a': "address' = address\<lparr>a_Address := AddrString a, a_Prefix := Some (of_nat (Bits p)), a_Gateway := Gateway sub\<rparr>"
    and h': "h' = h1\<lparr>h_claim := claim_Set (ce_lib env) (h_claim h1) (ready_cond ConditionTrue AddressAllocatedReason (Text []))\<rparr>"
    by (rule EnsureAddress_ok)
  obtain pre post s0 where l: "Subnets (p_Spec pool) = pre @ sub # post" "ParsePrefix (CIDR sub) = Some p"
    and g: "cl_GetOrAllocateAddress (infoblox_Client c) (NetworkView (p_Spec pool))
      (handler_view pool (infoblox_Client c)) p hn (DNSZone (p_Spec pool)) s0 = (Inr a, s')"
    using allocate_loop_Allocated e(2) assms(2) by metis
  have "PrefixContains p a" using client.allocates_in_subnet [OF g] by simp
  moreover have "ParseAddr (AddrString a) = Some a" by (rule client.allocated_text [OF g])
  moreover have "unat (of_nat (Bits p) :: 32 word) = Bits p"
    by (rule prefix_bits_word [OF ParsePrefix_ok [OF l(2)]])
  moreover have "sub \<in> set (Subnets (p_Spec pool))" using l(1) by simp
  ultimately show ?thesis
    using e(1) l(2) a' h' by (auto simp: claim_Set_def)
qed

text \<open>C7: When \<open>EnsureAddress\<close> succeeds with a client of the provider, the address object names
an address inside one of the pool's subnets: its text parses back to that address, its prefix
length is the subnet's and its gateway is the one configured for that same subnet; and the
claim's Ready condition has been set to true.\<close>

theorem ensured_address_in_pool:
  assumes "EnsureAddress env h address s = ((h', address', None), s')"
    and "h_ibclient h = Some (infoblox_Client c)"
  shows "\<exists>pool sub p a w. h_pool h = Some pool \<and> sub \<in> set (Subnets (p_Spec pool)) \<and>
           ParsePrefix (CIDR sub) = Some p \<and> PrefixContains p a \<and>
           ParseAddr (a_Address address') = Some a \<and>
           a_Prefix address' = Some w \<and> unat w = Bits p \<and> a_Gateway address' = Gateway sub \<and>
           a_Name address' = a_Name address \<and> a_PoolRef address' = a_PoolRef address \<and>
           (\<exists>conds. c_Conditions (h_claim h') = lib_Set (ce_lib env) conds
              (ready_cond ConditionTrue AddressAllocatedReason (Text [])))"
  using assms by (rule ensured_address)

lemma example_ensure:
  "\<exists>h' address'. fst (EnsureAddress example_env example_handler new_address None) = (h', address', None)"
proof -
  have "snd (snd (fst (EnsureAddress example_env example_handler new_address None))) = None"
    by code_simp
  then show ?thesis by (metis prod.collapse)
qed

theorem ensured_address_in_pool_witness:
  "\<exists>h' address' s' a. EnsureAddress example_env example_handler new_address None = ((h', address', None), s') \<and>
     ParseAddr (a_Address address') = Some a"
proof -
  obtain h' address' s' where e: "EnsureAddress example_env example_handler new_address None = ((h', address', None), s')"
    using example_ensure by (metis prod.collapse)
  have "h_ibclient example_handler = Some (infoblox_Client example_impl)"
    by (simp add: example_handler_def example_client_def)
  from ensured_address_in_pool [OF e this] e show ?thesis by blast
qed

lemma failure_reported:
  assumes "EnsureAddress env h address s = ((h', address', Some err), s')"
    and "ensureHostname env h = (h1, Inr hn)" and "h_pool h = Some pool"
    and "h_ibclient h = Some cl" and "panic_of err = None"
  shows "address' = address \<and>
         h_claim h' = claim_Set (ce_lib env) (h_claim h1) (ready_cond ConditionFalse AllocationFailedReason (Error err)) \<and>
         (if \<exists>sub \<in> set (Subnets (p_Spec pool)). ParsePrefix (CIDR sub) \<noteq> None
          then \<exists>errs. err = Joined errs \<and>
                 length errs = length (filter (\<lambda>sub. ParsePrefix (CIDR sub) \<noteq> None) (Subnets (p_Spec pool)))
          else err = ErrorText (Text ''no (valid) subnets in IPPool''))"
proof -
  have h1: "h_pool h1 = Some pool" "h_ibclient h1 = Some cl"
    using ensureHostname_ok [OF assms(2)] assms(3,4) by simp_all
  obtain r s1 where l: "allocate_loop pool (Some cl) hn (Subnets (p_Spec pool)) [] s = (r, s1)"
    by (cases "allocate_loop pool (Some cl) hn (Subnets (p_Spec pool)) [] s")
  show ?thesis
  proof (cases r)
    case (Allocated a p sub)
    with assms(1,2) h1 l show ?thesis by (simp add: EnsureAddress_def)
  next
    case (AllocPanic msg)
    with assms(1,2,5) h1 l show ?thesis by (auto simp: EnsureAddress_def)
  next
    case (NotAllocated errs)
    let ?n = "length (filter (\<lambda>sub. ParsePrefix (CIDR sub) \<noteq> None) (Subnets (p_Spec pool)))"
    let ?e = "if length errs > 0 then Joined errs else ErrorText (Text ''no (valid) subnets in IPPool'')"
    have n: "length errs = ?n"
      using allocate_loop_NotAllocated l NotAllocated by fastforce
    have some: "(\<exists>sub \<in> set (Subnets (p_Spec pool)). ParsePrefix (CIDR sub) \<noteq> None) \<longleftrightarrow> length errs > 0"
      unfolding n length_greater_0_conv filter_empty_conv by blast
    have "err = ?e \<and> address' = address \<and>
        h_claim h' = claim_Set (ce_lib env) (h_claim h1) (ready_cond ConditionFalse AllocationFailedReason (Error ?e))"
      using assms(1,2) h1 l NotAllocated by (auto simp: EnsureAddress_def Let_def)
    then show ?thesis
      unfolding some using n by (cases "length errs > 0") simp_all
  qed
qed

text \<open>C25: A failed allocation is reported in full: if \<open>EnsureAddress\<close> gets past the hostname and
finds no address (and nothing panics), the address object is unchanged, the claim's Ready
condition is false with the error as its message, and the error joins exactly one error for
every subnet whose CIDR parses, or says that there is no valid subnet if there is none.\<close>

theorem ensure_failure_reported:
  assumes "EnsureAddress env h address s = ((h', address', Some err), s')"
    and "ensureHostname env h = (h1, Inr hn)" and "h_pool h = Some pool"
    and "h_ibclient h = Some cl" and "panic_of err = None"
  shows "address' = address \<and>
         h_claim h' = claim_Set (ce_lib env) (h_claim h1) (ready_cond ConditionFalse AllocationFailedReason (Error err)) \<and>
         (if \<exists>sub \<in> set (Subnets (p_Spec pool)). ParsePrefix (CIDR sub) \<noteq> None
          then \<exists>errs. err = Joined errs \<and>
                 length errs = length (filter (\<lambda>sub. ParsePrefix (CIDR sub) \<noteq> None) (Subnets (p_Spec pool)))
          else err = ErrorText (Text ''no (valid) subnets in IPPool''))"
  using assms by (rule failure_reported)

definition invalid_pool :: InfobloxIPPool where
  "invalid_pool = claim_pool\<lparr>p_Spec := (p_Spec claim_pool)
     \<lparr>Subnets := [\<lparr>CIDR = ''nonsense'', Gateway = []\<rparr>]\<rparr>\<rparr>"

theorem ensure_failure_reported_witness:
  "\<exists>h' err s'. EnsureAddress example_env (example_handler\<lparr>h_pool := Some invalid_pool\<rparr>) new_address None =
     ((h', new_address, Some err), s') \<and> err = ErrorText (Text ''no (valid) subnets in IPPool'')"
proof -
  let ?h = "example_handler\<lparr>h_pool := Some invalid_pool\<rparr>"
  obtain h' a' e s' where r: "EnsureAddress example_env ?h new_address None = ((h', a', e), s')"
    by (metis prod.collapse)
  have "snd (snd (fst (EnsureAddress example_env ?h new_address None))) =
      Some (ErrorText (Text ''no (valid) subnets in IPPool''))"
    by code_simp
  with r have e: "e = Some (ErrorText (Text ''no (valid) subnets in IPPool''))" by simp
  obtain h1 x where x: "ensureHostname example_env ?h = (h1, x)" by (metis prod.collapse)
  have "is_ok (snd (ensureHostname example_env ?h))" by code_simp
  with x obtain hn where hn: "ensureHostname example_env ?h = (h1, Inr hn)" by (cases x) auto
  have "a' = new_address"
    using ensure_failure_reported [OF r [unfolded e] hn, of invalid_pool example_client]
    by (simp add: example_handler_def panic_of_def)
  with r e show ?thesis by blast
qed

subsection \<open>The hostname of a claim\<close>

text \<open>C26: The hostname of a claim, when it is first determined: without a DNS zone it is the
claim's own name; with a zone it is, followed by a dot and the zone, the name of an owner of
kind Machine of the group \<open>cluster.x-k8s.io\<close> that at most four fetches of owners lead to. And
whenever \<open>ensureHostname\<close> accepts a hostname it ends with the pool's zone and is stored in
the claim's annotation.\<close>

theorem hostname_determined:
  assumes "ensureHostname env h = (h1, Inr hn)" and "h_pool h = Some pool"
    and "annotation (h_claim h) hostnameAnnotation = []" and "permutes_refs (ce_pdq env)"
  shows "HasSuffix hn (DNSZone (p_Spec pool)) \<and> annotation (h_claim h1) hostnameAnnotation = hn \<and>
         (if DNSZone (p_Spec pool) = [] then hn = c_Name (h_claim h)
          else \<exists>name n obj ref. hn = name @ ''.'' @ DNSZone (p_Spec pool) \<and> n \<le> 4 \<and>
                 owner_path (ce_get env) (claim_object (h_claim h)) n obj \<and>
                 ref \<in> set (o_OwnerReferences obj) \<and> or_Kind ref = ''Machine'' \<and>
                 gv_Group (apiVersionToGroupVersion (or_APIVersion ref)) = ''cluster.x-k8s.io'' \<and>
                 or_Name ref = name)"
proof -
  have g: "getHostname env h = Inr hn" and s: "HasSuffix hn (DNSZone (p_Spec pool))"
    "annotation (h_claim h1) hostnameAnnotation = hn"
    using ensureHostname_ok [OF assms(1)] assms(2) by auto
  show ?thesis
  proof (cases "DNSZone (p_Spec pool) = []")
    case True
    with g s assms(2,3) show ?thesis by (simp add: getHostname_def)
  next
    case False
    let ?r = "\<lparr>MaxDepth = 5, SearchFor = \<lparr>gk_Group = ''cluster.x-k8s.io'', gk_Kind = ''Machine''\<rparr>\<rparr>"
    from g False assms(2,3) obtain name
      where n: "Search_GetHostname (ce_pdq env) (ce_get env) ?r (h_claim h) = Inr name"
        "hn = name @ ''.'' @ DNSZone (p_Spec pool)"
      by (auto simp: getHostname_def getHostnameResolver_def split: sum.splits)
    from pdq_sort.found_name [OF pdq_sort.intro [OF assms(4)] n(1)] obtain k obj ref
      where k: "k \<le> 4" "owner_path (ce_get env) (claim_object (h_claim h)) k obj"
        "ref \<in> set (o_OwnerReferences obj)" "matches (SearchFor ?r) ref" "or_Name ref = name"
      by (auto simp: effective_depth_def)
    then have "or_Kind ref = ''Machine'' \<and> gv_Group (apiVersionToGroupVersion (or_APIVersion ref)) = ''cluster.x-k8s.io''"
      by (simp add: matches_def)
    with False s n(2) k show ?thesis by auto
  qed
qed

definition zone_pool :: InfobloxIPPool where
  "zone_pool = claim_pool\<lparr>p_Spec := (p_Spec claim_pool)\<lparr>DNSZone := ''example.org''\<rparr>\<rparr>"

theorem hostname_determined_witness:
  "snd (ensureHostname example_env (example_handler\<lparr>h_pool := Some zone_pool\<rparr>)) = Inr ''m1.example.org'' \<and>
   HasSuffix ''m1.example.org'' ''example.org''"
proof -
  let ?h = "example_handler\<lparr>h_pool := Some zone_pool\<rparr>"
  have e: "snd (ensureHostname example_env ?h) = Inr ''m1.example.org''" by code_simp
  then obtain h1 where r: "ensureHostname example_env ?h = (h1, Inr ''m1.example.org'')" by (metis prod.collapse)
  have "annotation (h_claim ?h) hostnameAnnotation = []"
    by (simp add: example_handler_def example_claim_def annotation_def)
  moreover have "permutes_refs (ce_pdq example_env)"
    by (simp add: example_env_def insertionSort_permutes)
  moreover have "DNSZone (p_Spec zone_pool) = ''example.org''" by (simp add: zone_pool_def)
  ultimately show ?thesis
    using hostname_determined [OF r, of zone_pool] e by (simp add: example_handler_def)
qed

text \<open>
  The life of a claim: \<open>ensureHostname\<close> runs in a sequence of reconciliations, each with its own
  environment and pool, while owners and conditions change in between. What persists from one
  to the next is the claim with its annotations. The trace collects the hostnames that were
  accepted, with which the appliance is then asked.
\<close>

inductive claim_run :: "'s claim_env \<Rightarrow> IPAddressClaim \<Rightarrow> string list \<Rightarrow> bool" for env0 :: "'s claim_env" where
  claim_new: "annotation c hostnameAnnotation = [] \<Longrightarrow> claim_run env0 c []"
| claim_ensure: "claim_run env0 c hs \<Longrightarrow> ensureHostname env \<lparr>h_claim = c, h_pool = p, h_ibclient = (cl :: 's ib_client option)\<rparr> = (h1, Inr hn) \<Longrightarrow>
    claim_run env0 (h_claim h1) (hs @ [hn])"
| claim_refused: "claim_run env0 c hs \<Longrightarrow> ensureHostname env \<lparr>h_claim = c, h_pool = p, h_ibclient = (cl :: 's ib_client option)\<rparr> = (h1, Inl e) \<Longrightarrow>
    claim_run env0 (h_claim h1) hs"
| claim_conditions: "claim_run env0 c hs \<Longrightarrow> claim_run env0 (c\<lparr>c_Conditions := conds, c_OwnerReferences := owners\<rparr>) hs"

lemma claim_run_annotation:
  "claim_run env0 c hs \<Longrightarrow> [] \<notin> set hs \<Longrightarrow> hs \<noteq> [] \<Longrightarrow>
     set hs = {annotation c hostnameAnnotation} \<and> annotation c hostnameAnnotation \<noteq> []"
proof (induction rule: claim_run.induct)
  case (claim_ensure c hs env p cl h1 hn)
  note e = ensureHostname_ok [OF claim_ensure(2)]
  show ?case
  proof (cases "hs = []")
    case True
    with e claim_ensure(4) show ?thesis by simp
  next
    case False
    with claim_ensure have a: "set hs = {annotation c hostnameAnnotation}" "annotation c hostnameAnnotation \<noteq> []"
      by auto
    then have "hn = annotation c hostnameAnnotation"
      using e getHostname_annotated [of "\<lparr>h_claim = c, h_pool = p, h_ibclient = cl\<rparr>"] by simp
    with a e show ?thesis by simp
  qed
next
  case (claim_refused c hs env p cl h1 e)
  then have "hs \<noteq> []" and a: "set hs = {annotation c hostnameAnnotation}" "annotation c hostnameAnnotation \<noteq> []" by auto
  then have g: "getHostname env \<lparr>h_claim = c, h_pool = p, h_ibclient = cl\<rparr> = Inr (annotation c hostnameAnnotation)"
    by (intro getHostname_annotated) simp_all
  with claim_refused(2) have "annotation (h_claim h1) hostnameAnnotation = annotation c hostnameAnnotation"
    by (auto simp: ensureHostname_def Let_def split: option.splits if_splits)
  with a show ?case by simp
qed (simp_all add: annotation_def)

text \<open>C10: Over the whole life of a claim, however pool, owners and API server change, the
appliance is asked with one and the same hostname: every reconciliation after the first that
got a hostname, and the release at the end in any environment, use the hostname of the
first, unless it is empty.\<close>

theorem one_hostname_per_claim:
  fixes env0 :: "'s claim_env"
  assumes "claim_run env0 c hs" and "[] \<notin> set hs" and "hn \<in> set hs"
  shows "set hs = {hn} \<and> (\<forall>(env :: 's claim_env) h. h_claim h = c \<longrightarrow> getHostname env h = Inr hn)"
  using claim_run_annotation [OF assms(1,2)] assms(3) getHostname_annotated by fastforce

theorem one_hostname_per_claim_witness:
  "getHostname (example_env\<lparr>ce_get := (\<lambda>v k ns n. Inl (KubeError ''down''))\<rparr>)
     (fst (ensureHostname example_env (example_handler\<lparr>h_pool := Some zone_pool\<rparr>))) = Inr ''m1.example.org''"
proof -
  let ?h = "\<lparr>h_claim = example_claim, h_pool = Some zone_pool, h_ibclient = Some example_client\<rparr>"
  have "snd (ensureHostname example_env ?h) = Inr ''m1.example.org''" by code_simp
  then obtain h1 where r: "ensureHostname example_env ?h = (h1, Inr ''m1.example.org'')" by (metis prod.collapse)
  have "claim_run example_env example_claim []"
    by (rule claim_new) (simp add: example_claim_def annotation_def)
  from claim_ensure [OF this r] have "claim_run example_env (h_claim h1) [''m1.example.org'']" by simp
  from one_hostname_per_claim [OF this, of "''m1.example.org''"] r show ?thesis
    by (simp add: example_handler_def)
qed

subsection \<open>Releasing\<close>

lemma release_every:
  assumes "getHostname env h = Inr hn" and "h_pool h = Some pool" and "Subnets (p_Spec pool) \<noteq> []"
    and "h_ibclient h = Some (infoblox_Client c)"
  shows "Handler_ReleaseAddress env h s =
    (None, fold (\<lambda>p s. snd (ReleaseAddress (connector c) (NetworkView (p_Spec pool))
                (handler_view pool (infoblox_Client c)) p hn s))
             (List.map_filter (\<lambda>sub. ParsePrefix (CIDR sub)) (Subnets (p_Spec pool))) s)"
proof -
  have "cl_ReleaseAddress (infoblox_Client c) = ReleaseAddress (connector c)"
    by (simp add: infoblox_Client_def)
  then show ?thesis
    using assms client.release_loop_all [of pool c hn "Subnets (p_Spec pool)" s]
    by (simp add: Handler_ReleaseAddress_def release_states_def)
qed

text \<open>Release leaves no subnet out: with a client of the provider and a hostname, for a pool
with subnets, \<open>ReleaseAddress\<close> always succeeds, and its effect on the appliance is that of
releasing the hostname in every subnet that parses, in order, whatever errors occur on the
way: none of them is reported.\<close>

theorem release_every_subnet:
  assumes "getHostname env h = Inr hn" and "h_pool h = Some pool" and "Subnets (p_Spec pool) \<noteq> []"
    and "h_ibclient h = Some (infoblox_Client c)"
  shows "Handler_ReleaseAddress env h s =
    (None, fold (\<lambda>p s. snd (ReleaseAddress (connector c) (NetworkView (p_Spec pool))
                (handler_view pool (infoblox_Client c)) p hn s))
             (List.map_filter (\<lambda>sub. ParsePrefix (CIDR sub)) (Subnets (p_Spec pool))) s)"
  using assms by (rule release_every)

theorem release_every_subnet_witness:
  "fst (Handler_ReleaseAddress example_env example_handler None) = None"
proof -
  have g: "getHostname example_env example_handler = Inr ''c1''" by code_simp
  have p: "h_pool example_handler = Some claim_pool" "Subnets (p_Spec claim_pool) \<noteq> []"
    "h_ibclient example_handler = Some (infoblox_Client example_impl)"
    by (simp_all add: example_handler_def claim_pool_def deleted_pool_def example_client_def)
  show ?thesis by (simp add: release_every_subnet [OF g p])
qed

subsection \<open>Fetching the pool\<close>

text \<open>\<open>FetchPool\<close> hands out a pool without an error exactly if the pool the claim refers to
exists in the claim's namespace, is not marked as not ready, and a client for its instance is
obtained; the handler then holds that pool and that client and the claim is untouched. If
the pool is marked as not ready, the claim's Ready condition is set to false with the reason
PoolNotReady and no client is created.\<close>

theorem fetch_pool_exact:
  assumes "FetchPool env h = (h', r, e)"
  shows "(e = None \<longleftrightarrow>
            (\<exists>pool cl. get_Pool (ce_reader env) (c_Namespace (h_claim h)) (ref_Name (c_PoolRef (h_claim h))) = Inr pool \<and>
               \<not> lib_IsFalse (ce_lib env) (pool_GetConditions pool) ReadyCondition \<and>
               getInfobloxClientForInstance (ce_reader env) (InstanceRef (p_Spec pool))
                 (ce_operatorNamespace env) (ce_newInfobloxClientFunc env) = Inr cl \<and>
               r = Some pool \<and> h' = h\<lparr>h_pool := Some pool, h_ibclient := Some cl\<rparr>)) \<and>
         (\<forall>pool. get_Pool (ce_reader env) (c_Namespace (h_claim h)) (ref_Name (c_PoolRef (h_claim h))) = Inr pool \<longrightarrow>
            lib_IsFalse (ce_lib env) (pool_GetConditions pool) ReadyCondition \<longrightarrow>
            h_ibclient h' = h_ibclient h \<and> e \<noteq> None \<and>
            (\<exists>msg. h_claim h' = claim_Set (ce_lib env) (h_claim h) (ready_cond ConditionFalse PoolNotReadyReason msg)))"
  using assms by (auto simp: FetchPool_def Let_def split: sum.splits if_splits)

theorem fetch_pool_exact_witness:
  "snd (snd (FetchPool example_env (ClaimHandlerFor example_claim))) = None"
proof -
  let ?h = "ClaimHandlerFor example_claim :: HostRecord option claim_handler"
  obtain h' r e where f: "FetchPool example_env ?h = (h', r, e)"
    by (metis prod.collapse)
  obtain ac where ac: "AuthConfigFromSecretData example_secret = Inr ac" using credentials_of_example by blast
  have gp: "get_Pool (ce_reader example_env) ns n = Inr claim_pool" for ns n
    by (simp add: example_env_def)
  have nf: "\<not> lib_IsFalse (ce_lib example_env) (pool_GetConditions claim_pool) ReadyCondition"
    by (simp add: example_env_def example_lib_def claim_pool_def deleted_pool_def pool_GetConditions_def)
  have gc: "getInfobloxClientForInstance (ce_reader example_env) (InstanceRef (p_Spec claim_pool))
      (ce_operatorNamespace example_env) (ce_newInfobloxClientFunc example_env) = Inr example_client"
    using ac by (simp add: client_for_instance_ok example_env_def example_reader_def)
  have "h' = ?h\<lparr>h_pool := Some claim_pool, h_ibclient := Some example_client\<rparr>" "r = Some claim_pool"
    using f unfolding FetchPool_def gp by (auto simp: Let_def nf gc)
  then have "e = None"
    using fetch_pool_exact [OF f, THEN conjunct1, THEN iffD2] gp nf gc by blast
  with f show ?thesis by simp
qed

subsection \<open>Repeating a reconciliation\<close>

lemma allocate_single:
  assumes "allocate_loop pool (Some cl) hn [sub] [] s = (Allocated a p sub', s')"
  shows "sub' = sub \<and> ParsePrefix (CIDR sub) = Some p \<and>
         cl_GetOrAllocateAddress cl (NetworkView (p_Spec pool)) (handler_view pool cl) p hn
           (DNSZone (p_Spec pool)) s = (Inr a, s')"
proof -
  have sub': "sub' = sub" "ParsePrefix (CIDR sub) = Some p"
    using allocate_loop_Allocated [OF assms] by (auto simp: Cons_eq_append_conv)
  with assms show ?thesis
    by (auto simp: handler_view_def split: prod.splits sum.splits option.splits)
qed

text \<open>Reconciling a claim again is stable: for a pool with one subnet, if \<open>EnsureAddress\<close>
succeeded, then running it again, in any environment, on the claim it left and with the
appliance as it left it, succeeds with the same address object and leaves the appliance
unchanged: no second address is taken.\<close>

theorem ensure_idempotent:
  assumes "EnsureAddress env h address s = ((h', address', None), s')"
    and "h_ibclient h = Some (infoblox_Client c)" and "wapi_ok (connector c)" and "refs_ok (connector c)"
    and "h_pool h = Some pool" and "Subnets (p_Spec pool) = [sub]"
    and "annotation (h_claim h') hostnameAnnotation \<noteq> []"
  shows "\<exists>h''. EnsureAddress env2 h' address s' = ((h'', address', None), s')"
proof -
  let ?nv = "NetworkView (p_Spec pool)" and ?dv = "handler_view pool (infoblox_Client c)"
    and ?z = "DNSZone (p_Spec pool)"
  obtain h1 hn a p sub' where e: "ensureHostname env h = (h1, Inr hn)"
    and l: "allocate_loop pool (Some (infoblox_Client c)) hn [sub] [] s = (Allocated a p sub', s')"
    and a': "address' = address\<lparr>a_Address := AddrString a, a_Prefix := Some (of_nat (Bits p)), a_Gateway := Gateway sub'\<rparr>"
    and h': "h' = h1\<lparr>h_claim := claim_Set (ce_lib env) (h_claim h1) (ready_cond ConditionTrue AddressAllocatedReason (Text []))\<rparr>"
    using EnsureAddress_ok [OF assms(1)] assms(2,5,6) by (metis option.inject)
  have eh: "annotation (h_claim h1) hostnameAnnotation = hn" "h_pool h1 = Some pool"
    "h_ibclient h1 = Some (infoblox_Client c)" "HasSuffix hn ?z"
    using ensureHostname_ok [OF e] assms(2,5) by auto
  have hn: "hn \<noteq> []" using assms(7) h' eh(1) by simp
  have sub': "sub' = sub" "ParsePrefix (CIDR sub) = Some p"
    and g: "cl_GetOrAllocateAddress (infoblox_Client c) ?nv ?dv p hn ?z s = (Inr a, s')"
    using allocate_single [OF l] by simp_all
  from g have "cl_GetOrAllocateAddress (infoblox_Client c) ?nv ?dv p hn ?z s' = (Inr a, s')"
    using allocate_repeat [OF assms(3,4)] by (simp add: infoblox_Client_def)
  then have l2: "allocate_loop pool (Some (infoblox_Client c)) hn [sub] [] s' = (Allocated a p sub, s')"
    using sub' by (simp add: handler_view_def)
  have "getHostname env2 h' = Inr hn"
    by (rule getHostname_annotated) (simp_all add: h' eh(1) hn)
  then obtain h2 where "ensureHostname env2 h' = (h2, Inr hn)" "h_pool h2 = Some pool"
    "h_ibclient h2 = Some (infoblox_Client c)"
    using eh h' by (simp add: ensureHostname_def Let_def)
  then show ?thesis
    using l2 assms(6) a' sub' by (simp add: EnsureAddress_def)
qed

theorem ensure_idempotent_witness:
  "\<exists>h' address' s' h''. EnsureAddress example_env example_handler new_address None = ((h', address', None), s') \<and>
     EnsureAddress example_env h' new_address s' = ((h'', address', None), s')"
proof -
  obtain h' address' s' where e: "EnsureAddress example_env example_handler new_address None = ((h', address', None), s')"
    using example_ensure by (metis prod.collapse)
  have "annotation (h_claim (fst (fst (EnsureAddress example_env example_handler new_address None)))) hostnameAnnotation = ''c1''"
    by code_simp
  with e have n: "annotation (h_claim h') hostnameAnnotation \<noteq> []" by simp
  have c: "h_ibclient example_handler = Some (infoblox_Client example_impl)" "h_pool example_handler = Some claim_pool"
    "Subnets (p_Spec claim_pool) = [\<lparr>CIDR = ''10.0.0.0/24'', Gateway = ''10.0.0.1''\<rparr>]"
    by (simp_all add: example_handler_def example_client_def claim_pool_def deleted_pool_def)
  have "wapi_ok (connector example_impl)" "refs_ok (connector example_impl)"
    by (simp_all add: example_impl_def example_wapi_ok example_refs_ok)
  from ensure_idempotent [OF e c(1) this c(2,3) n, of example_env] e show ?thesis by blast
qed

end
