(* ===== verification/Allocator.thy ===== *)
theory Allocator
  imports AddressProps
begin

text \<open>
  What the Infoblox client promises, as an abstract allocator: for every host and subnet a
  queue of addresses. Allocation gives out its head, and takes what the appliance newly assigns
  only if the queue is empty; release drops the head. The operations of \<open>pkg/infoblox/addresses.go\<close> implement it.
\<close>

subsection \<open>The abstraction\<close>

text \<open>The addresses that a host holds in a subnet; none if its record cannot be determined.\<close>

definition held :: "'s connector_ops \<Rightarrow> string \<Rightarrow> string \<Rightarrow> prefix \<Rightarrow> 's \<Rightarrow> addr list option" where
  "held con nv h subnet s =
     (case fst (con_List con (record_query nv h) s) of
        Inl (NotFoundError _) \<Rightarrow> Some []
      | Inl (IBError _) \<Rightarrow> None
      | Inr rs \<Rightarrow> (case rs of [r] \<Rightarrow> Some (addrs_in r subnet) | _ \<Rightarrow> None))"

text \<open>The abstract operations, given the addresses that the appliance assigns if it is asked.\<close>

fun queue_allocate :: "addr list \<Rightarrow> addr list \<Rightarrow> addr \<times> addr list" where
  "queue_allocate fresh [] = (hd fresh, fresh)"
| "queue_allocate fresh (a # as) = (a, a # as)"

definition queue_release :: "addr list \<Rightarrow> addr list" where
  "queue_release as = tl as"

subsection \<open>What the appliance promises\<close>

text \<open>
  Beside \<open>wapi_ok\<close>: a record that is updated with one of its entries left out is then listed
  with the other entries as they were, and a record that is deleted is not found.
\<close>

definition wapi_queue_ok :: "'s connector_ops \<Rightarrow> bool" where
  "wapi_queue_ok con \<longleftrightarrow> wapi_ok con \<and>
     (\<forall>nv h s r0 pre t post hr ref s1.
        con_List con (record_query nv h) s = (Inr [r0], s) \<longrightarrow>
        hr_Ref hr = hr_Ref r0 \<longrightarrow> hr_Name hr = hr_Name r0 \<longrightarrow>
        con_Update con hr (hr_Ref r0) s = (Inr ref, s1) \<longrightarrow>
        record_texts r0 = pre @ t # post \<longrightarrow> record_texts hr = pre @ post \<longrightarrow>
        (\<exists>r. con_List con (record_query nv h) s1 = (Inr [r], s1) \<and> same_addrs r hr)) \<and>
     (\<forall>nv h s r0 ref s1.
        con_List con (record_query nv h) s = (Inr [r0], s) \<longrightarrow>
        con_Delete con (hr_Ref r0) s = (Inr ref, s1) \<longrightarrow>
        (\<exists>m. con_List con (record_query nv h) s1 = (Inl (NotFoundError m), s1)))"

lemma wapi_queue_update:
  "wapi_queue_ok con \<Longrightarrow> con_List con (record_query nv h) s = (Inr [r0], s) \<Longrightarrow>
     hr_Ref hr = hr_Ref r0 \<Longrightarrow> hr_Name hr = hr_Name r0 \<Longrightarrow>
     con_Update con hr (hr_Ref r0) s = (Inr ref, s1) \<Longrightarrow>
     record_texts r0 = pre @ t # post \<Longrightarrow> record_texts hr = pre @ post \<Longrightarrow>
     \<exists>r. con_List con (record_query nv h) s1 = (Inr [r], s1) \<and> same_addrs r hr"
  by (rule wapi_queue_ok_def [THEN iffD1, THEN conjunct2, THEN conjunct1, rule_format,
        of con nv h s r0 hr ref s1 pre t post]) assumption+

lemma wapi_queue_delete:
  "wapi_queue_ok con \<Longrightarrow> con_List con (record_query nv h) s = (Inr [r0], s) \<Longrightarrow>
     con_Delete con (hr_Ref r0) s = (Inr ref, s1) \<Longrightarrow>
     \<exists>m. con_List con (record_query nv h) s1 = (Inl (NotFoundError m), s1)"
  by (rule wapi_queue_ok_def [THEN iffD1, THEN conjunct2, THEN conjunct2, rule_format,
        of con nv h s r0 ref s1]) assumption+

lemma held_cases:
  assumes "wapi_ok con" and "held con nv h subnet s = Some as"
  obtains (absent) m where "con_List con (record_query nv h) s = (Inl (NotFoundError m), s)" "as = []"
  | (listed) r where "con_List con (record_query nv h) s = (Inr [r], s)" "as = addrs_in r subnet"
proof -
  obtain x s1 where l: "con_List con (record_query nv h) s = (x, s1)"
    by (cases "con_List con (record_query nv h) s")
  then have s1: "s1 = s" using wapi_read_only(1) [OF assms(1)] by blast
  then show thesis
    using assms(2) l that
    by (auto simp: held_def split: sum.splits ib_error.splits list.splits)
qed

lemma held_listed: "con_List con (record_query nv h) s = (Inr [r], s') \<Longrightarrow> held con nv h subnet s = Some (addrs_in r subnet)"
  by (simp add: held_def)

lemma held_absent: "con_List con (record_query nv h) s = (Inl (NotFoundError m), s') \<Longrightarrow> held con nv h subnet s = Some []"
  by (simp add: held_def)

lemma addrs_in_prepare: "addrs_in (prepareHostRecordForUpdate hr) subnet = addrs_in hr subnet"
proof -
  have "same_addrs (prepareHostRecordForUpdate hr) hr"
    by (simp add: same_addrs_def prepareHostRecordForUpdate_def comp_def)
  then show ?thesis by (rule same_addrs_in)
qed

lemma addrs_in_no_texts: "record_texts hr = [] \<Longrightarrow> addrs_in hr subnet = []"
  by (auto simp: record_texts_def addrs_in_def map_filter_def)

text \<open>
  What a successful release did: nothing, or the record is without the entry taken out, which
  says for every subnet what the host holds afterwards.
\<close>

lemma ReleaseAddress_cases:
  assumes W: "wapi_queue_ok con" and R: "refs_ok con"
    and h: "held con nv h subnet s = Some as"
    and r: "ReleaseAddress con nv dv subnet h s = (None, s')"
  obtains (nothing) "s' = s" "as = []"
  | (taken) rec rec1 where "con_List con (record_query nv h) s = (Inr [rec], s)"
      "release_from_record rec subnet = Some rec1" "\<And>other. held con nv h other s' = Some (addrs_in rec1 other)"
proof -
  have W1: "wapi_ok con" and E: "empty_record_ok con"
    using W R by (simp_all add: wapi_queue_ok_def refs_ok_def)
  from W1 h show thesis
  proof (cases rule: held_cases)
    case (absent m)
    then have "release_from_record (new_host_record con nv dv [] h) subnet = None"
      using new_record_unallocated [OF E] by (simp add: release_None_iff IsValid_def)
    then have "s' = s" using r absent(1) by (simp add: ReleaseAddress_def getOrNew_not_found)
    with absent(2) show ?thesis by (intro that(1))
  next
    case (listed rec)
    show ?thesis
    proof (cases "release_from_record rec subnet")
      case None
      then have "s' = s" using r listed(1) by (simp add: ReleaseAddress_def getOrNew_found)
      with None listed(2) show ?thesis by (intro that(1)) (simp_all add: release_None_spec)
    next
      case (Some rec1)
      obtain pre t post where t: "record_texts rec = pre @ t # post" "record_texts rec1 = pre @ post"
        using release_one_entry [OF Some] by blast
      have keep: "hr_Ref rec1 = hr_Ref rec" "hr_Name rec1 = hr_Name rec"
        using release_keeps_rest [OF Some] by simp_all
      have "held con nv h other s' = Some (addrs_in rec1 other)" for other
      proof (cases "record_texts rec1 = []")
        case True
        then have e: "length (elems (hr_Ipv4Addrs rec1)) = 0 \<and> length (elems (hr_Ipv6Addrs rec1)) = 0"
          by (simp add: record_texts_def)
        with r listed(1) Some keep obtain ref where "con_Delete con (hr_Ref rec) s = (Inr ref, s')"
          by (auto simp: ReleaseAddress_def getOrNew_found split: prod.splits sum.splits)
        from wapi_queue_delete [OF W listed(1) this] obtain m
          where "con_List con (record_query nv h) s' = (Inl (NotFoundError m), s')" by blast
        then show ?thesis using held_absent addrs_in_no_texts [OF True] by simp
      next
        case False
        then have e: "\<not> (length (elems (hr_Ipv4Addrs rec1)) = 0 \<and> length (elems (hr_Ipv6Addrs rec1)) = 0)"
          by (simp add: record_texts_def)
        let ?p = "prepareHostRecordForUpdate rec1"
        have "ReleaseAddress con nv dv subnet h s =
            (case con_Update con ?p (hr_Ref rec) s of
               (Inl err, s2) \<Rightarrow> (Some (Wrap ''failed to update Infoblox host record: %w''
                                  (the (tryParseWapiError (Some err)))), s2)
             | (Inr _, s2) \<Rightarrow> (None, s2))"
          by (simp only: ReleaseAddress_def getOrNew_found [OF listed(1)] prod.case sum.case Some option.case
              e if_False Let_def prepare_keeps keep)
        with r obtain ref where u: "con_Update con ?p (hr_Ref rec) s = (Inr ref, s')"
          by (auto split: prod.splits sum.splits)
        have "record_texts ?p = pre @ post" using t by simp
        with wapi_queue_update [OF W listed(1) _ _ u t(1)] keep obtain rec2
          where l2: "con_List con (record_query nv h) s' = (Inr [rec2], s')" "same_addrs rec2 ?p"
          by auto
        from same_addrs_in [OF l2(2)] held_listed [OF l2(1)] show ?thesis by (simp add: addrs_in_prepare)
      qed
      with listed(1) Some show ?thesis by (rule that(2))
    qed
  qed
qed

lemma ReleaseAddress_queue:
  assumes "wapi_queue_ok con" and "refs_ok con" and "held con nv h subnet s = Some as"
    and "ReleaseAddress con nv dv subnet h s = (None, s')"
  shows "held con nv h subnet s' = Some (queue_release as)"
  using assms
proof (cases rule: ReleaseAddress_cases)
  case nothing
  with assms(3) show ?thesis by (simp add: queue_release_def)
next
  case (taken rec rec1)
  with assms(3) release_spec [OF taken(2)] held_listed [OF taken(1)] show ?thesis
    by (simp add: queue_release_def)
qed

text \<open>Releasing in one subnet leaves what the host holds in a disjoint one.\<close>

definition disjoint_prefixes :: "prefix \<Rightarrow> prefix \<Rightarrow> bool" where
  "disjoint_prefixes p q \<longleftrightarrow> (\<forall>a. PrefixContains p a \<longrightarrow> \<not> PrefixContains q a)"

lemma ReleaseAddress_frame:
  assumes "wapi_queue_ok con" and "refs_ok con" and "held con nv h subnet s = Some as"
    and "ReleaseAddress con nv dv subnet h s = (None, s')"
    and "held con nv h other s = Some bs" and "disjoint_prefixes subnet other"
  shows "held con nv h other s' = Some bs"
  using assms(1-4)
proof (cases rule: ReleaseAddress_cases)
  case nothing
  with assms(5) show ?thesis by simp
next
  case (taken rec rec1)
  with assms(5) release_spec_other [OF taken(2)] assms(6) held_listed [OF taken(1)] show ?thesis
    by (simp add: disjoint_prefixes_def)
qed

lemma GetOrAllocateAddress_queue:
  assumes W: "wapi_ok con" and R: "refs_ok con"
    and h: "held con nv h subnet s = Some as"
    and g: "GetOrAllocateAddress con nv dv subnet h z s = (Inr a, s')"
  shows "\<exists>fresh q. fresh \<noteq> [] \<and> queue_allocate fresh as = (a, q) \<and> held con nv h subnet s' = Some q"
proof (cases as)
  case Nil
  obtain r as' where "con_List con (record_query nv h) s' = (Inr [r], s')" "addrs_in r subnet = a # as'"
    using allocate_listed [OF W R g] by blast
  with Nil show ?thesis
    by (intro exI [of _ "a # as'"]) (simp add: held_def)
next
  case (Cons b bs)
  from W h obtain r where r: "con_List con (record_query nv h) s = (Inr [r], s)" "as = addrs_in r subnet"
    using Cons by (cases rule: held_cases) auto
  with Cons g have "a = b" "s' = s" using allocate_found [of con nv h s r s subnet b bs] by simp_all
  with Cons h show ?thesis
    by (intro exI [of _ "[a]"] exI [of _ as]) simp
qed

subsection \<open>The example connector keeps the promises\<close>

definition func_text :: "string option \<Rightarrow> bool" where
  "func_text t = HasPrefix (case t of None \<Rightarrow> [] | Some t \<Rightarrow> t) ''func:''"

lemma not_func_text: "\<not> HasPrefix ''10.0.0.2'' ''func:''" "\<not> HasPrefix ''2001:db8::2'' ''func:''"
  by (simp_all add: HasPrefix_def)

lemma example_assign_texts: "t \<in> set (record_texts (example_assign r)) \<Longrightarrow> \<not> func_text t"
  by (cases "hr_Ipv4Addrs r"; cases "hr_Ipv6Addrs r")
    (auto simp: record_texts_def example_assign_def func_text_def not_func_text split: if_splits)

lemma example_assign_same:
  "\<forall>t\<in>set (record_texts r). \<not> func_text t \<Longrightarrow> same_addrs (example_assign r) r"
  by (cases "hr_Ipv4Addrs r"; cases "hr_Ipv6Addrs r")
    (auto simp: record_texts_def example_assign_def func_text_def same_addrs_def)

lemma example_wapi_queue_ok: "wapi_queue_ok example_con"
  unfolding wapi_queue_ok_def
proof (intro conjI allI impI example_wapi_ok)
  fix nv h s r0 pre t post hr ref s1
  assume l: "con_List example_con (record_query nv h) s = (Inr [r0], s)"
    and hr: "hr_Ref hr = hr_Ref r0" "hr_Name hr = hr_Name r0"
    and u: "con_Update example_con hr (hr_Ref r0) s = (Inr ref, s1)"
    and t: "record_texts r0 = pre @ t # post" "record_texts hr = pre @ post"
  from l obtain r where r0: "r0 = example_assign r" "hr_Name r = Some h" "hr_Ref r \<noteq> []"
    by (rule example_listed)
  have s1: "s1 = Some hr" using u by (auto simp: example_con_simps)
  have "set (record_texts hr) \<subseteq> set (record_texts (example_assign r))" using t r0 by auto
  then have "same_addrs (example_assign hr) hr"
    using example_assign_texts example_assign_same by blast
  moreover have "con_List example_con (record_query nv h) s1 = (Inr [example_assign hr], s1)"
    unfolding s1 by (rule example_con_simps) (simp_all add: hr r0)
  ultimately show "\<exists>r. con_List example_con (record_query nv h) s1 = (Inr [r], s1) \<and> same_addrs r hr"
    by blast
next
  fix nv h s r0 ref s1
  assume "con_Delete example_con (hr_Ref r0) s = (Inr ref, s1)"
  then have "s1 = None" by (auto simp: example_con_simps)
  then show "\<exists>m. con_List example_con (record_query nv h) s1 = (Inl (NotFoundError m), s1)"
    by (auto simp: example_con_simps)
qed

subsection \<open>Refinement\<close>

text \<open>C5: The two operations of the Infoblox client refine a queue of addresses per host and
subnet. If the host's queue is \<open>as\<close>, a successful allocation returns what the abstract
allocation returns - the head of the queue, or of the addresses newly assigned if it was empty -
and leaves the queue it leaves; a successful release leaves the queue without its head.\<close>

theorem allocator_refinement:
  assumes "wapi_queue_ok con" and "refs_ok con" and "held con nv h subnet s = Some as"
  shows "(\<forall>dv z a s'. GetOrAllocateAddress con nv dv subnet h z s = (Inr a, s') \<longrightarrow>
            (\<exists>fresh q. fresh \<noteq> [] \<and> queue_allocate fresh as = (a, q) \<and>
               held con nv h subnet s' = Some q)) \<and>
         (\<forall>dv s'. ReleaseAddress con nv dv subnet h s = (None, s') \<longrightarrow>
            held con nv h subnet s' = Some (queue_release as))"
proof -
  have "wapi_ok con" using assms(1) by (simp add: wapi_queue_ok_def)
  then show ?thesis
    using GetOrAllocateAddress_queue [OF _ assms(2,3)] ReleaseAddress_queue [OF assms] by blast
qed

theorem allocator_refinement_witness:
  "held example_con [] ''m1'' example_subnet (Some example_record) = Some [V4 0x0A000002] \<and>
   (\<exists>s'. ReleaseAddress example_con [] [] example_subnet ''m1'' (Some example_record) = (None, s') \<and>
      held example_con [] ''m1'' example_subnet s' = Some [])"
proof -
  have h: "held example_con [] ''m1'' example_subnet (Some example_record) = Some [V4 0x0A000002]"
    by code_simp
  have "fst (ReleaseAddress example_con [] [] example_subnet ''m1'' (Some example_record)) = None"
    by code_simp
  then obtain s' where
    "ReleaseAddress example_con [] [] example_subnet ''m1'' (Some example_record) = (None, s')"
    by (metis prod.collapse)
  with h allocator_refinement [OF example_wapi_queue_ok example_refs_ok h] show ?thesis
    by (simp add: queue_release_def)
qed

end
