(* ===== verification/Webhook.thy ===== *)
theory Webhook
  imports PoolIndex NetipFacts
begin

text \<open>
  \<open>internal/webhooks/infobloxippool.go\<close>: the defaulting and validating webhook of pools.
\<close>

subsection \<open>Admission errors\<close>

datatype field_value = FString string | FSubnets "Subnet list"

text \<open>\<open>field.Invalid\<close>: the path as the list of its names, the rejected value and the detail.\<close>

record field_error =
  fe_Path :: "string list"
  fe_Value :: field_value
  fe_Detail :: "text"

datatype adm_error =
    BadRequest "text"
  | InternalError kube_error
  | InvalidObject GroupKind string "field_error list"

text \<open>
  A webhook call panics (\<open>Inl\<close>) or returns an error or nil. The warnings it returns as well
  are nil on every path.
\<close>

type_synonym admission = "string + adm_error option"

definition field_Invalid :: "string list \<Rightarrow> field_value \<Rightarrow> text \<Rightarrow> field_error" where
  "field_Invalid path value detail = \<lparr>fe_Path = path, fe_Value = value, fe_Detail = detail\<rparr>"

subsection \<open>Validation\<close>

definition subnetPath :: "nat \<Rightarrow> string" where
  "subnetPath i = ''Subnet['' @ Itoa i @ '']''"

text \<open>
  One iteration of the loop over the subnets: the errors it appends, or a panic. After a
  failed \<open>net.ParseCIDR\<close> the network is a nil pointer, which is dereferenced to parse its
  address. A failed parse of the gateway leaves the zero address.
\<close>

definition validate_subnet :: "nat \<Rightarrow> Subnet \<Rightarrow> string + field_error list" where
  "validate_subnet i subnet =
     (let network = ParseCIDR (CIDR subnet);
          cidrErrs = (if network = None \<or> IPNetString (the network) \<noteq> CIDR subnet
                      then [field_Invalid [''spec'', subnetPath i, ''CIDR''] (FString (CIDR subnet))
                              (Text (subnetPath i @ ''.CIDR is not a valid CIDR''))] else []);
          (gatewayIP, gatewayErrs) =
            (case ParseAddr (Gateway subnet) of
               None \<Rightarrow> (ZeroAddr, [field_Invalid [''spec'', subnetPath i, ''Gateway''] (FString (Gateway subnet))
                          (Fmt (subnetPath i @ ''.Gateway is not a valid IP address'' @ '' '')
                             [Error (ParseError (Gateway subnet))])])
             | Some ip \<Rightarrow> (ip, []))
      in case network of
           None \<Rightarrow> Inl ''nil pointer dereference: network.IP''
         | Some net \<Rightarrow>
             (let (networkIP, networkErrs) =
                (case ParseAddr (NetIPString net) of
                   None \<Rightarrow> (ZeroAddr, [field_Invalid [''spec'', subnetPath i, ''CIDR''] (FString (CIDR subnet))
                              (Text (subnetPath i @ ''.CIDR could not be parsed''))])
                 | Some ip \<Rightarrow> (ip, []));
                  ipVersionsMatched = (Is4 networkIP \<and> Is4 gatewayIP) \<or> (Is6 networkIP \<and> Is6 gatewayIP)
              in Inr (cidrErrs @ gatewayErrs @ networkErrs @
                   (if \<not> ipVersionsMatched
                    then [field_Invalid [''spec'', subnetPath i] (FString (CIDR subnet))
                            (Text ''CIDR and gateway are mixed IPv4 and IPv6 addresses'')] else []))))"

fun validate_subnets :: "nat \<Rightarrow> Subnet list \<Rightarrow> string + field_error list" where
  "validate_subnets i [] = Inr []"
| "validate_subnets i (s # ss) =
     (case validate_subnet i s of
        Inl p \<Rightarrow> Inl p
      | Inr errs \<Rightarrow>
          (case validate_subnets (Suc i) ss of
             Inl p \<Rightarrow> Inl p
           | Inr errs' \<Rightarrow> Inr (errs @ errs')))"

definition validate :: "InfobloxIPPool \<Rightarrow> admission" where
  "validate newPool =
     (let allErrs =
        (if length (Subnets (p_Spec newPool)) = 0
         then [field_Invalid [''spec'', ''subnets''] (FSubnets (Subnets (p_Spec newPool)))
                 (Text ''subnets is required'')] else []) @
        (if InstanceRef (p_Spec newPool) = []
         then [field_Invalid [''spec'', ''InstanceRef.Name''] (FString (InstanceRef (p_Spec newPool)))
                 (Text ''InstanceRef.Name is required'')] else [])
      in case validate_subnets 0 (Subnets (p_Spec newPool)) of
           Inl p \<Rightarrow> Inl p
         | Inr errs \<Rightarrow>
             (let allErrs = allErrs @ errs
              in Inr (if length allErrs > 0
                      then Some (InvalidObject \<lparr>gk_Group = ''ipam.cluster.x-k8s.io'', gk_Kind = p_Kind newPool\<rparr>
                                   (p_Name newPool) allErrs)
                      else None)))"

subsection \<open>The webhook\<close>

definition Webhook_Default :: "kube_object \<Rightarrow> kube_object \<times> adm_error option" where
  "Webhook_Default obj = (obj, None)"

definition ValidateCreate :: "kube_object \<Rightarrow> admission" where
  "ValidateCreate obj =
     (case obj of
        OInfobloxIPPool pool \<Rightarrow> validate pool
      | _ \<Rightarrow> Inr (Some (BadRequest (Text ''expected an InfobloxIPPool''))))"

definition ValidateUpdate :: "kube_object \<Rightarrow> kube_object \<Rightarrow> admission" where
  "ValidateUpdate oldObj newObj =
     (case newObj of
        OInfobloxIPPool newPool \<Rightarrow>
          (case oldObj of
             OInfobloxIPPool oldPool \<Rightarrow>
               (case validate newPool of
                  Inl p \<Rightarrow> Inl p
                | Inr (Some err) \<Rightarrow> Inr (Some err)
                | Inr None \<Rightarrow> Inr None)
           | _ \<Rightarrow> Inr (Some (BadRequest (Text ''expected an InfbloxIPPool''))))
      | _ \<Rightarrow> Inr (Some (BadRequest (Text ''expected an InfbloxIPPool''))))"

definition SkipValidateDeleteWebhookAnnotation :: string where
  "SkipValidateDeleteWebhookAnnotation = ''ipam.cluster.x-k8s.io/skip-validate-delete-webhook''"

definition pool_reference :: "InfobloxIPPool \<Rightarrow> IPPoolReference" where
  "pool_reference pool =
     \<lparr>ref_APIGroup = p_Group pool, ref_Kind = p_Kind pool, ref_Name = p_Name pool\<rparr>"

definition ValidateDelete :: "kube_lib \<Rightarrow> IPAddress lister \<Rightarrow> kube_object \<Rightarrow> admission" where
  "ValidateDelete L c obj =
     (case obj of
        OInfobloxIPPool pool \<Rightarrow>
          if p_Annotations pool SkipValidateDeleteWebhookAnnotation \<noteq> None then Inr None
          else
            (let (inUseAddresses, err) = ListAddressesInUse L c (p_Namespace pool) (pool_reference pool)
             in case err of
                  Some e \<Rightarrow> Inr (Some (InternalError e))
                | None \<Rightarrow>
                    if length inUseAddresses > 0
                    then Inr (Some (BadRequest (Text ''Pool has IPAddresses allocated. Cannot delete Pool until all IPAddresses have been removed.'')))
                    else Inr None)
      | _ \<Rightarrow> Inr (Some (BadRequest (Text ''expected an InfobloxIPPool''))))"

subsection \<open>Facts\<close>

text \<open>A subnet that validation accepts.\<close>

definition subnet_valid :: "Subnet \<Rightarrow> bool" where
  "subnet_valid s \<longleftrightarrow>
     (\<exists>net gw. ParseCIDR (CIDR s) = Some net \<and> IPNetString net = CIDR s \<and>
        ParseAddr (Gateway s) = Some gw \<and>
        Is4 gw = Is4 (PrefixAddr (net_prefix net)) \<and> Is6 gw = Is6 (PrefixAddr (net_prefix net)))"

lemma net_prefix_family: "Is6 (PrefixAddr (net_prefix net)) \<longleftrightarrow> \<not> Is4 (PrefixAddr (net_prefix net))"
  by (cases net) auto

lemma canonical_prints:
  assumes "ParseCIDR s = Some net" and "IPNetString net = s"
  shows "PrefixString (net_prefix net) = s"
  using ParseCIDR_canonical [OF assms] assms(2)
  by (cases net) (auto simp: PrefixString_def split: if_splits)

lemma validate_subnet_panic_iff:
  "(\<exists>p. validate_subnet i s = Inl p) \<longleftrightarrow> ParseCIDR (CIDR s) = None"
  by (auto simp: validate_subnet_def Let_def split: option.splits prod.splits)

lemma is46_cases: "a \<noteq> ZeroAddr \<Longrightarrow> Is6 a = (\<not> Is4 a)"
  by (cases a) auto

lemma validate_subnet_ok_iff: "validate_subnet i s = Inr [] \<longleftrightarrow> subnet_valid s"
proof (cases "ParseCIDR (CIDR s)")
  case None
  then show ?thesis by (auto simp: validate_subnet_def subnet_valid_def Let_def split: prod.splits)
next
  case (Some net)
  show ?thesis
  proof (cases "IPNetString net = CIDR s")
    case True
    have "ParseAddr (NetIPString net) = Some (PrefixAddr (net_prefix net))"
      using ParseCIDR_canonical [OF Some True] by simp
    with Some True show ?thesis
      using net_prefix_family [of net]
      by (auto simp: validate_subnet_def subnet_valid_def Let_def split: option.splits
          dest: ParseAddr_valid is46_cases)
  next
    case False
    with Some show ?thesis
      by (auto simp: validate_subnet_def subnet_valid_def Let_def split: prod.splits option.splits)
  qed
qed

lemma validate_subnets_ok_iff: "validate_subnets i ss = Inr [] \<longleftrightarrow> (\<forall>s \<in> set ss. subnet_valid s)"
proof (induction ss arbitrary: i)
  case Nil
  then show ?case by simp
next
  case (Cons s ss)
  have "validate_subnets i (s # ss) = Inr [] \<longleftrightarrow>
      validate_subnet i s = Inr [] \<and> validate_subnets (Suc i) ss = Inr []"
    by (auto split: sum.splits)
  then show ?case by (simp add: Cons.IH validate_subnet_ok_iff)
qed

lemma validate_subnets_panic_iff:
  "(\<exists>p. validate_subnets i ss = Inl p) \<longleftrightarrow> (\<exists>s \<in> set ss. ParseCIDR (CIDR s) = None)"
proof (induction ss arbitrary: i)
  case Nil
  then show ?case by simp
next
  case (Cons s ss)
  have "(\<exists>p. validate_subnets i (s # ss) = Inl p) \<longleftrightarrow>
      (\<exists>p. validate_subnet i s = Inl p) \<or> (\<exists>p. validate_subnets (Suc i) ss = Inl p)"
    by (auto split: sum.splits)
  then show ?case by (simp add: Cons.IH validate_subnet_panic_iff)
qed

lemma validate_ok_iff:
  "validate pool = Inr None \<longleftrightarrow>
     Subnets (p_Spec pool) \<noteq> [] \<and> InstanceRef (p_Spec pool) \<noteq> [] \<and>
     (\<forall>s \<in> set (Subnets (p_Spec pool)). subnet_valid s)"
  using validate_subnets_ok_iff [of 0 "Subnets (p_Spec pool)"]
  by (auto simp: validate_def Let_def split: sum.splits)

text \<open>Every error of a subnet is reported, wherever the subnet stands.\<close>

lemma validate_subnets_errors:
  "validate_subnets i ss = Inr errs \<Longrightarrow> k < length ss \<Longrightarrow> validate_subnet (i + k) (ss ! k) = Inr es \<Longrightarrow>
     set es \<subseteq> set errs"
proof (induction ss arbitrary: i k errs)
  case Nil
  then show ?case by simp
next
  case (Cons s ss)
  then obtain e1 e2 where e: "validate_subnet i s = Inr e1" "validate_subnets (Suc i) ss = Inr e2"
    "errs = e1 @ e2"
    by (auto split: sum.splits)
  show ?case
  proof (cases k)
    case 0
    with Cons.prems e show ?thesis by simp
  next
    case (Suc k')
    with Cons.prems Cons.IH [OF e(2), of k'] e(3) show ?thesis by auto
  qed
qed

subsection \<open>Properties\<close>

definition example_pool :: InfobloxIPPool where
  "example_pool =
     \<lparr>p_Group = ''ipam.cluster.x-k8s.io'', p_Kind = ''InfobloxIPPool'', p_Name = ''p1'', p_Namespace = ''ns'',
      p_Annotations = (\<lambda>_. None), p_Finalizers = [], p_DeletionTimestamp = None,
      p_Spec = \<lparr>InstanceRef = ''i1'',
                Subnets = [\<lparr>CIDR = ''10.0.0.0/24'', Gateway = ''10.0.0.1''\<rparr>,
                           \<lparr>CIDR = ''2001:db8::/64'', Gateway = ''2001:db8::1''\<rparr>],
                NetworkView = [], DNSView = [], DNSZone = []\<rparr>,
      p_Conditions = []\<rparr>"

lemma validated_usable:
  assumes "ValidateCreate (OInfobloxIPPool pool) = Inr None"
  shows "InstanceRef (p_Spec pool) \<noteq> [] \<and> Subnets (p_Spec pool) \<noteq> [] \<and>
         (\<forall>s \<in> set (Subnets (p_Spec pool)). \<exists>p gw.
            ParsePrefix (CIDR s) = Some p \<and> prefix_ok p \<and> PrefixString p = CIDR s \<and>
            ParseAddr (Gateway s) = Some gw \<and>
            Is4 gw = Is4 (PrefixAddr p) \<and> Is6 gw = Is6 (PrefixAddr p))"
proof -
  from assms have v: "Subnets (p_Spec pool) \<noteq> []" "InstanceRef (p_Spec pool) \<noteq> []"
    and ok: "\<And>s. s \<in> set (Subnets (p_Spec pool)) \<Longrightarrow> subnet_valid s"
    by (auto simp: ValidateCreate_def validate_ok_iff)
  have "\<exists>p gw. ParsePrefix (CIDR s) = Some p \<and> prefix_ok p \<and> PrefixString p = CIDR s \<and>
      ParseAddr (Gateway s) = Some gw \<and> Is4 gw = Is4 (PrefixAddr p) \<and> Is6 gw = Is6 (PrefixAddr p)"
    if "s \<in> set (Subnets (p_Spec pool))" for s
  proof -
    have v_s: "subnet_valid s" by (rule ok [OF that])
    obtain net gw where n: "ParseCIDR (CIDR s) = Some net" "IPNetString net = CIDR s"
      and g: "ParseAddr (Gateway s) = Some gw"
        "Is4 gw = Is4 (PrefixAddr (net_prefix net))" "Is6 gw = Is6 (PrefixAddr (net_prefix net))"
      using v_s unfolding subnet_valid_def by blast
    have p: "ParsePrefix (CIDR s) = Some (net_prefix net)"
      using ParseCIDR_canonical [OF n] by simp
    show ?thesis using p ParsePrefix_ok [OF p] canonical_prints [OF n] g by blast
  qed
  with v show ?thesis by blast
qed

text \<open>What validation guarantees to the controllers: if the creation of a pool is admitted,
the pool names an instance and has a subnet, and every subnet's CIDR is accepted by the parser
the controllers use, as a prefix without zone and with a length in range that prints back as
the very text of the CIDR; its gateway parses to an address of the same family.\<close>

theorem validated_pool_usable:
  assumes "ValidateCreate (OInfobloxIPPool pool) = Inr None"
  shows "InstanceRef (p_Spec pool) \<noteq> [] \<and> Subnets (p_Spec pool) \<noteq> [] \<and>
         (\<forall>s \<in> set (Subnets (p_Spec pool)). \<exists>p gw.
            ParsePrefix (CIDR s) = Some p \<and> prefix_ok p \<and> PrefixString p = CIDR s \<and>
            ParseAddr (Gateway s) = Some gw \<and>
            Is4 gw = Is4 (PrefixAddr p) \<and> Is6 gw = Is6 (PrefixAddr p))"
  using assms by (rule validated_usable)

theorem validated_pool_usable_witness:
  "\<exists>p gw. ParsePrefix ''2001:db8::/64'' = Some p \<and> prefix_ok p \<and>
     PrefixString p = ''2001:db8::/64'' \<and> ParseAddr ''2001:db8::1'' = Some gw \<and>
     Is4 gw = Is4 (PrefixAddr p) \<and> Is6 gw = Is6 (PrefixAddr p)"
proof -
  have "ValidateCreate (OInfobloxIPPool example_pool) = Inr None" by code_simp
  from validated_pool_usable [OF this, THEN conjunct2, THEN conjunct2, rule_format,
      of "\<lparr>CIDR = ''2001:db8::/64'', Gateway = ''2001:db8::1''\<rparr>"]
  show ?thesis by (simp add: example_pool_def)
qed

lemma no_empty_gateway: "subnet_valid s \<Longrightarrow> Gateway s \<noteq> []"
proof
  assume "subnet_valid s" "Gateway s = []"
  moreover have "ParseAddr [] = None" by code_simp
  ultimately show False by (auto simp: subnet_valid_def)
qed

text \<open>C18: What validation admits: the creation of a pool passes if and only if there is a subnet,
an instance name, and every subnet has a canonical CIDR and a gateway that is an address of its
family; and an update is decided as the creation of the new pool would be, whatever the
old one was. This disagrees with the API: \<open>InfobloxIPPool\<close> and its CRD mark the gateway of a subnet
as optional, but a pool with a subnet without a gateway, which they allow, is never admitted, neither
on creation nor on update.\<close>

theorem validation_exact:
  "(ValidateCreate (OInfobloxIPPool pool) = Inr None \<longleftrightarrow>
      Subnets (p_Spec pool) \<noteq> [] \<and> InstanceRef (p_Spec pool) \<noteq> [] \<and>
      (\<forall>s \<in> set (Subnets (p_Spec pool)). subnet_valid s)) \<and>
   ValidateUpdate (OInfobloxIPPool old) (OInfobloxIPPool pool) = ValidateCreate (OInfobloxIPPool pool) \<and>
   (\<forall>s \<in> set (Subnets (p_Spec pool)). Gateway s = [] \<longrightarrow>
      ValidateCreate (OInfobloxIPPool pool) \<noteq> Inr None \<and>
      ValidateUpdate (OInfobloxIPPool old) (OInfobloxIPPool pool) \<noteq> Inr None)"
  using no_empty_gateway
  by (fastforce simp: ValidateCreate_def ValidateUpdate_def validate_ok_iff split: sum.splits option.splits)

definition no_gateway_pool :: InfobloxIPPool where
  "no_gateway_pool = example_pool\<lparr>p_Spec := (p_Spec example_pool)\<lparr>Subnets := [\<lparr>CIDR = ''10.0.0.0/24'', Gateway = []\<rparr>]\<rparr>\<rparr>"

theorem validation_exact_witness:
  "ValidateCreate (OInfobloxIPPool example_pool) = Inr None \<and>
   ValidateUpdate (OInfobloxIPPool example_pool) (OInfobloxIPPool no_gateway_pool) \<noteq> Inr None"
proof (rule conjI)
  show "ValidateCreate (OInfobloxIPPool example_pool) = Inr None"
    by code_simp
  have "\<lparr>CIDR = ''10.0.0.0/24'', Gateway = []\<rparr> \<in> set (Subnets (p_Spec no_gateway_pool))"
    by (simp add: no_gateway_pool_def)
  then show "ValidateUpdate (OInfobloxIPPool example_pool) (OInfobloxIPPool no_gateway_pool) \<noteq> Inr None"
    using validation_exact [of no_gateway_pool example_pool] by fastforce
qed

text \<open>C40: A CIDR that \<open>net.ParseCIDR\<close> does not accept is not reported as an invalid field: the
webhook panics, on creation and on update, exactly if the pool has such a subnet.\<close>

theorem invalid_cidr_panics:
  "((\<exists>p. ValidateCreate (OInfobloxIPPool pool) = Inl p) \<longleftrightarrow>
      (\<exists>s \<in> set (Subnets (p_Spec pool)). ParseCIDR (CIDR s) = None)) \<and>
   ((\<exists>p. ValidateUpdate (OInfobloxIPPool old) (OInfobloxIPPool pool) = Inl p) \<longleftrightarrow>
      (\<exists>s \<in> set (Subnets (p_Spec pool)). ParseCIDR (CIDR s) = None))"
  using validate_subnets_panic_iff [of 0 "Subnets (p_Spec pool)"]
  by (auto simp: ValidateCreate_def ValidateUpdate_def validate_def Let_def
      split: sum.splits option.splits if_splits)

text \<open>C36: When validation rejects a pool, it reports all that is wrong with its subnets: the
error carries an entry for the CIDR of every subnet that is not in canonical form, one for
every gateway that does not parse, and one for every subnet whose gateway is an address of
the other family, each under the index of its subnet.\<close>

theorem validation_reports_all:
  assumes "ValidateCreate (OInfobloxIPPool pool) = Inr r" and "k < length (Subnets (p_Spec pool))"
    and "s = Subnets (p_Spec pool) ! k" and "ParseCIDR (CIDR s) = Some net"
  shows "(IPNetString net \<noteq> CIDR s \<longrightarrow>
            (\<exists>gk n errs. r = Some (InvalidObject gk n errs) \<and>
               [''spec'', subnetPath k, ''CIDR''] \<in> fe_Path ` set errs)) \<and>
         (ParseAddr (Gateway s) = None \<longrightarrow>
            (\<exists>gk n errs. r = Some (InvalidObject gk n errs) \<and>
               [''spec'', subnetPath k, ''Gateway''] \<in> fe_Path ` set errs)) \<and>
         (\<forall>gw ip. ParseAddr (Gateway s) = Some gw \<longrightarrow> ParseAddr (NetIPString net) = Some ip \<longrightarrow>
            Is4 gw \<noteq> Is4 ip \<longrightarrow>
            (\<exists>gk n errs. r = Some (InvalidObject gk n errs) \<and>
               [''spec'', subnetPath k] \<in> fe_Path ` set errs))"
proof -
  obtain errs where e: "validate_subnets 0 (Subnets (p_Spec pool)) = Inr errs"
    using assms(1) by (auto simp: ValidateCreate_def validate_def Let_def split: sum.splits)
  obtain es where es: "validate_subnet k s = Inr es"
    using validate_subnet_panic_iff [of k s] assms(4) by (cases "validate_subnet k s") auto
  have sub: "set es \<subseteq> set errs"
    using validate_subnets_errors [OF e assms(2)] es assms(3) by simp
  have rep: "\<exists>gk n errs'. r = Some (InvalidObject gk n errs') \<and> p \<in> fe_Path ` set errs'"
    if "p \<in> fe_Path ` set es" for p
  proof -
    have "p \<in> fe_Path ` set errs" and "errs \<noteq> []" using that sub by auto
    then show ?thesis
      using assms(1) e by (auto simp: ValidateCreate_def validate_def Let_def split: if_splits)
  qed
  show ?thesis
    using assms(4) es
    by (intro conjI allI impI rep)
      (auto simp: validate_subnet_def Let_def field_Invalid_def dest: ParseAddr_valid is46_cases
        split: option.splits if_splits prod.splits)
qed

definition example_mixed_pool :: InfobloxIPPool where
  "example_mixed_pool = example_pool\<lparr>p_Spec := (p_Spec example_pool)
     \<lparr>Subnets := [\<lparr>CIDR = ''10.0.0.0/24'', Gateway = ''2001:db8::1''\<rparr>]\<rparr>\<rparr>"

theorem validation_reports_all_witness:
  "\<exists>gk n errs. ValidateCreate (OInfobloxIPPool example_mixed_pool) = Inr (Some (InvalidObject gk n errs)) \<and>
     [''spec'', subnetPath 0] \<in> fe_Path ` set errs"
proof -
  have "is_ok (ValidateCreate (OInfobloxIPPool example_mixed_pool))" by code_simp
  then obtain r where r: "ValidateCreate (OInfobloxIPPool example_mixed_pool) = Inr r"
    by (auto split: sum.splits)
  let ?s = "\<lparr>CIDR = ''10.0.0.0/24'', Gateway = ''2001:db8::1''\<rparr>"
  have l: "0 < length (Subnets (p_Spec example_mixed_pool))" by (simp add: example_mixed_pool_def)
  have s: "?s = Subnets (p_Spec example_mixed_pool) ! 0" by (simp add: example_mixed_pool_def)
  have c: "ParseCIDR (CIDR ?s) = Some (IPNet4 0x0A000000 24)" by code_simp
  have g: "ParseAddr (Gateway ?s) = Some (V6 0x20010DB8000000000000000000000001 [])" by code_simp
  have n: "ParseAddr (NetIPString (IPNet4 0x0A000000 24)) = Some (V4 0x0A000000)" by code_simp
  have d: "Is4 (V6 0x20010DB8000000000000000000000001 []) \<noteq> Is4 (V4 0x0A000000)" by simp
  from validation_reports_all [OF r l s c, THEN conjunct2, THEN conjunct2, rule_format, OF g n d] r
  show ?thesis by blast
qed

lemma delete_admitted_iff:
  "ValidateDelete L (cache_of OIPAddress IPAddressByCombinedPoolRef a_Namespace store)
       (OInfobloxIPPool pool) = Inr None \<longleftrightarrow>
     p_Annotations pool SkipValidateDeleteWebhookAnnotation \<noteq> None \<or>
     (\<forall>a \<in> set store. a_Namespace a = p_Namespace pool \<longrightarrow>
        lib_ParseGroup L (a_APIVersion a) = ''ipam.cluster.x-k8s.io'' \<longrightarrow>
        ref_Kind (a_PoolRef a) @ ref_Name (a_PoolRef a) \<noteq> p_Kind pool @ p_Name pool)"
proof -
  have "filter P store = [] \<longleftrightarrow> (\<forall>a \<in> set store. \<not> P a)" for P
    by (simp add: filter_empty_conv)
  then show ?thesis
    by (auto simp: ValidateDelete_def addresses.listing_cache pool_reference_def Let_def split: if_splits)
qed

text \<open>C37: A pool without the skip annotation may be deleted only while no address refers to it:
whatever the listing returns, the deletion is admitted if and only if the pool has the
annotation, or the addresses of the pool's namespace with its kind and name could be listed
and none is of the IPAM group; if the listing fails, the deletion is rejected with an internal
error. With the cache, this means that no address in it, of the pool's namespace and the IPAM group, has a
reference with the pool's kind and name.\<close>

theorem delete_protected:
  "(ValidateDelete L c (OInfobloxIPPool pool) = Inr None \<longleftrightarrow>
      p_Annotations pool SkipValidateDeleteWebhookAnnotation \<noteq> None \<or>
      (\<exists>items. c (p_Kind pool @ p_Name pool) (p_Namespace pool) = (items, None) \<and>
         (\<forall>a \<in> set items. lib_ParseGroup L (a_APIVersion a) \<noteq> ''ipam.cluster.x-k8s.io''))) \<and>
   (p_Annotations pool SkipValidateDeleteWebhookAnnotation = None \<longrightarrow>
      snd (c (p_Kind pool @ p_Name pool) (p_Namespace pool)) = Some e \<longrightarrow>
      ValidateDelete L c (OInfobloxIPPool pool) = Inr (Some (InternalError e))) \<and>
   (ValidateDelete L (cache_of OIPAddress IPAddressByCombinedPoolRef a_Namespace store)
       (OInfobloxIPPool pool) = Inr None \<longleftrightarrow>
      p_Annotations pool SkipValidateDeleteWebhookAnnotation \<noteq> None \<or>
      (\<forall>a \<in> set store. a_Namespace a = p_Namespace pool \<longrightarrow>
         lib_ParseGroup L (a_APIVersion a) = ''ipam.cluster.x-k8s.io'' \<longrightarrow>
         ref_Kind (a_PoolRef a) @ ref_Name (a_PoolRef a) \<noteq> p_Kind pool @ p_Name pool))"
proof (intro conjI)
  obtain items err where l: "c (p_Kind pool @ p_Name pool) (p_Namespace pool) = (items, err)" by fastforce
  then have u: "ListAddressesInUse L c (p_Namespace pool) (pool_reference pool) =
      (filter (\<lambda>a. lib_ParseGroup L (a_APIVersion a) = ''ipam.cluster.x-k8s.io'') items, err)"
    by (simp add: ListAddressesInUse_def pool_reference_def IPPoolRefValue_def)
  show "ValidateDelete L c (OInfobloxIPPool pool) = Inr None \<longleftrightarrow>
      p_Annotations pool SkipValidateDeleteWebhookAnnotation \<noteq> None \<or>
      (\<exists>items. c (p_Kind pool @ p_Name pool) (p_Namespace pool) = (items, None) \<and>
         (\<forall>a \<in> set items. lib_ParseGroup L (a_APIVersion a) \<noteq> ''ipam.cluster.x-k8s.io''))"
    by (cases err) (auto simp: ValidateDelete_def u l filter_empty_conv)
  show "p_Annotations pool SkipValidateDeleteWebhookAnnotation = None \<longrightarrow>
      snd (c (p_Kind pool @ p_Name pool) (p_Namespace pool)) = Some e \<longrightarrow>
      ValidateDelete L c (OInfobloxIPPool pool) = Inr (Some (InternalError e))"
    by (simp add: ValidateDelete_def u l)
qed (rule delete_admitted_iff)

definition example_address :: IPAddress where
  "example_address =
     \<lparr>a_APIVersion = ''ipam.cluster.x-k8s.io/v1beta2'', a_Name = ''a1'', a_Namespace = ''ns'',
      a_PoolRef = pool_reference example_pool, a_Address = ''10.0.0.2'', a_Prefix = Some 24,
      a_Gateway = ''10.0.0.1''\<rparr>"

text \<open>One address in use, and a listing that fails: neither deletion is admitted.\<close>

theorem delete_protected_witness:
  "ValidateDelete example_lib (cache_of OIPAddress IPAddressByCombinedPoolRef a_Namespace [example_address])
     (OInfobloxIPPool example_pool) \<noteq> Inr None \<and>
   ValidateDelete example_lib (\<lambda>v n. ([], Some (KubeError ''timeout''))) (OInfobloxIPPool example_pool) =
     Inr (Some (InternalError (KubeError ''timeout'')))"
proof -
  have "lib_ParseGroup example_lib (a_APIVersion example_address) = ''ipam.cluster.x-k8s.io''"
    by code_simp
  moreover have "p_Annotations example_pool = (\<lambda>_. None)" "a_Namespace example_address = p_Namespace example_pool"
    "a_PoolRef example_address = pool_reference example_pool"
    by (simp_all add: example_pool_def example_address_def)
  ultimately show ?thesis
    using delete_protected [of example_lib "\<lambda>v n. ([], Some (KubeError ''timeout''))" example_pool
        "KubeError ''timeout''" "[example_address]"]
    by (simp add: pool_reference_def)
qed

end
