(* ===== verification/ClaimLife.thy ===== *)
theory ClaimLife
  imports ClaimProps Allocator Webhook
begin

text \<open>
  The claim handler against the queues of addresses that a host holds: a claim keeps its
  address over repeated reconciliations, and a release takes one address
  out of every subnet of the pool.
\<close>

subsection \<open>A host that holds an address\<close>

lemma getHostname_nonempty:
  "getHostname env h = Inr hn \<Longrightarrow> c_Name (h_claim h) \<noteq> [] \<Longrightarrow> hn \<noteq> []"
  by (auto simp: getHostname_def getHostnameResolver_def Let_def split: if_splits option.splits sum.splits)

lemma ensureHostname_keeps_name: "ensureHostname env h = (h1, r) \<Longrightarrow> c_Name (h_claim h1) = c_Name (h_claim h)"
  by (auto simp: ensureHostname_def Let_def split: sum.splits option.splits if_splits)

lemma EnsureAddress_keeps_name:
  assumes "EnsureAddress env h address s = ((h', address', e), s')"
  shows "c_Name (h_claim h') = c_Name (h_claim h)"
proof -
  obtain h1 r where "ensureHostname env h = (h1, r)" by (cases "ensureHostname env h")
  with assms ensureHostname_keeps_name [OF this] show ?thesis
    by (auto simp: EnsureAddress_def claim_Set_def Let_def
        split: sum.splits option.splits prod.splits alloc_result.splits)
qed

text \<open>The handler of a claim with a pool and the provider's client.\<close>

definition handler_of ::
  "('s connector_ops, obj_mgr) client \<Rightarrow> InfobloxIPPool \<Rightarrow> IPAddressClaim \<Rightarrow> 's claim_handler" where
  "handler_of c pool claim = \<lparr>h_claim = claim, h_pool = Some pool, h_ibclient = Some (infoblox_Client c)\<rparr>"

lemma handler_of_simps [simp]:
  "h_claim (handler_of c pool claim) = claim" "h_pool (handler_of c pool claim) = Some pool"
  "h_ibclient (handler_of c pool claim) = Some (infoblox_Client c)"
  by (simp_all add: handler_of_def)

text \<open>What an address object says when the address \<open>a\<close> is from the prefix \<open>p\<close> of a subnet.\<close>

definition names_address :: "addr \<Rightarrow> prefix \<Rightarrow> Subnet \<Rightarrow> IPAddress \<Rightarrow> bool" where
  "names_address a p sub x \<longleftrightarrow>
     a_Address x = AddrString a \<and> a_Prefix x = Some (of_nat (Bits p)) \<and> a_Gateway x = Gateway sub"

lemma held_allocates:
  assumes "wapi_ok con" and "held con nv h subnet s = Some (a # q)"
  shows "GetOrAllocateAddress con nv dv subnet h z s = (Inr a, s)"
  using assms by (cases rule: held_cases) (auto intro: allocate_found [OF _ sym])

lemma annotated_handler:
  "annotation claim hostnameAnnotation = hn \<Longrightarrow> hn \<noteq> [] \<Longrightarrow> getHostname env (handler_of c pool claim) = Inr hn"
  by (rule getHostname_annotated) simp_all

text \<open>
  If the claim's hostname is known and the host holds an address in the first subnet that parses,
  reconciling succeeds with this address and changes nothing.
\<close>

lemma held_ensures:
  assumes W: "wapi_ok (connector c)" and hn: "getHostname env (handler_of c pool claim) = Inr hn"
    and suf: "HasSuffix hn (DNSZone (p_Spec pool))"
    and sub: "Subnets (p_Spec pool) = sub # subs" "ParsePrefix (CIDR sub) = Some p"
    and held: "held (connector c) (NetworkView (p_Spec pool)) hn p s = Some (a # q)"
  shows "\<exists>h' x'. EnsureAddress env (handler_of c pool claim) x s = ((h', x', None), s) \<and>
           annotation (h_claim h') hostnameAnnotation = hn \<and> names_address a p sub x'"
proof -
  let ?h = "handler_of c pool claim"
  obtain h1 where e: "ensureHostname env ?h = (h1, Inr hn)"
    and h1: "h_pool h1 = Some pool" "h_ibclient h1 = Some (infoblox_Client c)"
      "annotation (h_claim h1) hostnameAnnotation = hn"
    using suf hn by (simp add: ensureHostname_def Let_def)
  have "cl_GetOrAllocateAddress (infoblox_Client c) (NetworkView (p_Spec pool))
      (handler_view pool (infoblox_Client c)) p hn (DNSZone (p_Spec pool)) s = (Inr a, s)"
    using held_allocates [OF W held] by (simp add: infoblox_Client_def)
  then have "allocate_loop pool (Some (infoblox_Client c)) hn (Subnets (p_Spec pool)) [] s = (Allocated a p sub, s)"
    by (simp add: sub handler_view_def)
  with e h1 show ?thesis by (simp add: EnsureAddress_def names_address_def)
qed

text \<open>After a success the host holds the address at the head of its queue in some subnet of the pool.\<close>

lemma ensured_held:
  assumes W: "wapi_ok (connector c)" and R: "refs_ok (connector c)"
    and e: "EnsureAddress env (handler_of c pool claim) x s = ((h', x', None), s')"
  obtains hn a p sub q where "getHostname env (handler_of c pool claim) = Inr hn"
    "annotation (h_claim h') hostnameAnnotation = hn" "HasSuffix hn (DNSZone (p_Spec pool))"
    "sub \<in> set (Subnets (p_Spec pool))" "ParsePrefix (CIDR sub) = Some p"
    "held (connector c) (NetworkView (p_Spec pool)) hn p s' = Some (a # q)" "names_address a p sub x'"
    "ParseAddr (AddrString a) = Some a"
proof -
  obtain h1 hn a p sub where eh: "ensureHostname env (handler_of c pool claim) = (h1, Inr hn)"
    and l: "allocate_loop pool (Some (infoblox_Client c)) hn (Subnets (p_Spec pool)) [] s = (Allocated a p sub, s')"
    and x': "x' = x\<lparr>a_Address := AddrString a, a_Prefix := Some (of_nat (Bits p)), a_Gateway := Gateway sub\<rparr>"
    and h': "h' = h1\<lparr>h_claim := claim_Set (ce_lib env) (h_claim h1) (ready_cond ConditionTrue AddressAllocatedReason (Text []))\<rparr>"
    using EnsureAddress_ok [OF e] by (metis handler_of_simps(2,3) option.inject)
  have hn: "getHostname env (handler_of c pool claim) = Inr hn" "annotation (h_claim h') hostnameAnnotation = hn"
    "HasSuffix hn (DNSZone (p_Spec pool))"
    using ensureHostname_ok [OF eh] by (auto simp: h')
  obtain pre post s0 where sub: "Subnets (p_Spec pool) = pre @ sub # post" "ParsePrefix (CIDR sub) = Some p"
    and g: "cl_GetOrAllocateAddress (infoblox_Client c) (NetworkView (p_Spec pool))
        (handler_view pool (infoblox_Client c)) p hn (DNSZone (p_Spec pool)) s0 = (Inr a, s')"
    using allocate_loop_Allocated [OF l] by blast
  then obtain r q where "con_List (connector c) (record_query (NetworkView (p_Spec pool)) hn) s' = (Inr [r], s')"
    "addrs_in r p = a # q"
    using allocate_listed [OF W R] by (fastforce simp: infoblox_Client_def)
  then have "held (connector c) (NetworkView (p_Spec pool)) hn p s' = Some (a # q)" by (simp add: held_def)
  moreover have "names_address a p sub x'" by (simp add: x' names_address_def)
  moreover have "sub \<in> set (Subnets (p_Spec pool))" by (simp add: sub(1))
  ultimately show thesis using hn sub(2) client.allocated_text [OF g] by (intro that)
qed

subsection \<open>The life of a claim\<close>

text \<open>
  Reconciliations of one claim with a pool of this specification, each in an environment of its
  own, successful or not; in between the claim's conditions and owners change, and so does the
  appliance, except for what this host holds in the pool's subnet. The trace collects the
  address objects that the successful ones wrote.
\<close>

inductive claim_life ::
    "('s connector_ops, obj_mgr) client \<Rightarrow> InfobloxIPPoolSpec \<Rightarrow> prefix \<Rightarrow> IPAddressClaim \<Rightarrow> 's \<Rightarrow> IPAddress list \<Rightarrow> bool"
  for c :: "('s connector_ops, obj_mgr) client" and spec :: InfobloxIPPoolSpec and p :: prefix where
  life_new: "annotation claim hostnameAnnotation = [] \<Longrightarrow> c_Name claim \<noteq> [] \<Longrightarrow> claim_life c spec p claim s []"
| life_ensured: "claim_life c spec p claim s xs \<Longrightarrow> p_Spec pool = spec \<Longrightarrow>
    EnsureAddress env (handler_of c pool claim) x s = ((h', x', None), s') \<Longrightarrow>
    claim_life c spec p (h_claim h') s' (xs @ [x'])"
| life_failed: "claim_life c spec p claim s xs \<Longrightarrow> p_Spec pool = spec \<Longrightarrow>
    EnsureAddress env (handler_of c pool claim) x s = ((h', x', Some e), s') \<Longrightarrow>
    claim_life c spec p (h_claim h') s' xs"
| life_claim: "claim_life c spec p claim s xs \<Longrightarrow>
    claim_life c spec p (claim\<lparr>c_Conditions := conds, c_OwnerReferences := owners\<rparr>) s xs"
| life_other: "claim_life c spec p claim s xs \<Longrightarrow>
    held (connector c) (NetworkView spec) (annotation claim hostnameAnnotation) p s' =
      held (connector c) (NetworkView spec) (annotation claim hostnameAnnotation) p s \<Longrightarrow>
    claim_life c spec p claim s' xs"

definition life_inv ::
  "('s connector_ops, obj_mgr) client \<Rightarrow> InfobloxIPPoolSpec \<Rightarrow> Subnet \<Rightarrow> prefix \<Rightarrow> IPAddressClaim \<Rightarrow> 's \<Rightarrow>
     IPAddress list \<Rightarrow> bool" where
  "life_inv c spec sub p claim s xs \<longleftrightarrow> c_Name claim \<noteq> [] \<and>
     (xs \<noteq> [] \<longrightarrow>
        (let hn = annotation claim hostnameAnnotation
         in hn \<noteq> [] \<and> HasSuffix hn (DNSZone spec) \<and>
            (\<exists>a q. held (connector c) (NetworkView spec) hn p s = Some (a # q) \<and>
               ParseAddr (AddrString a) = Some a \<and> (\<forall>x \<in> set xs. names_address a p sub x))))"

lemma life_inv_ensured:
  assumes W: "wapi_ok (connector c)" and R: "refs_ok (connector c)"
    and sub: "Subnets spec = [sub]" "ParsePrefix (CIDR sub) = Some p"
    and inv: "life_inv c spec sub p claim s xs" and pool: "p_Spec pool = spec"
    and e: "EnsureAddress env (handler_of c pool claim) x s = ((h', x', None), s')"
  shows "life_inv c spec sub p (h_claim h') s' (xs @ [x'])"
proof -
  have n: "c_Name (h_claim h') \<noteq> []"
    using EnsureAddress_keeps_name [OF e] inv by (simp add: life_inv_def)
  show ?thesis
  proof (cases "xs = []")
    case True
    obtain hn a p' sub' q where hn: "getHostname env (handler_of c pool claim) = Inr hn"
      "annotation (h_claim h') hostnameAnnotation = hn" "HasSuffix hn (DNSZone (p_Spec pool))"
      and s: "sub' \<in> set (Subnets (p_Spec pool))" "ParsePrefix (CIDR sub') = Some p'"
      and h: "held (connector c) (NetworkView (p_Spec pool)) hn p' s' = Some (a # q)" "names_address a p' sub' x'"
      "ParseAddr (AddrString a) = Some a"
      by (rule ensured_held [OF W R e])
    have "sub' = sub" "p' = p" using s sub pool by auto
    moreover have "hn \<noteq> []" using getHostname_nonempty [OF hn(1)] inv by (simp add: life_inv_def)
    ultimately show ?thesis using n hn(2,3) True h pool by (auto simp: life_inv_def Let_def)
  next
    case False
    let ?hn = "annotation claim hostnameAnnotation"
    from inv False obtain a q where a: "?hn \<noteq> []" "HasSuffix ?hn (DNSZone (p_Spec pool))"
      "held (connector c) (NetworkView (p_Spec pool)) ?hn p s = Some (a # q)" "ParseAddr (AddrString a) = Some a"
      "\<forall>x \<in> set xs. names_address a p sub x"
      by (auto simp: life_inv_def Let_def pool)
    from held_ensures [OF W annotated_handler [OF refl a(1)] a(2) sub(1) [folded pool] sub(2) a(3), of env x] e
    have "annotation (h_claim h') hostnameAnnotation = ?hn" "names_address a p sub x'" "s' = s" by auto
    with a n pool show ?thesis by (auto simp: life_inv_def Let_def)
  qed
qed

lemma claim_life_inv:
  assumes W: "wapi_ok (connector c)" and R: "refs_ok (connector c)"
    and sub: "Subnets spec = [sub]" "ParsePrefix (CIDR sub) = Some p"
  shows "claim_life c spec p claim s xs \<Longrightarrow> life_inv c spec sub p claim s xs"
proof (induction rule: claim_life.induct)
  case (life_new claim s)
  then show ?case by (simp add: life_inv_def)
next
  case (life_ensured claim s xs pool env x h' x' s')
  then show ?case using life_inv_ensured [OF W R sub] by blast
next
  case (life_failed claim s xs pool env x h' x' e s')
  note inv = life_failed(4) and pool = life_failed(2)
  have "xs = []"
  proof (rule ccontr)
    let ?hn = "annotation claim hostnameAnnotation"
    assume "xs \<noteq> []"
    with inv obtain a q where a: "?hn \<noteq> []" "HasSuffix ?hn (DNSZone (p_Spec pool))"
      "held (connector c) (NetworkView (p_Spec pool)) ?hn p s = Some (a # q)"
      by (auto simp: life_inv_def Let_def pool)
    from held_ensures [OF W annotated_handler [OF refl a(1)] a(2) sub(1) [folded pool] sub(2) a(3), of env x] life_failed(3)
    show False by auto
  qed
  with EnsureAddress_keeps_name [OF life_failed(3)] inv show ?case by (simp add: life_inv_def)
next
  case (life_claim claim s xs conds owners)
  then show ?case by (simp add: life_inv_def annotation_def)
next
  case (life_other claim s xs s')
  then show ?case by (simp add: life_inv_def Let_def)
qed

text \<open>C19: A claim keeps one address for life: for a pool with one subnet, however often the claim
is reconciled, with whatever environment, failures in between and other hosts coming and
going, all address objects written name one and the same address, prefix length and gateway;
the host still holds that address at the head of its queue, where the release of the claim
finds it, under the hostname that every later reconciliation and the release use.\<close>

theorem one_address_per_claim:
  assumes "wapi_ok (connector c)" and "refs_ok (connector c)"
    and "Subnets spec = [sub]" and "ParsePrefix (CIDR sub) = Some p"
    and "claim_life c spec p claim s xs" and "xs \<noteq> []"
  shows "\<exists>a q hn. (\<forall>x \<in> set xs. a_Address x = AddrString a \<and> a_Prefix x = Some (of_nat (Bits p)) \<and>
              a_Gateway x = Gateway sub) \<and>
           held (connector c) (NetworkView spec) hn p s = Some (a # q) \<and> PrefixContains p a \<and>
           ParseAddr (AddrString a) = Some a \<and> hn \<noteq> [] \<and>
           (\<forall>env pool. getHostname env (handler_of c pool claim) = Inr hn)"
proof -
  let ?hn = "annotation claim hostnameAnnotation"
  from claim_life_inv [OF assms(1-5)] assms(6) obtain a q where a: "?hn \<noteq> []"
    "held (connector c) (NetworkView spec) ?hn p s = Some (a # q)" "ParseAddr (AddrString a) = Some a"
    "\<forall>x \<in> set xs. names_address a p sub x"
    by (auto simp: life_inv_def Let_def)
  from assms(1) a(2) have "PrefixContains p a"
  proof (cases rule: held_cases)
    case (listed r)
    then have "a \<in> set (addrs_in r p)" by (simp flip: listed(2))
    then show ?thesis using addrs_in_subnet by blast
  qed simp
  moreover have "getHostname env (handler_of c pool claim) = Inr ?hn" for env pool
    using a(1) by (intro getHostname_annotated) simp_all
  ultimately show ?thesis
    using a by (intro exI [of _ a] exI [of _ q] exI [of _ ?hn]) (simp add: names_address_def)
qed

theorem one_address_per_claim_witness:
  "\<exists>claim s x y a. claim_life example_impl (p_Spec claim_pool) example_subnet claim s [x, y] \<and>
     a_Address x = AddrString a \<and> a_Address y = AddrString a \<and> PrefixContains example_subnet a"
proof -
  let ?sub = "\<lparr>CIDR = ''10.0.0.0/24'', Gateway = ''10.0.0.1''\<rparr>"
  have h: "example_handler = handler_of example_impl claim_pool example_claim"
    by (simp add: example_handler_def handler_of_def example_client_def)
  have w: "wapi_ok (connector example_impl)" "refs_ok (connector example_impl)"
    by (simp_all add: example_impl_def example_wapi_ok example_refs_ok)
  have sub: "Subnets (p_Spec claim_pool) = [?sub]" by (simp add: claim_pool_def deleted_pool_def)
  have p: "ParsePrefix (CIDR ?sub) = Some example_subnet" by code_simp
  obtain h' x s' where e: "EnsureAddress example_env example_handler new_address None = ((h', x, None), s')"
    using example_ensure by (metis prod.collapse)
  have "claim_life example_impl (p_Spec claim_pool) example_subnet example_claim None []"
    by (rule life_new) (simp_all add: example_claim_def annotation_def)
  from life_ensured [OF this refl e [unfolded h]]
  have l: "claim_life example_impl (p_Spec claim_pool) example_subnet (h_claim h') s' [x]" by simp
  from claim_life_inv [OF w sub p l] have i: "life_inv example_impl (p_Spec claim_pool) ?sub example_subnet (h_claim h') s' [x]" .
  then obtain a q where a: "annotation (h_claim h') hostnameAnnotation \<noteq> []"
    "HasSuffix (annotation (h_claim h') hostnameAnnotation) (DNSZone (p_Spec claim_pool))"
    "held (connector example_impl) (NetworkView (p_Spec claim_pool)) (annotation (h_claim h') hostnameAnnotation)
       example_subnet s' = Some (a # q)"
    by (auto simp: life_inv_def Let_def)
  from held_ensures [OF w(1) annotated_handler [OF refl a(1)] a(2) sub p a(3), of example_env new_address] obtain h'' y
    where "EnsureAddress example_env (handler_of example_impl claim_pool (h_claim h')) new_address s' = ((h'', y, None), s')"
    by blast
  from life_ensured [OF l refl this]
  have "claim_life example_impl (p_Spec claim_pool) example_subnet (h_claim h'') s' [x, y]" by simp
  moreover from one_address_per_claim [OF w sub p this]
  have "\<exists>a. a_Address x = AddrString a \<and> a_Address y = AddrString a \<and> PrefixContains example_subnet a" by auto
  ultimately show ?thesis by blast
qed

subsection \<open>Release from every subnet\<close>

lemma disjoint_sym: "disjoint_prefixes p q \<Longrightarrow> disjoint_prefixes q p"
  by (auto simp: disjoint_prefixes_def)

text \<open>All releases report success; the handler itself does not look.\<close>

fun all_released :: "'s connector_ops \<Rightarrow> string \<Rightarrow> string \<Rightarrow> string \<Rightarrow> prefix list \<Rightarrow> 's \<Rightarrow> bool" where
  "all_released con nv dv hn [] s \<longleftrightarrow> True"
| "all_released con nv dv hn (p # ps) s \<longleftrightarrow>
     (case ReleaseAddress con nv dv p hn s of
        (None, s1) \<Rightarrow> all_released con nv dv hn ps s1 | (Some e, s1) \<Rightarrow> False)"

lemma release_all_queues:
  assumes W: "wapi_queue_ok con" and R: "refs_ok con"
  shows "all_released con nv dv hn ps s \<Longrightarrow> sorted_wrt disjoint_prefixes ps \<Longrightarrow>
    (\<And>p. p \<in> set ps \<Longrightarrow> held con nv hn p s = Some (Q p)) \<Longrightarrow>
    (\<forall>p \<in> set ps. held con nv hn p (fold (\<lambda>p s. snd (ReleaseAddress con nv dv p hn s)) ps s) = Some (queue_release (Q p))) \<and>
    (\<forall>q bs. held con nv hn q s = Some bs \<longrightarrow> (\<forall>p \<in> set ps. disjoint_prefixes p q) \<longrightarrow>
       held con nv hn q (fold (\<lambda>p s. snd (ReleaseAddress con nv dv p hn s)) ps s) = Some bs)"
proof (induction ps arbitrary: s)
  case Nil
  then show ?case by simp
next
  case (Cons p ps)
  obtain s1 where r: "ReleaseAddress con nv dv p hn s = (None, s1)" and rest: "all_released con nv dv hn ps s1"
    using Cons.prems(1) by (auto split: prod.splits option.splits)
  have hp: "held con nv hn p s = Some (Q p)" using Cons.prems(3) by simp
  have frame: "held con nv hn q s1 = Some bs" if "held con nv hn q s = Some bs" "disjoint_prefixes p q" for q bs
    using ReleaseAddress_frame [OF W R hp r that] .
  have "held con nv hn q s1 = Some (Q q)" if "q \<in> set ps" for q
    using that Cons.prems(2,3) by (intro frame) auto
  note IH = Cons.IH [OF rest _ this]
  have "held con nv hn p s1 = Some (queue_release (Q p))" by (rule ReleaseAddress_queue [OF W R hp r])
  moreover have "\<forall>q \<in> set ps. disjoint_prefixes q p" using Cons.prems(2) disjoint_sym by auto
  ultimately show ?case using IH Cons.prems(2) frame by (auto simp: r)
qed

text \<open>C20: A release frees what the claim took: for a pool with disjoint subnets, if the appliance
carries out the requests, then after \<open>ReleaseAddress\<close> of the handler the queue of the host in
every subnet is the one before without its head, so that nothing is left where the host held
one address; and what it holds in networks outside the pool is as before.\<close>

theorem release_frees_subnets:
  assumes "getHostname env h = Inr hn" and "h_pool h = Some pool" and "Subnets (p_Spec pool) \<noteq> []"
    and "h_ibclient h = Some (infoblox_Client c)"
    and "wapi_queue_ok (connector c)" and "refs_ok (connector c)"
    and "ps = List.map_filter (\<lambda>sub. ParsePrefix (CIDR sub)) (Subnets (p_Spec pool))"
    and "sorted_wrt disjoint_prefixes ps"
    and "all_released (connector c) (NetworkView (p_Spec pool)) (handler_view pool (infoblox_Client c)) hn ps s"
    and "\<And>p. p \<in> set ps \<Longrightarrow> held (connector c) (NetworkView (p_Spec pool)) hn p s = Some (Q p)"
  shows "\<exists>s'. Handler_ReleaseAddress env h s = (None, s') \<and>
           (\<forall>p \<in> set ps. held (connector c) (NetworkView (p_Spec pool)) hn p s' = Some (tl (Q p))) \<and>
           (\<forall>q bs. held (connector c) (NetworkView (p_Spec pool)) hn q s = Some bs \<longrightarrow>
              (\<forall>p \<in> set ps. disjoint_prefixes p q) \<longrightarrow>
              held (connector c) (NetworkView (p_Spec pool)) hn q s' = Some bs)"
  using release_every [OF assms(1-4), of s] release_all_queues [OF assms(5,6,9,8,10)]
  by (auto simp: assms(7) queue_release_def)

theorem release_frees_subnets_witness:
  "\<exists>h' x s s'. EnsureAddress example_env example_handler new_address None = ((h', x, None), s) \<and>
     held example_con [] ''c1'' example_subnet s = Some [V4 0x0A000002] \<and>
     Handler_ReleaseAddress example_env h' s = (None, s') \<and> held example_con [] ''c1'' example_subnet s' = Some []"
proof -
  let ?r = "EnsureAddress example_env example_handler new_address None"
  obtain h' x e s where f: "?r = ((h', x, e), s)" by (metis prod.collapse)
  have "snd (snd (fst ?r)) = None" "annotation (h_claim (fst (fst ?r))) hostnameAnnotation = ''c1''" by code_simp+
  then have e: "e = None" and a: "annotation (h_claim h') hostnameAnnotation = ''c1''" by (simp_all add: f)
  let ?nv = "NetworkView (p_Spec claim_pool)" and ?dv = "handler_view claim_pool (infoblox_Client example_impl)"
  have nv: "?nv = []" and subs: "Subnets (p_Spec claim_pool) = [\<lparr>CIDR = ''10.0.0.0/24'', Gateway = ''10.0.0.1''\<rparr>]"
    by (simp_all add: claim_pool_def deleted_pool_def)
  have p: "ParsePrefix ''10.0.0.0/24'' = Some example_subnet" by code_simp
  have ps: "[example_subnet] = List.map_filter (\<lambda>sub. ParsePrefix (CIDR sub)) (Subnets (p_Spec claim_pool))"
    by (simp add: subs p map_filter_simps)
  have "fst (ReleaseAddress example_con ?nv ?dv example_subnet ''c1'' (snd ?r)) = None"
    "held example_con ?nv ''c1'' example_subnet (snd ?r) = Some [V4 0x0A000002]" by code_simp+
  then have r: "fst (ReleaseAddress example_con ?nv ?dv example_subnet ''c1'' s) = None"
    and held: "held example_con ?nv ''c1'' example_subnet s = Some [V4 0x0A000002]" by (simp_all only: f snd_conv)
  have c: "connector example_impl = example_con" by (simp add: example_impl_def)
  have h': "h_pool h' = Some claim_pool" "h_ibclient h' = Some (infoblox_Client example_impl)"
  proof -
    from f e have "EnsureAddress example_env example_handler new_address None = ((h', x, None), s)" by simp
    then obtain h1 hn where "ensureHostname example_env example_handler = (h1, Inr hn)" "h_pool h' = h_pool h1"
      "h_ibclient h' = h_ibclient h1"
      by (rule EnsureAddress_ok) auto
    with ensureHostname_ok [OF this(1)] show "h_pool h' = Some claim_pool"
      "h_ibclient h' = Some (infoblox_Client example_impl)"
      by (simp_all add: example_handler_def example_client_def)
  qed
  have g: "getHostname example_env h' = Inr ''c1''" using a by (rule getHostname_annotated) simp
  have all: "all_released (connector example_impl) ?nv ?dv ''c1'' [example_subnet] s"
    using r by (auto simp: c split: prod.split option.split)
  have "Subnets (p_Spec claim_pool) \<noteq> []" by (simp add: subs)
  from release_frees_subnets [OF g h'(1) this h'(2) _ _ ps _ all, of "\<lambda>p. [V4 0x0A000002]"] held
  obtain s' where "Handler_ReleaseAddress example_env h' s = (None, s')"
    "held example_con ?nv ''c1'' example_subnet s' = Some []"
    by (auto simp: c example_wapi_queue_ok example_refs_ok)
  with f e held show ?thesis by (auto simp: nv)
qed

end
