(* ===== verification/Apart.thy ===== *)
theory Apart
  imports Allocator
begin

text \<open>
  Several hosts on one appliance: what an operation for one host does to the addresses that
  the others hold, and that an address that is newly assigned belongs to no other host.
\<close>

subsection \<open>What the appliance promises\<close>

text \<open>
  A request that writes the record of the host \<open>h\<close> does not change those of other hosts. If it
  is carried out, whatever it reports, the record has the addresses that the request names
  and possibly others, which were held by no other host; else nothing changes.
\<close>

definition foreign :: "'s connector_ops \<Rightarrow> string \<Rightarrow> string \<Rightarrow> 's \<Rightarrow> addr \<Rightarrow> bool" where
  "foreign con nv h s a \<longleftrightarrow> (\<exists>k q as. k \<noteq> h \<and> held con nv k q s = Some as \<and> a \<in> set as)"

definition wrote :: "'s connector_ops \<Rightarrow> string \<Rightarrow> string \<Rightarrow> (prefix \<Rightarrow> addr list) \<Rightarrow> 's \<Rightarrow> 's \<Rightarrow> bool" where
  "wrote con nv h named s s1 \<longleftrightarrow>
     (\<forall>k p. k \<noteq> h \<longrightarrow> held con nv k p s1 = held con nv k p s) \<and>
     ((\<forall>p. held con nv h p s1 = held con nv h p s) \<or>
      (\<forall>p. \<exists>as. held con nv h p s1 = Some as \<and> set (named p) \<subseteq> set as \<and>
         (\<forall>a \<in> set as - set (named p). \<not> foreign con nv h s a)))"

definition wapi_apart :: "'s connector_ops \<Rightarrow> string \<Rightarrow> bool" where
  "wapi_apart con nv \<longleftrightarrow>
     (\<forall>h s m hr r s1. con_List con (record_query nv h) s = (Inl (NotFoundError m), s) \<longrightarrow> hr_Name hr = Some h \<longrightarrow>
        con_Create con hr s = (r, s1) \<longrightarrow> wrote con nv h (addrs_in hr) s s1) \<and>
     (\<forall>h s r0 hr r s1. con_List con (record_query nv h) s = (Inr [r0], s) \<longrightarrow>
        con_Update con hr (hr_Ref r0) s = (r, s1) \<longrightarrow> wrote con nv h (addrs_in hr) s s1) \<and>
     (\<forall>h s r0 r s1. con_List con (record_query nv h) s = (Inr [r0], s) \<longrightarrow>
        con_Delete con (hr_Ref r0) s = (r, s1) \<longrightarrow> wrote con nv h (\<lambda>p. []) s s1)"

lemma apart_create:
  "wapi_apart con nv \<Longrightarrow> con_List con (record_query nv h) s = (Inl (NotFoundError m), s) \<Longrightarrow> hr_Name hr = Some h \<Longrightarrow>
     con_Create con hr s = (r, s1) \<Longrightarrow> wrote con nv h (addrs_in hr) s s1"
  by (rule wapi_apart_def [THEN iffD1, THEN conjunct1, rule_format, of con nv h s m hr r s1]) assumption+

lemma apart_update:
  "wapi_apart con nv \<Longrightarrow> con_List con (record_query nv h) s = (Inr [r0], s) \<Longrightarrow>
     con_Update con hr (hr_Ref r0) s = (r, s1) \<Longrightarrow> wrote con nv h (addrs_in hr) s s1"
  by (rule wapi_apart_def [THEN iffD1, THEN conjunct2, THEN conjunct1, rule_format, of con nv h s r0 hr r s1]) assumption+

lemma apart_delete:
  "wapi_apart con nv \<Longrightarrow> con_List con (record_query nv h) s = (Inr [r0], s) \<Longrightarrow>
     con_Delete con (hr_Ref r0) s = (r, s1) \<Longrightarrow> wrote con nv h (\<lambda>p. []) s s1"
  by (rule wapi_apart_def [THEN iffD1, THEN conjunct2, THEN conjunct2, rule_format, of con nv h s r0 r s1]) assumption+

text \<open>The library's constructors of entries keep the text that they are given.\<close>

definition entries_ok :: "'s connector_ops \<Rightarrow> bool" where
  "entries_ok con \<longleftrightarrow>
     (\<forall>t m e r. Ipv4Addr (con_NewIpv4Addr con t m e r) = Some t) \<and>
     (\<forall>t d e r. Ipv6Addr (con_NewIpv6Addr con t d e r) = Some t)"

subsection \<open>The effect of an operation for one host\<close>

text \<open>
  Only what this host holds changes, and what it gains was no other's; \<open>grows\<close> says that it
  loses nothing.
\<close>

definition touches :: "'s connector_ops \<Rightarrow> string \<Rightarrow> string \<Rightarrow> 's \<Rightarrow> 's \<Rightarrow> bool" where
  "touches con nv h s s' \<longleftrightarrow>
     (\<forall>k p. k \<noteq> h \<longrightarrow> held con nv k p s' = held con nv k p s) \<and>
     (\<forall>p bs. held con nv h p s' = Some bs \<longrightarrow>
        (\<forall>b \<in> set bs. (\<exists>as. held con nv h p s = Some as \<and> b \<in> set as) \<or> \<not> foreign con nv h s b))"

definition grows :: "'s connector_ops \<Rightarrow> string \<Rightarrow> string \<Rightarrow> 's \<Rightarrow> 's \<Rightarrow> bool" where
  "grows con nv h s s' \<longleftrightarrow>
     (\<forall>p as. held con nv h p s = Some as \<longrightarrow> (\<exists>bs. held con nv h p s' = Some bs \<and> set as \<subseteq> set bs))"

lemma touches_refl [simp, intro!]: "touches con nv h s s"
  by (auto simp: touches_def)

lemma grows_refl [simp, intro!]: "grows con nv h s s"
  by (auto simp: grows_def)

lemma touches_other: "touches con nv h s s' \<Longrightarrow> k \<noteq> h \<Longrightarrow> held con nv k p s' = held con nv k p s"
  by (simp add: touches_def)

lemma touches_gain:
  "touches con nv h s s' \<Longrightarrow> held con nv h p s' = Some bs \<Longrightarrow> b \<in> set bs \<Longrightarrow>
     (\<exists>as. held con nv h p s = Some as \<and> b \<in> set as) \<or> \<not> foreign con nv h s b"
  unfolding touches_def by blast

lemma foreign_touched: "touches con nv h s s' \<Longrightarrow> foreign con nv h s' a = foreign con nv h s a"
  unfolding foreign_def using touches_other [of con nv h s s'] by metis

lemma touches_trans [trans]:
  assumes "touches con nv h s t" and "touches con nv h t u"
  shows "touches con nv h s u"
  unfolding touches_def
proof (intro conjI allI impI ballI)
  show "held con nv k p u = held con nv k p s" if "k \<noteq> h" for k p
    using touches_other [OF assms(1) that] touches_other [OF assms(2) that] by simp
next
  fix p bs b
  assume "held con nv h p u = Some bs" "b \<in> set bs"
  from touches_gain [OF assms(2) this] foreign_touched [OF assms(1), of b] touches_gain [OF assms(1), of p _ b]
  show "(\<exists>as. held con nv h p s = Some as \<and> b \<in> set as) \<or> \<not> foreign con nv h s b" by blast
qed

lemma grows_trans [trans]: "grows con nv h s t \<Longrightarrow> grows con nv h t u \<Longrightarrow> grows con nv h s u"
  unfolding grows_def by (meson subset_trans)

lemma wrote_touches:
  assumes "wrote con nv h named s s1"
    and "\<And>p. \<exists>as. held con nv h p s = Some as \<and> set (named p) \<subseteq> set as"
  shows "touches con nv h s s1"
  unfolding touches_def
proof (intro conjI allI impI ballI)
  show "held con nv k p s1 = held con nv k p s" if "k \<noteq> h" for k p
    using assms(1) that by (simp add: wrote_def)
next
  fix p bs b
  assume bs: "held con nv h p s1 = Some bs" "b \<in> set bs"
  obtain as where as: "held con nv h p s = Some as" "set (named p) \<subseteq> set as" using assms(2) by blast
  from assms(1) consider "held con nv h p s1 = held con nv h p s"
    | as' where "held con nv h p s1 = Some as'" "\<forall>a \<in> set as' - set (named p). \<not> foreign con nv h s a"
    unfolding wrote_def by blast
  then show "(\<exists>as. held con nv h p s = Some as \<and> b \<in> set as) \<or> \<not> foreign con nv h s b"
    using bs as by cases auto
qed

lemma wrote_grows:
  assumes "wrote con nv h named s s1" and "\<And>p as. held con nv h p s = Some as \<Longrightarrow> set as \<subseteq> set (named p)"
  shows "grows con nv h s s1"
  unfolding grows_def
proof (intro allI impI)
  fix p as
  assume as: "held con nv h p s = Some as"
  from assms(1) consider "held con nv h p s1 = held con nv h p s"
    | as' where "held con nv h p s1 = Some as'" "set (named p) \<subseteq> set as'"
    unfolding wrote_def by blast
  then show "\<exists>bs. held con nv h p s1 = Some bs \<and> set as \<subseteq> set bs"
    using as assms(2) [OF as] by cases auto
qed

subsection \<open>The operations\<close>

lemma func_no_address: "ParseAddr (''func:'' @ t) = None"
proof -
  have hex: "hex_val CHR ''f'' = Some 15" "hex_val CHR ''u'' = None" by code_simp+
  have "v6_loop (''func:'' @ t) [] None = None" for t
    by (subst v6_loop.simps) (simp add: hex)
  moreover have "\<not> HasPrefix (''func:'' @ t) ''::''" for t by (simp add: HasPrefix_def)
  ultimately have "parseIPv6_body (''func:'' @ t) zone = None" for t zone
    unfolding parseIPv6_body_def Let_def by simp
  then have "parseIPv6 (''func:'' @ t) = None" for t
    by (simp add: parseIPv6_def Let_def)
  then show ?thesis by (simp add: ParseAddr_def)
qed

lemma request_text_no_address: "ParseAddr (nextAvailableIBFunc subnet view) = None"
  using func_no_address [of "''nextavailableip:'' @ PrefixString subnet @ '','' @ view"]
  by (simp add: nextAvailableIBFunc_def)

lemma addrs_in_request:
  assumes "entries_ok con"
  shows "addrs_in (request_address con nv subnet hr) q = addrs_in hr q"
proof -
  have "entry_addr q (Some (nextAvailableIBFunc subnet nv)) = None"
    by (simp add: entry_addr_def request_text_no_address)
  with assms show ?thesis
    by (simp add: addrs_in_def request_address_def entries_ok_def map_filter_def)
qed

lemma addrs_in_new: "empty_record_ok con \<Longrightarrow> addrs_in (new_host_record con nv dv z h) q = []"
  by (simp add: addrs_in_def new_host_record_fields empty_record_ok_def map_filter_simps)

lemma getOrNew_read:
  assumes "wapi_ok con" and "getOrNewHostRecord con nv dv z h s = (x, s1)"
  shows "s1 = s"
proof -
  obtain r s2 where l: "con_List con (record_query nv h) s = (r, s2)" by (cases "con_List con (record_query nv h) s")
  with assms(2) have "s1 = s2"
    by (auto simp: getOrNewHostRecord_def split: sum.splits ib_error.splits list.splits)
  with wapi_read_only(1) [OF assms(1) l] show ?thesis by simp
qed

text \<open>What a call of \<open>createOrUpdateHostRecord\<close> wrote, whatever it returns: one record, if any.\<close>

lemma createOrUpdate_state:
  assumes "wapi_ok con" and "createOrUpdateHostRecord con hr s = ((e, hr2), s')"
  obtains (panic) "s' = s"
  | (create) r where "hr_Ref hr = []" "con_Create con hr s = (r, s')"
  | (update) r where "hr_Ref hr \<noteq> []" "con_Update con (prepareHostRecordForUpdate hr) (hr_Ref hr) s = (r, s')"
proof -
  have get: "snd (con_Get con hr1 ref q s1) = s1" for hr1 ref q s1
    using wapi_read_only(2) [OF assms(1)] by (metis prod.collapse)
  have get': "t = s1" if "con_Get con hr1 ref q s1 = (x, t)" for hr1 ref q s1 x t
    using get [of hr1 ref q s1] that by simp
  from assms(2) that show thesis
    by (auto simp: createOrUpdateHostRecord_def Let_def dest!: get' split: if_splits prod.splits sum.splits)
qed

lemma allocate_effect:
  assumes W: "wapi_ok con" and R: "refs_ok con" and E: "entries_ok con" and A: "wapi_apart con nv"
    and g: "GetOrAllocateAddress con nv dv p h z s = (r, s')"
  shows "touches con nv h s s' \<and> grows con nv h s s'"
proof -
  have empty: "empty_record_ok con" using R by (simp add: refs_ok_def)
  obtain x s0 where x: "getOrNewHostRecord con nv dv z h s = (x, s0)"
    by (cases "getOrNewHostRecord con nv dv z h s")
  have s0: "s0 = s" by (rule getOrNew_read [OF W x])
  show ?thesis
  proof (cases "s' = s")
    case False
    with g x s0 obtain hr e hr2 where hr: "x = Inr hr"
      and c: "createOrUpdateHostRecord con (request_address con nv p hr) s = ((e, hr2), s')"
      by (auto simp: GetOrAllocateAddress_def Let_def split: sum.splits if_splits prod.splits option.splits)
    have texts: "addrs_in (prepareHostRecordForUpdate (request_address con nv p hr)) = addrs_in hr"
      "addrs_in (request_address con nv p hr) = addrs_in hr"
      by (simp_all add: fun_eq_iff addrs_in_prepare addrs_in_request [OF E])
    have "getOrNewHostRecord con nv dv z h s = (Inr hr, s)" using x hr s0 by simp
    then have "\<exists>named. wrote con nv h named s s' \<and> (\<forall>q. held con nv h q s = Some (named q))"
    proof (cases rule: getOrNew_cases)
      case 1
      then have ref: "hr_Ref hr \<noteq> []" using refs_okD [OF R] by fastforce
      from W c ref False obtain r where "con_Update con (prepareHostRecordForUpdate (request_address con nv p hr)) (hr_Ref hr) s = (r, s')"
        by (cases rule: createOrUpdate_state) simp_all
      from apart_update [OF A 1 this] have "wrote con nv h (addrs_in hr) s s'" by (simp add: texts)
      with held_listed [OF 1] show ?thesis by blast
    next
      case (2 m)
      have ref: "hr_Ref (request_address con nv p hr) = []"
        using empty by (simp add: 2(2) new_host_record_fields empty_record_ok_def)
      from W c ref False obtain r where "con_Create con (request_address con nv p hr) s = (r, s')"
        by (cases rule: createOrUpdate_state) simp_all
      have "hr_Name (request_address con nv p hr) = Some h" by (simp add: 2(2) new_host_record_fields)
      from apart_create [OF A 2(1) this \<open>con_Create con _ s = _\<close>] have "wrote con nv h (addrs_in hr) s s'"
        by (simp only: texts)
      with held_absent [OF 2(1)] addrs_in_new [OF empty] show ?thesis by (auto simp: 2(2))
    qed
    then obtain named where "wrote con nv h named s s'" "\<And>q. held con nv h q s = Some (named q)" by blast
    then show ?thesis by (auto intro!: wrote_touches wrote_grows)
  qed simp
qed

text \<open>What a release wrote, whatever it returns: the record without the entry taken out, if any.\<close>

lemma release_wrote:
  assumes W: "wapi_ok con" and R: "refs_ok con" and A: "wapi_apart con nv"
    and g: "ReleaseAddress con nv dv p h s = (r, s')"
  obtains (nothing) "s' = s"
  | (written) hr hr1 where "con_List con (record_query nv h) s = (Inr [hr], s)"
      "release_from_record hr p = Some hr1" "wrote con nv h (addrs_in hr1) s s'"
proof (cases "s' = s")
  case False
  have empty: "empty_record_ok con" using R by (simp add: refs_ok_def)
  obtain x s0 where x: "getOrNewHostRecord con nv dv [] h s = (x, s0)"
    by (cases "getOrNewHostRecord con nv dv [] h s")
  have s0: "s0 = s" by (rule getOrNew_read [OF W x])
  with False g x obtain hr hr1 where hr: "x = Inr hr" and hr1: "release_from_record hr p = Some hr1"
    and w: "(\<exists>r. record_texts hr1 = [] \<and> con_Delete con (hr_Ref hr1) s = (r, s')) \<or>
            (\<exists>r. con_Update con (prepareHostRecordForUpdate hr1) (hr_Ref hr1) s = (r, s'))"
    by (auto simp: ReleaseAddress_def record_texts_def Let_def split: sum.splits if_splits prod.splits option.splits)
  have "getOrNewHostRecord con nv dv [] h s = (Inr hr, s)" using x hr s0 by simp
  then show thesis
  proof (cases rule: getOrNew_cases)
    case 1
    have ref: "hr_Ref hr1 = hr_Ref hr" using release_keeps_rest [OF hr1] by simp
    from w have "wrote con nv h (addrs_in hr1) s s'"
    proof (elim disjE exE conjE)
      fix r
      assume "record_texts hr1 = []" "con_Delete con (hr_Ref hr1) s = (r, s')"
      moreover from this(1) have "addrs_in hr1 = (\<lambda>p. [])" by (simp add: fun_eq_iff addrs_in_no_texts)
      ultimately show ?thesis using apart_delete [OF A 1] by (simp add: ref)
    next
      fix r
      assume "con_Update con (prepareHostRecordForUpdate hr1) (hr_Ref hr1) s = (r, s')"
      moreover have "addrs_in (prepareHostRecordForUpdate hr1) = addrs_in hr1" by (simp add: fun_eq_iff addrs_in_prepare)
      ultimately show ?thesis using apart_update [OF A 1] by (metis ref)
    qed
    then show thesis by (rule that(2) [OF 1 hr1])
  next
    case (2 m)
    with hr1 release_None_spec [of hr p] addrs_in_new [OF empty] show thesis by simp
  qed
qed (rule that(1))

lemma release_effect:
  assumes "wapi_ok con" and "refs_ok con" and "wapi_apart con nv" and "ReleaseAddress con nv dv p h s = (r, s')"
  shows "touches con nv h s s'"
  using assms
proof (cases rule: release_wrote)
  case (written hr hr1)
  from release_addrs_subset [OF written(2)] held_listed [OF written(1)] show ?thesis
    by (intro wrote_touches [OF written(3)]) auto
qed simp

text \<open>A release in one subnet leaves what the host holds in a disjoint one, even if it fails.\<close>

lemma release_keeps_disjoint:
  assumes "wapi_ok con" and "refs_ok con" and "wapi_apart con nv" and "ReleaseAddress con nv dv p h s = (r, s')"
    and q: "held con nv h q s = Some as" "disjoint_prefixes p q"
  shows "\<exists>bs. held con nv h q s' = Some bs \<and> set as \<subseteq> set bs"
  using assms(1-4)
proof (cases rule: release_wrote)
  case (written hr hr1)
  have "as = addrs_in hr1 q"
    using q held_listed [OF written(1)] release_spec_other [OF written(2)] by (simp add: disjoint_prefixes_def)
  with written(3) q(1) show ?thesis unfolding wrote_def by (metis order_refl)
qed (use q in simp)

subsection \<open>No address of two hosts\<close>

definition no_sharing :: "'s connector_ops \<Rightarrow> string \<Rightarrow> 's \<Rightarrow> bool" where
  "no_sharing con nv s \<longleftrightarrow>
     (\<forall>h k p q as bs. h \<noteq> k \<longrightarrow> held con nv h p s = Some as \<longrightarrow> held con nv k q s = Some bs \<longrightarrow> set as \<inter> set bs = {})"

lemma no_sharingD:
  "no_sharing con nv s \<Longrightarrow> h \<noteq> k \<Longrightarrow> held con nv h p s = Some as \<Longrightarrow> held con nv k q s = Some bs \<Longrightarrow>
     a \<in> set as \<Longrightarrow> a \<notin> set bs"
  unfolding no_sharing_def by blast

lemma touches_not_foreign:
  assumes "touches con nv h s s'" and "no_sharing con nv s" and "held con nv h p s' = Some bs" and "b \<in> set bs"
  shows "\<not> foreign con nv h s b"
proof -
  have "\<not> foreign con nv h s b" if "held con nv h p s = Some as" "b \<in> set as" for as
    using no_sharingD [OF assms(2) _ that(1) _ that(2)] unfolding foreign_def by metis
  with touches_gain [OF assms(1,3,4)] show ?thesis by blast
qed

lemma no_sharing_touches:
  assumes t: "touches con nv h s s'" and n: "no_sharing con nv s"
  shows "no_sharing con nv s'"
proof -
  have one: "a \<notin> set bs"
    if "held con nv h p s' = Some as" "a \<in> set as" "k \<noteq> h" "held con nv k q s' = Some bs" for k p q as bs a
    using touches_not_foreign [OF t n that(1,2)] touches_other [OF t that(3)] that(3,4)
    unfolding foreign_def by metis
  have two: "a \<notin> set bs"
    if "k \<noteq> h" "k' \<noteq> h" "k \<noteq> k'" "held con nv k p s' = Some as" "held con nv k' q s' = Some bs" "a \<in> set as"
    for k k' p q as bs a
    using no_sharingD [OF n that(3)] touches_other [OF t that(1)] touches_other [OF t that(2)] that(4-6) by metis
  show ?thesis
    unfolding no_sharing_def using one two by (metis disjoint_iff)
qed

end
