(* ===== verification/ManyHosts.thy ===== *)
theory ManyHosts
  imports Apart
begin

text \<open>
  An appliance with many hosts, which keeps the promises of \<open>Apart\<close>, for closed examples.
  Records by name, the newest first; it has two addresses to give, and takes one that no other
  host has when a record is written, or refuses to write.
\<close>

subsection \<open>The connector\<close>

definition used_addrs :: "(string \<times> HostRecord) list \<Rightarrow> string \<Rightarrow> addr list" where
  "used_addrs s n =
     concat (map (\<lambda>(k, r). if k = n then [] else List.map_filter (\<lambda>t. Option.bind t ParseAddr) (record_texts r)) s)"

definition fresh_text :: "(string \<times> HostRecord) list \<Rightarrow> string \<Rightarrow> string option" where
  "fresh_text s n =
     List.find (\<lambda>t. case ParseAddr t of None \<Rightarrow> False | Some a \<Rightarrow> a \<notin> set (used_addrs s n)) [''10.0.0.2'', ''10.0.0.3'']"

definition assign_entry :: "string \<Rightarrow> v4_entry \<Rightarrow> v4_entry" where
  "assign_entry t a = (if func_text (Ipv4Addr a) then a\<lparr>Ipv4Addr := Some t\<rparr> else a)"

definition assign_text :: "string \<Rightarrow> HostRecord \<Rightarrow> HostRecord" where
  "assign_text t r = r\<lparr>hr_Ipv4Addrs := map_option (map (assign_entry t)) (hr_Ipv4Addrs r)\<rparr>"

definition put_record :: "string \<Rightarrow> HostRecord \<Rightarrow> (string \<times> HostRecord) list \<Rightarrow> (ib_error + string) \<times> (string \<times> HostRecord) list" where
  "put_record n r s =
     (case fresh_text s n of
        None \<Rightarrow> (Inl (IBError ''no address available''), s)
      | Some t \<Rightarrow> (Inr (CHR ''r'' # n), (n, assign_text t r) # s))"

definition stored :: "string \<Rightarrow> HostRecord \<Rightarrow> HostRecord" where
  "stored n r = r\<lparr>hr_Ref := CHR ''r'' # n, hr_Name := Some n\<rparr>"

definition many_con :: "(string \<times> HostRecord) list connector_ops" where
  "many_con =
     \<lparr>con_List = (\<lambda>q s. (case map_of q ''name'' of
          None \<Rightarrow> Inr []
        | Some n \<Rightarrow> (case map_of s n of None \<Rightarrow> Inl (NotFoundError ''not found'') | Some r \<Rightarrow> Inr [stored n r]), s)),
      con_Get = (\<lambda>hr ref q s. (case map_of s (tl ref) of
          None \<Rightarrow> (Some (NotFoundError ''not found''), hr) | Some r \<Rightarrow> (None, stored (tl ref) r), s)),
      con_Create = (\<lambda>hr s. case hr_Name hr of None \<Rightarrow> (Inl (IBError ''no name''), s) | Some n \<Rightarrow> put_record n hr s),
      con_Update = (\<lambda>hr ref. put_record (tl ref) hr),
      con_Delete = (\<lambda>ref s. (Inr ref, filter (\<lambda>(k, r). k \<noteq> tl ref) s)),
      con_EmptyHostRecord = con_EmptyHostRecord example_con,
      con_NewIpv4Addr = con_NewIpv4Addr example_con, con_NewIpv6Addr = con_NewIpv6Addr example_con\<rparr>"

lemma many_List: "con_List many_con (record_query nv h) s =
   (case map_of s h of None \<Rightarrow> Inl (NotFoundError ''not found'') | Some r \<Rightarrow> Inr [stored h r], s)"
  by (simp add: many_con_def record_query_def split: option.split)

lemma many_held: "held many_con nv h p s = Some (case map_of s h of None \<Rightarrow> [] | Some r \<Rightarrow> addrs_in r p)"
  by (simp add: held_def many_List addrs_in_def stored_def split: option.split)

lemma many_ops:
  "con_Create many_con hr s = (case hr_Name hr of None \<Rightarrow> (Inl (IBError ''no name''), s) | Some n \<Rightarrow> put_record n hr s)"
  "con_Update many_con hr ref s = put_record (tl ref) hr s"
  "con_Delete many_con ref s = (Inr ref, filter (\<lambda>(k, r). k \<noteq> tl ref) s)"
  "con_Get many_con hr ref q s = (case map_of s (tl ref) of
      None \<Rightarrow> (Some (NotFoundError ''not found''), hr) | Some r \<Rightarrow> (None, stored (tl ref) r), s)"
  by (simp_all add: many_con_def)

subsection \<open>Its promises\<close>

lemma put_found:
  assumes "put_record h hr s = (Inr ref, s1)" and "con_Get many_con hr' ref q s1 = ((None, hr2), s2)"
  shows "\<exists>r. con_List many_con (record_query nv h) s1 = (Inr [r], s1) \<and> same_addrs r hr2"
  using assms by (auto simp: put_record_def many_List many_ops same_addrs_def split: option.splits)

lemma many_wapi_ok: "wapi_ok many_con"
  unfolding wapi_ok_def
proof (intro conjI allI impI)
  show "snd (con_List many_con q s) = s" "snd (con_Get many_con hr ref q s) = s" for q s hr ref
    by (simp_all add: many_con_def)
next
  fix nv h s m hr ref s1 q hr2 s2
  assume "hr_Name hr = Some h" "con_Create many_con hr s = (Inr ref, s1)"
    "con_Get many_con hr ref q s1 = ((None, hr2), s2)"
  then show "\<exists>r. con_List many_con (record_query nv h) s1 = (Inr [r], s1) \<and> same_addrs r hr2"
    using put_found [of h hr s ref s1 hr q hr2 s2 nv] by (simp add: many_ops(1))
next
  fix nv h s r0 hr ref s1 q hr2 s2
  assume "con_List many_con (record_query nv h) s = (Inr [r0], s)"
    and u: "con_Update many_con hr (hr_Ref r0) s = (Inr ref, s1)"
      "con_Get many_con hr ref q s1 = ((None, hr2), s2)"
  then have "tl (hr_Ref r0) = h" by (auto simp: many_List stored_def split: option.splits)
  with u show "\<exists>r. con_List many_con (record_query nv h) s1 = (Inr [r], s1) \<and> same_addrs r hr2"
    using put_found [of h hr s ref s1 hr q hr2 s2 nv] by (simp add: many_ops(2))
qed

lemma many_refs_ok: "refs_ok many_con"
  using example_refs_ok
  by (auto simp: refs_ok_def empty_record_ok_def many_con_def stored_def split: option.splits)

lemma many_entries_ok: "entries_ok many_con"
  by (simp add: entries_ok_def many_con_def example_con_def)

lemma map_filter_member: "a \<in> set (List.map_filter f xs) \<longleftrightarrow> (\<exists>x \<in> set xs. f x = Some a)"
  by (induction xs) (auto simp: map_filter_simps split: option.split)

lemma assign_text_addrs:
  "set (addrs_in r p) \<subseteq> set (addrs_in (assign_text t r) p) \<and>
   (\<forall>a \<in> set (addrs_in (assign_text t r) p) - set (addrs_in r p). ParseAddr t = Some a)"
proof -
  have func: "entry_addr p w = None" if "func_text w" for w
  proof (cases w)
    case (Some u)
    with that obtain v where "u = ''func:'' @ v"
      by (auto simp: func_text_def HasPrefix_iff)
    with Some show ?thesis using func_no_address [of v] by (simp add: entry_addr_def)
  qed (simp add: entry_addr_def)
  have keep: "entry_addr p (Ipv4Addr (assign_entry t x)) = Some a" if "entry_addr p (Ipv4Addr x) = Some a" for x a
    using that func by (auto simp: assign_entry_def)
  have gain: "entry_addr p (Ipv4Addr x) = Some a \<or> ParseAddr t = Some a"
    if "entry_addr p (Ipv4Addr (assign_entry t x)) = Some a" for x a
    using that by (auto simp: assign_entry_def entry_addr_def split: option.splits if_splits)
  have "elems (hr_Ipv4Addrs (assign_text t r)) = map (assign_entry t) (elems (hr_Ipv4Addrs r))"
    "hr_Ipv6Addrs (assign_text t r) = hr_Ipv6Addrs r"
    by (cases "hr_Ipv4Addrs r"; simp add: assign_text_def)+
  then show ?thesis
    using keep gain by (simp add: addrs_in_def map_filter_member subset_iff Ball_def) blast
qed

lemma used_addrs_foreign: "foreign many_con nv h s a \<Longrightarrow> a \<in> set (used_addrs s h)"
proof -
  assume "foreign many_con nv h s a"
  then obtain k q as where as: "k \<noteq> h" "held many_con nv k q s = Some as" "a \<in> set as"
    by (auto simp: foreign_def)
  then obtain r where k: "k \<noteq> h" "map_of s k = Some r" "a \<in> set (addrs_in r q)"
    by (cases "map_of s k") (simp_all add: many_held)
  then have "\<exists>t \<in> set (record_texts r). entry_addr q t = Some a"
    by (auto simp: addrs_in_def record_texts_def map_filter_member split: if_splits)
  then have "a \<in> set (List.map_filter (\<lambda>t. Option.bind t ParseAddr) (record_texts r))"
    by (auto simp: map_filter_member entry_addr_def split: option.splits if_splits)
  with k(1) map_of_SomeD [OF k(2)] show ?thesis by (force simp: used_addrs_def)
qed

lemma put_wrote:
  assumes "put_record h hr s = (r, s1)"
  shows "wrote many_con nv h (addrs_in hr) s s1"
proof (cases "fresh_text s h")
  case None
  with assms show ?thesis by (auto simp: put_record_def wrote_def)
next
  case (Some t)
  with assms have s1: "s1 = (h, assign_text t hr) # s" by (simp add: put_record_def)
  from Some have "case ParseAddr t of None \<Rightarrow> False | Some a \<Rightarrow> a \<notin> set (used_addrs s h)"
    by (auto simp only: fresh_text_def find_Some_iff)
  then have "\<not> foreign many_con nv h s a" if "ParseAddr t = Some a" for a
    using that used_addrs_foreign by auto
  with assign_text_addrs [of hr _ t] show ?thesis
    by (simp add: wrote_def many_held s1)
qed

lemma many_apart: "wapi_apart many_con nv"
  unfolding wapi_apart_def
proof (intro conjI allI impI)
  fix h s m hr r s1
  assume "hr_Name hr = Some h" "con_Create many_con hr s = (r, s1)"
  then show "wrote many_con nv h (addrs_in hr) s s1" by (intro put_wrote) (simp add: many_ops(1))
next
  fix h s r0 hr r s1
  assume "con_List many_con (record_query nv h) s = (Inr [r0], s)" "con_Update many_con hr (hr_Ref r0) s = (r, s1)"
  then show "wrote many_con nv h (addrs_in hr) s s1"
    by (intro put_wrote) (auto simp: many_ops(2) many_List stored_def split: option.splits)
next
  fix h s r0 r s1
  assume "con_List many_con (record_query nv h) s = (Inr [r0], s)" "con_Delete many_con (hr_Ref r0) s = (r, s1)"
  then have s1: "s1 = filter (\<lambda>(k, r). k \<noteq> h) s"
    by (auto simp: many_ops(3) many_List stored_def split: option.splits)
  have "map_of s1 k = (if k = h then None else map_of s k)" for k
    unfolding s1 by (induction s) auto
  then show "wrote many_con nv h (\<lambda>p. []) s s1" by (simp add: wrote_def many_held)
qed

end
