(* ===== verification/Fleet.thy ===== *)
theory Fleet
  imports ClaimLife ManyHosts
begin

text \<open>
  Many claims of pools in one network view, on one appliance: claims whose hostnames differ
  never get the same address; claims whose hostnames are the same share one.
\<close>

subsection \<open>The effect of the handler\<close>

definition fleet_ok :: "('s connector_ops, obj_mgr) client \<Rightarrow> string \<Rightarrow> bool" where
  "fleet_ok c nv \<longleftrightarrow>
     wapi_ok (connector c) \<and> refs_ok (connector c) \<and> entries_ok (connector c) \<and> wapi_apart (connector c) nv"

lemma client_allocate_effect:
  assumes "fleet_ok c nv"
    and "cl_GetOrAllocateAddress (infoblox_Client c) nv dv p h z s = (r, s')"
  shows "touches (connector c) nv h s s' \<and> grows (connector c) nv h s s'"
  by (rule allocate_effect) (use assms in \<open>simp_all add: fleet_ok_def infoblox_Client_def\<close>)

lemma allocate_loop_effect:
  assumes F: "fleet_ok c nv" and nv: "NetworkView (p_Spec pool) = nv"
  shows "allocate_loop pool (Some (infoblox_Client c)) hn subs errs s = (r, s') \<Longrightarrow>
     touches (connector c) nv hn s s' \<and> grows (connector c) nv hn s s'"
proof (induction subs arbitrary: errs s)
  case Nil
  then show ?case by simp
next
  case (Cons sub subs)
  show ?case
  proof (cases "ParsePrefix (CIDR sub)")
    case None
    with Cons show ?thesis by simp
  next
    case (Some p)
    let ?g = "cl_GetOrAllocateAddress (infoblox_Client c) nv (handler_view pool (infoblox_Client c)) p hn (DNSZone (p_Spec pool)) s"
    obtain x s1 where g: "?g = (x, s1)" by (cases ?g)
    note e = client_allocate_effect [OF F g]
    from Cons.prems Some g nv consider "s' = s1"
      | errs' where "allocate_loop pool (Some (infoblox_Client c)) hn subs errs' s1 = (r, s')"
      by (auto simp: handler_view_def Let_def split: sum.splits option.splits)
    then show ?thesis
    proof cases
      case 2
      from Cons.IH [OF this] e show ?thesis
        using touches_trans [of "connector c" nv hn s s1 s'] grows_trans [of "connector c" nv hn s s1 s'] by simp
    qed (use e in simp)
  qed
qed

text \<open>Whatever a reconciliation returns: without a hostname nothing happens, else it is stored.\<close>

lemma EnsureAddress_effect:
  assumes F: "fleet_ok c (NetworkView (p_Spec pool))"
    and e: "EnsureAddress env (handler_of c pool claim) x s = ((h', x', r), s')"
  obtains (unnamed) err where "getHostname env (handler_of c pool claim) = Inl err" "s' = s"
      "annotation (h_claim h') hostnameAnnotation = annotation claim hostnameAnnotation"
  | (named) hn where "getHostname env (handler_of c pool claim) = Inr hn"
      "annotation (h_claim h') hostnameAnnotation = hn"
      "touches (connector c) (NetworkView (p_Spec pool)) hn s s'" "grows (connector c) (NetworkView (p_Spec pool)) hn s s'"
proof (cases "getHostname env (handler_of c pool claim)")
  case (Inl err)
  with e have "s' = s" "h' = handler_of c pool claim" by (auto simp: EnsureAddress_def ensureHostname_def)
  with Inl show thesis by (intro that(1)) simp_all
next
  case (Inr hn)
  obtain h1 y where eh: "ensureHostname env (handler_of c pool claim) = (h1, y)"
    by (cases "ensureHostname env (handler_of c pool claim)")
  have h1: "annotation (h_claim h1) hostnameAnnotation = hn" "h_pool h1 = Some pool" "h_ibclient h1 = Some (infoblox_Client c)"
    using eh Inr by (auto simp: ensureHostname_def Let_def split: if_splits)
  have y: "hn' = hn" if "y = Inr hn'" for hn'
    using eh Inr that by (auto simp: ensureHostname_def Let_def split: if_splits)
  obtain q s1 where l: "allocate_loop pool (Some (infoblox_Client c)) hn (Subnets (p_Spec pool)) [] s = (q, s1)"
    by (cases "allocate_loop pool (Some (infoblox_Client c)) hn (Subnets (p_Spec pool)) [] s")
  have a: "annotation (h_claim h') hostnameAnnotation = hn"
    using e eh h1 by (auto simp: EnsureAddress_def Let_def split: sum.splits prod.splits alloc_result.splits)
  have "s' = s \<or> s' = s1"
  proof (cases y)
    case (Inl err)
    with e eh show ?thesis by (simp add: EnsureAddress_def)
  next
    case (Inr hn')
    with e eh h1 y l show ?thesis by (cases q) (simp_all add: EnsureAddress_def Let_def)
  qed
  with allocate_loop_effect [OF F refl l] show thesis by (intro that(2) [OF Inr a]) auto
qed

lemma release_fold_effect:
  assumes "fleet_ok c nv"
  shows "touches (connector c) nv hn s (fold (\<lambda>p s. snd (ReleaseAddress (connector c) nv dv p hn s)) ps s)"
proof (induction ps arbitrary: s)
  case (Cons p ps)
  have "touches (connector c) nv hn s (snd (ReleaseAddress (connector c) nv dv p hn s))"
    by (rule release_effect [OF _ _ _ prod.collapse [symmetric]]) (use assms in \<open>simp_all add: fleet_ok_def\<close>)
  from touches_trans [OF this Cons] show ?case by simp
qed simp

lemma Handler_ReleaseAddress_effect:
  assumes F: "fleet_ok c (NetworkView (p_Spec pool))"
    and e: "Handler_ReleaseAddress env (handler_of c pool claim) s = (r, s')"
  obtains (nothing) "s' = s"
  | (named) hn where "getHostname env (handler_of c pool claim) = Inr hn"
      "touches (connector c) (NetworkView (p_Spec pool)) hn s s'"
proof (cases "getHostname env (handler_of c pool claim)")
  case (Inl err)
  with e show thesis by (intro that(1)) (simp add: Handler_ReleaseAddress_def)
next
  case (Inr hn)
  show thesis
  proof (cases "Subnets (p_Spec pool) = []")
    case True
    with Inr e show thesis by (intro that(1)) (simp add: Handler_ReleaseAddress_def)
  next
    case False
    from release_every [OF Inr handler_of_simps(2) False handler_of_simps(3), of s] e release_fold_effect [OF F]
    show thesis by (intro that(2) [OF Inr]) simp
  qed
qed

subsection \<open>All claims of a network view\<close>

text \<open>
  The claims, the address objects that the provider wrote for them, and the appliance, reached
  from claims without hostnames by: a reconciliation, which succeeds or not; a release, after
  which the object is gone; another claim taking the place of one without an object; updates of
  conditions and owners; and other users of the appliance, who leave the hosts of the claims
  alone and do not share addresses. The side condition \<open>name_apart\<close> is what the provider relies
  on: the hostname of the claim is not that of another claim.
\<close>

definition host_of :: "IPAddressClaim \<Rightarrow> string" where
  "host_of claim = annotation claim hostnameAnnotation"

definition new_claim :: "IPAddressClaim \<Rightarrow> bool" where
  "new_claim claim \<longleftrightarrow> host_of claim = [] \<and> c_Name claim \<noteq> []"

definition name_apart :: "'s claim_env \<Rightarrow> 's claim_handler \<Rightarrow> ('i \<Rightarrow> IPAddressClaim) \<Rightarrow> 'i \<Rightarrow> bool" where
  "name_apart env h cl i \<longleftrightarrow> (\<forall>hn j. getHostname env h = Inr hn \<longrightarrow> j \<noteq> i \<longrightarrow> host_of (cl j) \<noteq> hn)"

inductive fleet ::
    "('s connector_ops, obj_mgr) client \<Rightarrow> string \<Rightarrow> ('i \<Rightarrow> IPAddressClaim) \<Rightarrow> ('i \<Rightarrow> IPAddress option) \<Rightarrow> 's \<Rightarrow> bool"
  for c :: "('s connector_ops, obj_mgr) client" and nv :: string where
  fleet_init: "no_sharing (connector c) nv s \<Longrightarrow> (\<And>i. new_claim (cl i)) \<Longrightarrow> fleet c nv cl Map.empty s"
| fleet_ensured: "fleet c nv cl objs s \<Longrightarrow> NetworkView (p_Spec pool) = nv \<Longrightarrow>
    name_apart env (handler_of c pool (cl i)) cl i \<Longrightarrow>
    EnsureAddress env (handler_of c pool (cl i)) x s = ((h', x', None), s') \<Longrightarrow>
    fleet c nv (cl(i := h_claim h')) (objs(i \<mapsto> x')) s'"
| fleet_failed: "fleet c nv cl objs s \<Longrightarrow> NetworkView (p_Spec pool) = nv \<Longrightarrow>
    name_apart env (handler_of c pool (cl i)) cl i \<Longrightarrow>
    EnsureAddress env (handler_of c pool (cl i)) x s = ((h', x', Some e), s') \<Longrightarrow>
    fleet c nv (cl(i := h_claim h')) objs s'"
| fleet_released: "fleet c nv cl objs s \<Longrightarrow> NetworkView (p_Spec pool) = nv \<Longrightarrow>
    name_apart env (handler_of c pool (cl i)) cl i \<Longrightarrow>
    Handler_ReleaseAddress env (handler_of c pool (cl i)) s = (None, s') \<Longrightarrow>
    fleet c nv cl (objs(i := None)) s'"
| fleet_replaced: "fleet c nv cl objs s \<Longrightarrow> objs i = None \<Longrightarrow> new_claim claim \<Longrightarrow>
    fleet c nv (cl(i := claim)) objs s"
| fleet_claim: "fleet c nv cl objs s \<Longrightarrow>
    fleet c nv (cl(i := (cl i)\<lparr>c_Conditions := conds, c_OwnerReferences := owners\<rparr>)) objs s"
| fleet_outside: "fleet c nv cl objs s \<Longrightarrow> no_sharing (connector c) nv s' \<Longrightarrow>
    (\<And>i p. host_of (cl i) \<noteq> [] \<Longrightarrow> held (connector c) nv (host_of (cl i)) p s' = held (connector c) nv (host_of (cl i)) p s) \<Longrightarrow>
    fleet c nv cl objs s'"

text \<open>The address of an object is held by the host of its claim.\<close>

definition holds_object :: "'s connector_ops \<Rightarrow> string \<Rightarrow> IPAddressClaim \<Rightarrow> IPAddress \<Rightarrow> 's \<Rightarrow> bool" where
  "holds_object con nv claim x s \<longleftrightarrow> host_of claim \<noteq> [] \<and>
     (\<exists>a p as. held con nv (host_of claim) p s = Some as \<and> a \<in> set as \<and> a_Address x = AddrString a \<and>
        ParseAddr (AddrString a) = Some a)"

definition fleet_inv ::
  "'s connector_ops \<Rightarrow> string \<Rightarrow> ('i \<Rightarrow> IPAddressClaim) \<Rightarrow> ('i \<Rightarrow> IPAddress option) \<Rightarrow> 's \<Rightarrow> bool" where
  "fleet_inv con nv cl objs s \<longleftrightarrow> no_sharing con nv s \<and> (\<forall>i. c_Name (cl i) \<noteq> []) \<and>
     (\<forall>i j. i \<noteq> j \<longrightarrow> host_of (cl i) \<noteq> [] \<longrightarrow> host_of (cl i) \<noteq> host_of (cl j)) \<and>
     (\<forall>i x. objs i = Some x \<longrightarrow> holds_object con nv (cl i) x s)"

lemma fleet_invD:
  assumes "fleet_inv con nv cl objs s"
  shows "no_sharing con nv s" and "c_Name (cl i) \<noteq> []"
    and "i \<noteq> j \<Longrightarrow> host_of (cl i) \<noteq> [] \<Longrightarrow> host_of (cl i) \<noteq> host_of (cl j)"
    and "objs i = Some x \<Longrightarrow> holds_object con nv (cl i) x s"
  using assms by (auto simp: fleet_inv_def)

lemma holds_object_touches:
  "holds_object con nv claim x s \<Longrightarrow> touches con nv h s s' \<Longrightarrow> host_of claim \<noteq> h \<Longrightarrow> holds_object con nv claim x s'"
  unfolding holds_object_def by (auto simp: touches_other)

lemma holds_object_grows:
  "holds_object con nv claim x s \<Longrightarrow> grows con nv (host_of claim) s s' \<Longrightarrow> holds_object con nv claim x s'"
  unfolding holds_object_def grows_def by blast

text \<open>One step for the claim \<open>i\<close>, whose host is \<open>hn\<close> or not known afterwards.\<close>

lemma fleet_inv_step:
  assumes inv: "fleet_inv con nv cl objs s" and t: "touches con nv hn s s'"
    and c': "c_Name c' \<noteq> []" "host_of c' = hn \<or> host_of c' = []" and hn: "hn \<noteq> []"
    and other: "\<And>j. j \<noteq> i \<Longrightarrow> host_of (cl j) \<noteq> hn" "\<And>j. j \<noteq> i \<Longrightarrow> objs' j = objs j"
    and own: "\<And>x. objs' i = Some x \<Longrightarrow> holds_object con nv c' x s'"
  shows "fleet_inv con nv (cl(i := c')) objs' s'"
proof -
  have "holds_object con nv (cl j) x s'" if "j \<noteq> i" "objs' j = Some x" for j x
    using holds_object_touches [OF fleet_invD(4) [OF inv] t other(1) [OF that(1)]] other(2) [OF that(1)] that(2)
    by simp
  moreover have "host_of (cl j) \<noteq> host_of c'" if "j \<noteq> i" "host_of (cl j) \<noteq> []" for j
    using other(1) [OF that(1)] c'(2) that(2) by auto
  moreover have "host_of c' \<noteq> host_of (cl j)" if "j \<noteq> i" "host_of c' \<noteq> []" for j
    using other(1) [OF that(1)] c'(2) that(2) by auto
  ultimately show ?thesis
    using no_sharing_touches [OF t fleet_invD(1) [OF inv]] c'(1) own fleet_invD(2,3) [OF inv]
    by (auto simp: fleet_inv_def)
qed

lemma handler_hostname_known:
  assumes "getHostname env (handler_of c pool claim) = r" and "host_of claim \<noteq> []"
  shows "r = Inr (host_of claim)"
  using annotated_handler [of claim "host_of claim" env c pool] assms by (simp add: host_of_def)

lemma fleet_inv_ensure:
  assumes F: "fleet_ok c nv" and inv: "fleet_inv (connector c) nv cl objs s"
    and nv: "NetworkView (p_Spec pool) = nv" and apart: "name_apart env (handler_of c pool (cl i)) cl i"
    and e: "EnsureAddress env (handler_of c pool (cl i)) x s = ((h', x', r), s')"
  shows "fleet_inv (connector c) nv (cl(i := h_claim h')) (if r = None then objs(i \<mapsto> x') else objs) s'"
proof -
  have name: "c_Name (h_claim h') \<noteq> []" using EnsureAddress_keeps_name [OF e] fleet_invD(2) [OF inv] by simp
  have F': "fleet_ok c (NetworkView (p_Spec pool))" using F nv by simp
  from F' e show ?thesis
  proof (cases rule: EnsureAddress_effect)
    case (unnamed err)
    have "r \<noteq> None"
    proof
      assume "r = None"
      with e have "EnsureAddress env (handler_of c pool (cl i)) x s = ((h', x', None), s')" by simp
      then obtain h1 hn where "ensureHostname env (handler_of c pool (cl i)) = (h1, Inr hn)" by (rule EnsureAddress_ok)
      from ensureHostname_ok [OF this] unnamed(1) show False by simp
    qed
    moreover have "host_of (h_claim h') = host_of (cl i)" using unnamed(3) by (simp add: host_of_def)
    ultimately show ?thesis
      using inv name unnamed(2) by (auto simp: fleet_inv_def holds_object_def)
  next
    case (named hn)
    have hn: "hn \<noteq> []" using getHostname_nonempty [OF named(1)] fleet_invD(2) [OF inv] by simp
    have host: "host_of (h_claim h') = hn" using named(2) by (simp add: host_of_def)
    show ?thesis
    proof (rule fleet_inv_step [OF inv _ name _ hn])
      show "touches (connector c) nv hn s s'" using named(3) nv by simp
      show "host_of (cl j) \<noteq> hn" if "j \<noteq> i" for j
        using apart named(1) that by (simp add: name_apart_def)
    next
      fix y
      assume y: "(if r = None then objs(i \<mapsto> x') else objs) i = Some y"
      show "holds_object (connector c) nv (h_claim h') y s'"
      proof (cases r)
        case None
        from F have W: "wapi_ok (connector c)" "refs_ok (connector c)" by (simp_all add: fleet_ok_def)
        obtain hn' a p sub q where g: "getHostname env (handler_of c pool (cl i)) = Inr hn'"
          and a: "held (connector c) (NetworkView (p_Spec pool)) hn' p s' = Some (a # q)" "names_address a p sub x'"
            "ParseAddr (AddrString a) = Some a"
          by (rule ensured_held [OF W e [unfolded None]])
        have "hn' = hn" using g named(1) by simp
        with a have "holds_object (connector c) nv (h_claim h') x' s'"
          by (auto simp: holds_object_def host hn nv names_address_def intro!: exI [of _ a] exI [of _ p])
        with y None show ?thesis by simp
      next
        case (Some err)
        with y have o: "holds_object (connector c) nv (cl i) y s" using fleet_invD(4) [OF inv] by simp
        then have "host_of (cl i) = hn"
          using handler_hostname_known [OF named(1)] by (simp add: holds_object_def)
        with o host have "holds_object (connector c) nv (h_claim h') y s" by (simp add: holds_object_def)
        moreover have "grows (connector c) nv (host_of (h_claim h')) s s'" using named(4) by (simp add: nv host)
        ultimately show ?thesis by (rule holds_object_grows)
      qed
    qed (simp_all add: host)
  qed
qed

lemma fleet_invariant:
  assumes F: "fleet_ok c nv"
  shows "fleet c nv cl objs s \<Longrightarrow> fleet_inv (connector c) nv cl objs s"
proof (induction rule: fleet.induct)
  case (fleet_init s cl)
  then show ?case by (simp add: fleet_inv_def new_claim_def)
next
  case (fleet_ensured cl objs s pool env i x h' x' s')
  from fleet_inv_ensure [OF F fleet_ensured(5,2-4)] show ?case by (simp only: if_True simp_thms)
next
  case (fleet_failed cl objs s pool env i x h' x' e s')
  from fleet_inv_ensure [OF F fleet_failed(5,2-4)] show ?case by (simp only: option.simps if_False)
next
  case (fleet_released cl objs s pool env i s')
  note inv = fleet_released(5)
  have F': "fleet_ok c (NetworkView (p_Spec pool))" using F fleet_released(2) by simp
  from F' fleet_released(4) show ?case
  proof (cases rule: Handler_ReleaseAddress_effect)
    case nothing
    with inv show ?thesis by (auto simp: fleet_inv_def)
  next
    case (named hn)
    have hn: "hn \<noteq> []" using getHostname_nonempty [OF named(1)] fleet_invD(2) [OF inv] by simp
    have "host_of (cl i) = hn \<or> host_of (cl i) = []" using handler_hostname_known [OF named(1)] by auto
    moreover have "host_of (cl j) \<noteq> hn" if "j \<noteq> i" for j
      using fleet_released(3) named(1) that by (simp add: name_apart_def)
    ultimately have "fleet_inv (connector c) nv (cl(i := cl i)) (objs(i := None)) s'"
      using named(2) fleet_released(2) hn fleet_invD(2) [OF inv]
      by (intro fleet_inv_step [OF inv, where hn = hn]) auto
    then show ?thesis by (simp only: fun_upd_triv)
  qed
next
  case (fleet_replaced cl objs s i claim)
  then show ?case by (auto simp: fleet_inv_def new_claim_def)
next
  case (fleet_claim cl objs s i owners conds)
  have "host_of ((cl i)\<lparr>c_Conditions := conds, c_OwnerReferences := owners\<rparr>) = host_of (cl i)"
    by (simp add: host_of_def annotation_def)
  with fleet_claim(2) show ?case by (auto simp: fleet_inv_def holds_object_def)
next
  case (fleet_outside cl objs s s')
  then show ?case by (auto simp: fleet_inv_def holds_object_def)
qed

text \<open>C1: No two claims have the same address: whatever reconciliations, failures, releases, new
claims and other users of the appliance there were, in any order, the address objects of two
claims in one network view, of the same pool or not, name different addresses, each held by
the host of its claim - provided that no two claims have the same hostname, and that the
appliance gives out no address that another host holds.\<close>

theorem no_address_shared:
  assumes "fleet_ok c nv" and "fleet c nv cl objs s"
    and "objs i = Some x" and "objs j = Some y" and "i \<noteq> j"
  shows "a_Address x \<noteq> a_Address y \<and>
         (\<exists>a p as. a_Address x = AddrString a \<and> held (connector c) nv (host_of (cl i)) p s = Some as \<and> a \<in> set as)"
proof -
  note inv = fleet_invariant [OF assms(1,2)]
  from fleet_invD(4) [OF inv assms(3)] obtain a p as where a: "host_of (cl i) \<noteq> []"
    "held (connector c) nv (host_of (cl i)) p s = Some as" "a \<in> set as" "a_Address x = AddrString a"
    "ParseAddr (AddrString a) = Some a"
    by (auto simp: holds_object_def)
  from fleet_invD(4) [OF inv assms(4)] obtain b q bs where b:
    "held (connector c) nv (host_of (cl j)) q s = Some bs" "b \<in> set bs" "a_Address y = AddrString b"
    "ParseAddr (AddrString b) = Some b"
    by (auto simp: holds_object_def)
  have "a \<notin> set bs"
    by (rule no_sharingD [OF fleet_invD(1) [OF inv] fleet_invD(3) [OF inv assms(5) a(1)] a(2) b(1) a(3)])
  with b(2) have "a \<noteq> b" by blast
  with a(4,5) b(3,4) have "a_Address x \<noteq> a_Address y" by (metis option.inject)
  with a show ?thesis by blast
qed

subsection \<open>Two claims, two addresses\<close>

lemma zone_free_hostname:
  "host_of claim = [] \<Longrightarrow> DNSZone (p_Spec pool) = [] \<Longrightarrow> getHostname env (handler_of c pool claim) = Inr (c_Name claim)"
  by (simp add: getHostname_def host_of_def)

definition many_impl :: "((string \<times> HostRecord) list connector_ops, obj_mgr) client" where
  "many_impl = \<lparr>connector = many_con, objMgr = objMgr example_impl, hc = hc example_impl\<rparr>"

definition many_env :: "(string \<times> HostRecord) list claim_env" where
  "many_env =
     \<lparr>ce_lib = example_lib, ce_reader = example_reader, ce_get = example_get, ce_pdq = insertionSort,
      ce_newInfobloxClientFunc = (\<lambda>cfg. Inr (infoblox_Client many_impl)), ce_operatorNamespace = ''system''\<rparr>"

lemma many_fleet_ok: "fleet_ok many_impl nv"
  by (simp add: fleet_ok_def many_impl_def many_wapi_ok many_refs_ok many_entries_ok many_apart)

definition two_claims :: "bool \<Rightarrow> IPAddressClaim" where
  "two_claims b = (if b then example_claim else example_claim\<lparr>c_Name := ''c2''\<rparr>)"

definition run_one :: "((string \<times> HostRecord) list claim_handler \<times> IPAddress \<times> error option) \<times> (string \<times> HostRecord) list" where
  "run_one = EnsureAddress many_env (handler_of many_impl claim_pool (two_claims True)) new_address []"

definition run_two :: "((string \<times> HostRecord) list claim_handler \<times> IPAddress \<times> error option) \<times> (string \<times> HostRecord) list" where
  "run_two = EnsureAddress many_env (handler_of many_impl claim_pool (two_claims False)) new_address (snd run_one)"

theorem no_address_shared_witness:
  "\<exists>cl objs s x y. fleet many_impl [] cl objs s \<and> objs True = Some x \<and> objs False = Some y \<and>
     a_Address x = ''10.0.0.2'' \<and> a_Address y = ''10.0.0.3'' \<and> a_Address x \<noteq> a_Address y"
proof -
  obtain h1 x e1 s1 where r1: "run_one = ((h1, x, e1), s1)" by (metis prod.collapse)
  obtain h2 y e2 s2 where r2: "run_two = ((h2, y, e2), s2)" by (metis prod.collapse)
  have "snd (snd (fst run_one)) = None" "a_Address (fst (snd (fst run_one))) = ''10.0.0.2''"
    "host_of (h_claim (fst (fst run_one))) = ''c1''" by code_simp+
  then have x: "e1 = None" "a_Address x = ''10.0.0.2''" "host_of (h_claim h1) = ''c1''" by (simp_all add: r1)
  have "snd (snd (fst run_two)) = None" "a_Address (fst (snd (fst run_two))) = ''10.0.0.3''" by code_simp+
  then have y: "e2 = None" "a_Address y = ''10.0.0.3''" by (simp_all add: r2)
  have new: "new_claim (two_claims b)" for b
    by (simp add: new_claim_def host_of_def two_claims_def example_claim_def annotation_def)
  have "DNSZone (p_Spec claim_pool) = []" by code_simp
  with new have name:
    "getHostname many_env (handler_of many_impl claim_pool (two_claims b)) = Inr (if b then ''c1'' else ''c2'')" for b
    by (subst zone_free_hostname) (simp_all add: new_claim_def two_claims_def example_claim_def)
  have nv: "NetworkView (p_Spec claim_pool) = []" by code_simp
  have "fleet many_impl [] two_claims Map.empty []"
    by (rule fleet_init) (simp_all add: new no_sharing_def many_impl_def many_held)
  moreover have "name_apart many_env (handler_of many_impl claim_pool (two_claims True)) two_claims True"
    using new by (auto simp: name_apart_def name new_claim_def)
  ultimately have f1: "fleet many_impl [] (two_claims(True := h_claim h1)) [True \<mapsto> x] s1"
    by (rule fleet_ensured [OF _ nv]) (use r1 x(1) in \<open>simp add: run_one_def\<close>)
  have s1: "snd run_one = s1" by (simp add: r1)
  have "fleet many_impl [] (two_claims(True := h_claim h1, False := h_claim h2)) [True \<mapsto> x, False \<mapsto> y] s2"
  proof (rule fleet_ensured [OF f1 nv])
    show "name_apart many_env (handler_of many_impl claim_pool ((two_claims(True := h_claim h1)) False))
        (two_claims(True := h_claim h1)) False"
      using x(3) by (auto simp: name_apart_def name)
    show "EnsureAddress many_env (handler_of many_impl claim_pool ((two_claims(True := h_claim h1)) False)) new_address s1 =
        ((h2, y, None), s2)"
      using r2 y(1) by (simp add: run_two_def s1)
  qed
  moreover from no_address_shared [OF many_fleet_ok this, of True x False y] have "a_Address x \<noteq> a_Address y" by simp
  ultimately show ?thesis using x(2) y(2)
    by (intro exI [of _ "two_claims(True := h_claim h1, False := h_claim h2)"]
        exI [of _ "[True \<mapsto> x, False \<mapsto> y]"] exI [of _ s2] exI [of _ x] exI [of _ y]) simp
qed

subsection \<open>Claims with one hostname\<close>

text \<open>C21: The hostname is the identity of a claim on the appliance: if two claims get the same
hostname, for pools with one subnet, the same in both, in one network view, then the second
reconciliation asks for nothing and gives the second claim the address of the first; and the
release of the first claim takes that address away from the host, while the object of the
second claim still names it. (Without a DNS zone the hostname is the name of the claim without
its namespace; with one it is that of the machine, whichever of its claims it is.)\<close>

theorem same_hostname_same_address:
  assumes "wapi_queue_ok (connector c)" and "refs_ok (connector c)"
    and "NetworkView (p_Spec pool1) = nv" and "Subnets (p_Spec pool1) = [sub1]" and "ParsePrefix (CIDR sub1) = Some p"
    and "NetworkView (p_Spec pool2) = nv" and "Subnets (p_Spec pool2) = [sub2]" and "ParsePrefix (CIDR sub2) = Some p"
    and "EnsureAddress env1 (handler_of c pool1 claim1) x1 s = ((h1, y1, None), s1)"
    and "host_of (h_claim h1) = hn" and "hn \<noteq> []"
    and "getHostname env2 (handler_of c pool2 claim2) = Inr hn" and "HasSuffix hn (DNSZone (p_Spec pool2))"
  shows "\<exists>h2 y2 a q. EnsureAddress env2 (handler_of c pool2 claim2) x2 s1 = ((h2, y2, None), s1) \<and>
           a_Address y2 = a_Address y1 \<and> a_Address y1 = AddrString a \<and>
           held (connector c) nv hn p s1 = Some (a # q) \<and>
           (\<forall>env s2. ReleaseAddress (connector c) nv (handler_view pool1 (infoblox_Client c)) p hn s1 = (None, s2) \<longrightarrow>
              Handler_ReleaseAddress env (handler_of c pool1 (h_claim h1)) s1 = (None, s2) \<and>
              held (connector c) nv hn p s2 = Some q)"
proof -
  have W: "wapi_ok (connector c)" using assms(1) by (simp add: wapi_queue_ok_def)
  have ann: "annotation (h_claim h1) hostnameAnnotation = hn" using assms(10) by (simp add: host_of_def)
  obtain a q where a: "held (connector c) nv hn p s1 = Some (a # q)" "names_address a p sub1 y1"
  proof (rule ensured_held [OF W assms(2,9)])
    fix hn' a p' sub q
    assume h: "annotation (h_claim h1) hostnameAnnotation = hn'" "sub \<in> set (Subnets (p_Spec pool1))"
      "ParsePrefix (CIDR sub) = Some p'" "held (connector c) (NetworkView (p_Spec pool1)) hn' p' s1 = Some (a # q)"
      "names_address a p' sub y1"
    have "hn' = hn" "sub = sub1" "p' = p" using h(1-3) ann assms(4,5) by auto
    with h(4,5) assms(3) show thesis by (intro that) simp_all
  qed
  have "held (connector c) (NetworkView (p_Spec pool2)) hn p s1 = Some (a # q)" using a(1) assms(6) by simp
  from held_ensures [OF W assms(12,13,7,8) this, of x2] obtain h2 y2
    where e2: "EnsureAddress env2 (handler_of c pool2 claim2) x2 s1 = ((h2, y2, None), s1)" "names_address a p sub2 y2"
    by blast
  have "Handler_ReleaseAddress env (handler_of c pool1 (h_claim h1)) s1 = (None, s2) \<and> held (connector c) nv hn p s2 = Some q"
    if r: "ReleaseAddress (connector c) nv (handler_view pool1 (infoblox_Client c)) p hn s1 = (None, s2)" for env s2
  proof -
    have n: "Subnets (p_Spec pool1) \<noteq> []" by (simp add: assms(4))
    from release_every [where s = s1 and env = env and c = c,
        OF annotated_handler [OF ann assms(11)] handler_of_simps(2) n handler_of_simps(3)]
    have "Handler_ReleaseAddress env (handler_of c pool1 (h_claim h1)) s1 = (None, s2)"
      using r by (simp add: assms(3-5) map_filter_simps)
    with ReleaseAddress_queue [OF assms(1,2) a(1) r] show ?thesis by (simp add: queue_release_def)
  qed
  with e2 a show ?thesis
    by (intro exI [of _ h2] exI [of _ y2] exI [of _ a] exI [of _ q]) (simp add: names_address_def)
qed

theorem same_hostname_same_address_witness:
  "\<exists>h1 y1 s1 h2 y2. EnsureAddress example_env (handler_of example_impl claim_pool example_claim) new_address None = ((h1, y1, None), s1) \<and>
     EnsureAddress example_env (handler_of example_impl claim_pool (example_claim\<lparr>c_Namespace := ''other''\<rparr>)) new_address s1 =
       ((h2, y2, None), s1) \<and> a_Address y2 = a_Address y1"
proof -
  let ?r = "EnsureAddress example_env example_handler new_address None"
  have h: "example_handler = handler_of example_impl claim_pool example_claim"
    by (simp add: example_handler_def handler_of_def example_client_def)
  obtain h1 y1 e s1 where f: "?r = ((h1, y1, e), s1)" by (metis prod.collapse)
  have "snd (snd (fst ?r)) = None" "host_of (h_claim (fst (fst ?r))) = ''c1''" by code_simp+
  then have y: "e = None" "host_of (h_claim h1) = ''c1''" by (simp_all add: f)
  have e: "EnsureAddress example_env (handler_of example_impl claim_pool example_claim) new_address None = ((h1, y1, None), s1)"
    using f y(1) h by simp
  have pool: "NetworkView (p_Spec claim_pool) = []" "DNSZone (p_Spec claim_pool) = []"
    "Subnets (p_Spec claim_pool) = [\<lparr>CIDR = ''10.0.0.0/24'', Gateway = ''10.0.0.1''\<rparr>]"
    by (simp_all add: claim_pool_def deleted_pool_def)
  have p: "ParsePrefix (CIDR \<lparr>CIDR = ''10.0.0.0/24'', Gateway = ''10.0.0.1''\<rparr>) = Some example_subnet" by code_simp
  have w: "wapi_queue_ok (connector example_impl)" "refs_ok (connector example_impl)"
    by (simp_all add: example_impl_def example_wapi_queue_ok example_refs_ok)
  have "getHostname example_env (handler_of example_impl claim_pool (example_claim\<lparr>c_Namespace := ''other''\<rparr>)) = Inr ''c1''"
    by (subst zone_free_hostname) (simp_all add: pool host_of_def example_claim_def annotation_def)
  from same_hostname_same_address [where ?x2.0 = new_address, OF w pool(1,3) p pool(1,3) p e y(2) _ this]
  have "\<exists>h2 y2. EnsureAddress example_env (handler_of example_impl claim_pool (example_claim\<lparr>c_Namespace := ''other''\<rparr>))
      new_address s1 = ((h2, y2, None), s1) \<and> a_Address y2 = a_Address y1"
    by (auto simp: pool HasSuffix_def)
  with e show ?thesis by blast
qed

end
