(* ===== verification/PoolLifecycle.thy ===== *)
theory PoolLifecycle
  imports PoolController
begin

text \<open>
  The life of a pool among the claims that refer to it, as a state machine: reconciliations
  (\<open>pool_step\<close> of \<open>PoolController\<close>) interleaved in any order with the actions of users and of the
  API server. The cache that a reconciliation reads is taken to be current, its patch to
  succeed, and the pool to have no finalizers of other controllers.
\<close>

subsection \<open>Clusters\<close>

text \<open>
  \<open>cs_protected\<close> and \<open>cs_orphans\<close> are history: whether the pool was reconciled before it was
  marked for deletion, and the claims that referred to the pool when it disappeared.
\<close>

record cluster =
  cs_pool :: "InfobloxIPPool option"
  cs_claims :: "IPAddressClaim list"
  cs_protected :: bool
  cs_orphans :: "IPAddressClaim list"

text \<open>The API server stores an object, or drops it if it is marked and has no finalizer.\<close>

definition store_pool :: "kube_lib \<Rightarrow> InfobloxIPPool \<Rightarrow> cluster \<Rightarrow> cluster" where
  "store_pool L p s =
     (if p_DeletionTimestamp p \<noteq> None \<and> p_Finalizers p = []
      then s\<lparr>cs_pool := None, cs_orphans := filter (refers_to_pool L p) (cs_claims s)\<rparr>
      else s\<lparr>cs_pool := Some p\<rparr>)"

text \<open>
  Every reconciliation may see a different API server and appliance: \<open>r'\<close> is any reconciler with
  the libraries of \<open>r\<close>.
\<close>

inductive cluster_step :: "'s pool_reconciler \<Rightarrow> cluster \<Rightarrow> cluster \<Rightarrow> bool"
  for r :: "'s pool_reconciler" where
  reconcile: "cs_pool s = Some p \<Longrightarrow> pr_lib (r' :: 's pool_reconciler) = pr_lib r \<Longrightarrow>
    cluster_step r s
      ((store_pool (pr_lib r) (fst (pool_step r' (claim_cache (cs_claims s)) p)) s)
         \<lparr>cs_protected := cs_protected s \<or> p_DeletionTimestamp p = None\<rparr>)"
| delete_pool: "cs_pool s = Some p \<Longrightarrow> p_DeletionTimestamp p = None \<Longrightarrow>
    cluster_step r s (store_pool (pr_lib r) (p\<lparr>p_DeletionTimestamp := Some t\<rparr>) s)"
| edit_pool: "cs_pool s = Some p \<Longrightarrow>
    cluster_step r s (store_pool (pr_lib r) (p\<lparr>p_Spec := spec, p_Annotations := annotations\<rparr>) s)"
| create_claim: "cluster_step r s (s\<lparr>cs_claims := c # cs_claims s\<rparr>)"
| delete_claim: "cluster_step r s (s\<lparr>cs_claims := filter (\<lambda>d. d \<noteq> c) (cs_claims s)\<rparr>)"

inductive cluster_reachable :: "'s pool_reconciler \<Rightarrow> cluster \<Rightarrow> bool" for r where
  initial: "p_Finalizers p = [] \<Longrightarrow> p_DeletionTimestamp p = None \<Longrightarrow>
    cluster_reachable r \<lparr>cs_pool = Some p, cs_claims = cs, cs_protected = False, cs_orphans = []\<rparr>"
| further: "cluster_reachable r s \<Longrightarrow> cluster_step r s s' \<Longrightarrow> cluster_reachable r s'"

inductive_cases cluster_stepE: "cluster_step r s s'"

subsection \<open>The invariant\<close>

definition cluster_inv :: "cluster \<Rightarrow> bool" where
  "cluster_inv s \<longleftrightarrow>
     (case cs_pool s of
        Some p \<Rightarrow>
          if cs_protected s then p_Finalizers p = [ProtectPoolFinalizer]
          else p_Finalizers p = [] \<and> p_DeletionTimestamp p = None
      | None \<Rightarrow> cs_protected s \<longrightarrow> cs_orphans s = [])"

lemma inv_reconcile:
  assumes "lib_ok (pr_lib r)" and "cluster_inv s" and "cs_pool s = Some p"
  shows "cluster_inv ((store_pool (pr_lib r) (fst (pool_step r (claim_cache (cs_claims s)) p)) s)
           \<lparr>cs_protected := cs_protected s \<or> p_DeletionTimestamp p = None\<rparr>)"
proof (cases "p_DeletionTimestamp p")
  case None
  show ?thesis
    using assms(2,3) None pool_reconcile_finalizers [of r p]
    by (auto simp: pool_step_unmarked [OF assms(1) None] cluster_inv_def store_pool_def split: if_splits)
next
  case (Some t)
  then have m: "p_DeletionTimestamp p \<noteq> None" by simp
  show ?thesis
  proof (cases "filter (refers_to_pool (pr_lib r) p) (cs_claims s) = []")
    case True
    have "refers_to_pool (pr_lib r) (p\<lparr>p_Finalizers := []\<rparr>) = refers_to_pool (pr_lib r) p"
      by (simp add: fun_eq_iff refers_to_pool_def)
    with True assms(2,3) Some show ?thesis
      by (auto simp: pool_step_marked [OF assms(1) m] cluster_inv_def store_pool_def split: if_splits)
  next
    case False
    with assms(2,3) Some show ?thesis
      by (auto simp: pool_step_marked [OF assms(1) m] cluster_inv_def store_pool_def split: if_splits)
  qed
qed

lemma inv_step:
  assumes "lib_ok (pr_lib r)" and "cluster_inv s" and "cluster_step r s s'"
  shows "cluster_inv s'"
  using assms(3)
proof cases
  case (reconcile p r')
  then show ?thesis using inv_reconcile [of r' s p] assms(1,2) by simp
qed (use assms(2) in \<open>auto simp: cluster_inv_def store_pool_def split: option.splits if_splits\<close>)

lemma reachable_inv: "cluster_reachable r s \<Longrightarrow> lib_ok (pr_lib r) \<Longrightarrow> cluster_inv s"
  by (induction rule: cluster_reachable.induct) (auto simp: cluster_inv_def [of "\<lparr>cs_pool = _, cs_claims = _, cs_protected = _, cs_orphans = _\<rparr>"] intro: inv_step)

subsection \<open>Properties\<close>

text \<open>C11: In every interleaving of reconciliations, edits, deletions and claims coming and going:
a pool that was reconciled before its deletion was requested never disappears while a claim
refers to it.\<close>

theorem no_orphaned_claims:
  assumes "lib_ok (pr_lib r)" and "cluster_reachable r s" and "cs_protected s" and "cs_pool s = None"
  shows "cs_orphans s = []"
  using reachable_inv [OF assms(2,1)] assms(3,4) by (simp add: cluster_inv_def)

definition fresh_pool :: InfobloxIPPool where
  "fresh_pool = deleted_pool\<lparr>p_Finalizers := [], p_DeletionTimestamp := None\<rparr>"

text \<open>The deletion of a pool makes progress: in every reachable state with a protected pool
that is marked for deletion and to which no claim refers, one reconciliation removes it.\<close>

theorem deletion_progress:
  assumes "lib_ok (pr_lib r)" and "cluster_reachable r s"
    and "cs_pool s = Some p" and "p_DeletionTimestamp p \<noteq> None"
    and "\<forall>c \<in> set (cs_claims s). \<not> refers_to_pool (pr_lib r) p c"
  shows "\<exists>s'. cluster_step r s s' \<and> cs_pool s' = None"
proof -
  have "p_Finalizers p = [ProtectPoolFinalizer]"
    using reachable_inv [OF assms(2,1)] assms(3,4) by (auto simp: cluster_inv_def split: if_splits)
  moreover have "filter (refers_to_pool (pr_lib r) p) (cs_claims s) = []"
    using assms(5) by (simp add: filter_empty_conv)
  ultimately have "cs_pool (store_pool (pr_lib r) (fst (pool_step r (claim_cache (cs_claims s)) p)) s) = None"
    using assms(4) by (simp add: pool_step_marked [OF assms(1,4)] store_pool_def)
  then show ?thesis
    using cluster_step.reconcile [OF assms(3), of r r] by fastforce
qed

text \<open>A run for the examples: the pool is reconciled, marked, and reconciled again.\<close>

definition run0 :: cluster where
  "run0 = \<lparr>cs_pool = Some fresh_pool, cs_claims = [], cs_protected = False, cs_orphans = []\<rparr>"

definition run1 :: cluster where
  "run1 = \<lparr>cs_pool = Some (fresh_pool\<lparr>p_Finalizers := [ProtectPoolFinalizer]\<rparr>), cs_claims = [],
           cs_protected = True, cs_orphans = []\<rparr>"

definition run2 :: cluster where
  "run2 = \<lparr>cs_pool = Some deleted_pool, cs_claims = [], cs_protected = True, cs_orphans = []\<rparr>"

definition run3 :: cluster where
  "run3 = \<lparr>cs_pool = None, cs_claims = [], cs_protected = True, cs_orphans = []\<rparr>"

lemma run_reachable: "cluster_reachable example_pr run2" "cluster_reachable example_pr run3"
proof -
  have ok: "lib_ok (pr_lib example_pr)" by (simp add: example_pr_def example_lib_ok)
  have r0: "cluster_reachable example_pr run0"
    unfolding run0_def by (rule initial) (simp_all add: fresh_pool_def)
  have u: "p_DeletionTimestamp fresh_pool = None" by (simp add: fresh_pool_def)
  have "cluster_step example_pr run0 ((store_pool (pr_lib example_pr)
      (fst (pool_step example_pr (claim_cache (cs_claims run0)) fresh_pool)) run0)
      \<lparr>cs_protected := cs_protected run0 \<or> p_DeletionTimestamp fresh_pool = None\<rparr>)"
    by (rule cluster_step.reconcile) (simp_all add: run0_def)
  moreover have "pool_step example_pr (claim_cache (cs_claims run0)) fresh_pool =
      (fresh_pool\<lparr>p_Finalizers := [ProtectPoolFinalizer]\<rparr>, None)"
    unfolding pool_step_unmarked [OF ok u] by (simp add: fresh_pool_def)
  ultimately have "cluster_step example_pr run0 run1"
    by (simp only:) (simp add: run0_def run1_def store_pool_def fresh_pool_def)
  with r0 have r1: "cluster_reachable example_pr run1" by (rule further)
  have "cluster_step example_pr run1 (store_pool (pr_lib example_pr)
      (fresh_pool\<lparr>p_Finalizers := [ProtectPoolFinalizer], p_DeletionTimestamp := Some ''now''\<rparr>) run1)"
    by (rule cluster_step.delete_pool [of _ "fresh_pool\<lparr>p_Finalizers := [ProtectPoolFinalizer]\<rparr>", simplified])
      (simp_all add: run1_def fresh_pool_def)
  then have "cluster_step example_pr run1 run2"
    by (simp add: run1_def run2_def store_pool_def fresh_pool_def deleted_pool_def)
  with r1 show r2: "cluster_reachable example_pr run2" by (rule further)
  have d: "p_DeletionTimestamp deleted_pool \<noteq> None" by (simp add: deleted_pool_def)
  have "cluster_step example_pr run2 ((store_pool (pr_lib example_pr)
      (fst (pool_step example_pr (claim_cache (cs_claims run2)) deleted_pool)) run2)
      \<lparr>cs_protected := cs_protected run2 \<or> p_DeletionTimestamp deleted_pool = None\<rparr>)"
    by (rule cluster_step.reconcile) (simp_all add: run2_def)
  moreover have "pool_step example_pr (claim_cache (cs_claims run2)) deleted_pool =
      (deleted_pool\<lparr>p_Finalizers := []\<rparr>, None)"
    unfolding pool_step_marked [OF ok d] by (simp add: run2_def deleted_pool_def)
  ultimately have "cluster_step example_pr run2 run3"
    by (simp only:) (simp add: run2_def run3_def store_pool_def deleted_pool_def)
  with r2 show "cluster_reachable example_pr run3" by (rule further)
qed

theorem no_orphaned_claims_witness: "cs_pool run3 = None \<and> cs_orphans run3 = []"
  using no_orphaned_claims [OF _ run_reachable(2)] by (simp add: run3_def example_pr_def example_lib_ok)

theorem deletion_progress_witness: "\<exists>s'. cluster_step example_pr run2 s' \<and> cs_pool s' = None"
  using deletion_progress [of example_pr run2 deleted_pool] run_reachable(1) example_lib_ok
  by (simp add: example_pr_def run2_def deleted_pool_def)

end
