(* ===== verification/System.thy ===== *)
theory System
  imports PoolLifecycle ClaimLife Predicates
begin

text \<open>
  All parts together: the webhook admits a pool and its changes, the pool controller and the
  claim provider reconcile, and users and the API server create, edit and delete, in any order.
  The state is what the API server stores of one pool and of the claims, with their address
  objects, and the appliance. A reconciliation or a webhook call is one step, and what it lists
  is current: the listing and the patch that follows it are not separated by another step.
\<close>

subsection \<open>The state\<close>

record 's system =
  sy_pool :: "InfobloxIPPool option"
  sy_claims :: "(IPAddressClaim \<times> IPAddress option) list"
  sy_appliance :: 's

definition sy_addresses :: "'s system \<Rightarrow> IPAddress list" where
  "sy_addresses st = List.map_filter snd (sy_claims st)"

abbreviation address_cache :: "IPAddress list \<Rightarrow> IPAddress lister" where
  "address_cache store \<equiv> cache_of OIPAddress IPAddressByCombinedPoolRef a_Namespace store"

text \<open>A pool is stored under its kind, and dropped if it is marked and has no finalizer.\<close>

definition typed_pool :: "InfobloxIPPool \<Rightarrow> bool" where
  "typed_pool p \<longleftrightarrow> p_Group p = ''ipam.cluster.x-k8s.io'' \<and> p_Kind p = ''InfobloxIPPool''"

definition save_pool :: "InfobloxIPPool \<Rightarrow> 's system \<Rightarrow> 's system" where
  "save_pool p st =
     st\<lparr>sy_pool := (if p_DeletionTimestamp p \<noteq> None \<and> p_Finalizers p = [] then None else Some p)\<rparr>"

subsection \<open>Steps\<close>

text \<open>
  The claim provider: its watch passes the claim on, reads return the stored pool if they
  succeed, and the clients are those of the Infoblox client package. The generic reconciler
  makes the address object for the claim, with its namespace and pool reference.
\<close>

definition watched :: "kube_lib \<Rightarrow> IPAddressClaim \<Rightarrow> bool" where
  "watched L claim \<longleftrightarrow>
     passes (snd (b_For Provider_SetupWithManager)) (CreateEvent (OIPAddressClaim claim)) \<and>
     lib_ParseGroup L (c_APIVersion claim) = ''ipam.cluster.x-k8s.io''"

definition provider_env :: "kube_lib \<Rightarrow> 's system \<Rightarrow> 's claim_env \<Rightarrow> bool" where
  "provider_env L st env \<longleftrightarrow> ce_lib env = L \<and>
     (\<forall>ns n p. get_Pool (ce_reader env) ns n = Inr p \<longrightarrow> sy_pool st = Some p \<and> p_Namespace p = ns \<and> p_Name p = n) \<and>
     (\<forall>cfg cl. ce_newInfobloxClientFunc env cfg = Inr cl \<longrightarrow> (\<exists>c. cl = infoblox_Client c))"

definition object_for :: "kube_lib \<Rightarrow> IPAddressClaim \<Rightarrow> IPAddress \<Rightarrow> bool" where
  "object_for L claim x \<longleftrightarrow> a_Namespace x = c_Namespace claim \<and> a_PoolRef x = c_PoolRef claim \<and>
     lib_ParseGroup L (a_APIVersion x) = ''ipam.cluster.x-k8s.io''"

text \<open>
  Users may set the annotation that lets deletions pass only once the pool has its finalizer.
  Claims may come and go freely; one with an address goes when its address was released.
\<close>

inductive sys_step :: "kube_lib \<Rightarrow> 's system \<Rightarrow> 's system \<Rightarrow> bool" for L :: kube_lib where
  create_pool: "sy_pool st = None \<Longrightarrow> ValidateCreate (OInfobloxIPPool p) = Inr None \<Longrightarrow> typed_pool p \<Longrightarrow>
    p_Finalizers p = [] \<Longrightarrow> p_DeletionTimestamp p = None \<Longrightarrow>
    p_Annotations p SkipValidateDeleteWebhookAnnotation = None \<Longrightarrow>
    sys_step L st (save_pool p st)"
| update_pool: "sy_pool st = Some p \<Longrightarrow> p' = p\<lparr>p_Spec := spec, p_Annotations := annotations\<rparr> \<Longrightarrow>
    ValidateUpdate (OInfobloxIPPool p) (OInfobloxIPPool p') = Inr None \<Longrightarrow>
    annotations SkipValidateDeleteWebhookAnnotation = None \<or> p_Finalizers p \<noteq> [] \<Longrightarrow>
    sys_step L st (save_pool p' st)"
| delete_pool: "sy_pool st = Some p \<Longrightarrow> p_DeletionTimestamp p = None \<Longrightarrow>
    ValidateDelete L (address_cache (sy_addresses st)) (OInfobloxIPPool p) = Inr None \<Longrightarrow>
    sys_step L st (save_pool (p\<lparr>p_DeletionTimestamp := Some t\<rparr>) st)"
| reconcile_pool: "sy_pool (st :: 's system) = Some p \<Longrightarrow> pr_lib (r :: 's pool_reconciler) = L \<Longrightarrow>
    sys_step L st (save_pool (fst (pool_step r (claim_cache (map fst (sy_claims st))) p)) st)"
| create_claim: "sys_step L st (st\<lparr>sy_claims := (claim, None) # sy_claims st\<rparr>)"
| delete_claim: "sy_claims st = pre @ (claim, None) # post \<Longrightarrow> sys_step L st (st\<lparr>sy_claims := pre @ post\<rparr>)"
| fetch_failed: "sy_claims st = pre @ (claim, obj) # post \<Longrightarrow> watched L claim \<Longrightarrow> provider_env L st env \<Longrightarrow>
    FetchPool env (ClaimHandlerFor claim) = (h, pool, Some e) \<Longrightarrow>
    sys_step L st (st\<lparr>sy_claims := pre @ (h_claim h, obj) # post\<rparr>)"
| ensured: "sy_claims st = pre @ (claim, obj) # post \<Longrightarrow> watched L claim \<Longrightarrow> provider_env L st env \<Longrightarrow>
    FetchPool env (ClaimHandlerFor claim) = (h, pool, None) \<Longrightarrow> object_for L claim x \<Longrightarrow>
    EnsureAddress env h x (sy_appliance st) = ((h', x', None), s') \<Longrightarrow>
    sys_step L st (st\<lparr>sy_claims := pre @ (h_claim h', Some x') # post, sy_appliance := s'\<rparr>)"
| ensure_failed: "sy_claims st = pre @ (claim, obj) # post \<Longrightarrow> watched L claim \<Longrightarrow> provider_env L st env \<Longrightarrow>
    FetchPool env (ClaimHandlerFor claim) = (h, pool, None) \<Longrightarrow>
    EnsureAddress env h x (sy_appliance st) = ((h', x', Some e), s') \<Longrightarrow>
    sys_step L st (st\<lparr>sy_claims := pre @ (h_claim h', obj) # post, sy_appliance := s'\<rparr>)"
| released: "sy_claims st = pre @ (claim, obj) # post \<Longrightarrow> watched L claim \<Longrightarrow> provider_env L st env \<Longrightarrow>
    FetchPool env (ClaimHandlerFor claim) = (h, pool, None) \<Longrightarrow>
    Handler_ReleaseAddress env h (sy_appliance st) = (None, s') \<Longrightarrow>
    sys_step L st (st\<lparr>sy_claims := pre @ post, sy_appliance := s'\<rparr>)"
| appliance: "sys_step L st (st\<lparr>sy_appliance := s'\<rparr>)"

inductive sys_reachable :: "kube_lib \<Rightarrow> 's system \<Rightarrow> bool" for L :: kube_lib where
  sys_start: "sys_reachable L \<lparr>sy_pool = None, sy_claims = [], sy_appliance = s\<rparr>"
| sys_further: "sys_reachable L st \<Longrightarrow> sys_step L st st' \<Longrightarrow> sys_reachable L st'"

subsection \<open>What the steps keep\<close>

text \<open>What is the same in a pool before and after a reconciliation.\<close>

definition same_pool :: "InfobloxIPPool \<Rightarrow> InfobloxIPPool \<Rightarrow> bool" where
  "same_pool p q \<longleftrightarrow> typed_pool q = typed_pool p \<and> p_Kind q = p_Kind p \<and> p_Name q = p_Name p \<and> p_Namespace q = p_Namespace p \<and>
     p_Annotations q = p_Annotations p \<and> p_DeletionTimestamp q = p_DeletionTimestamp p \<and>
     Subnets (p_Spec q) = Subnets (p_Spec p) \<and> InstanceRef (p_Spec q) = InstanceRef (p_Spec p)"

lemma pool_reconcile_same:
  "same_pool pool (fst (pool_reconcile r pool)) \<and> p_Finalizers (fst (pool_reconcile r pool)) = p_Finalizers pool"
proof -
  have keep: "same_pool pool (default_network_view cl pool)" "p_Finalizers (default_network_view cl pool) = p_Finalizers pool"
    for cl :: "'s ib_client"
    by (simp_all add: same_pool_def default_network_view_def typed_pool_def)
  have set_c: "same_pool pool (pool_Set L p c) = same_pool pool p" for L p c
    by (simp add: same_pool_def pool_Set_def pool_SetConditions_def typed_pool_def)
  have refl: "same_pool pool pool" by (simp add: same_pool_def)
  show ?thesis
  proof (cases "getInfobloxClientForInstance (pr_reader r) (InstanceRef (p_Spec pool)) (pr_OperatorNamespace r)
      (pr_NewInfobloxClientFunc r)")
    case (Inl err)
    then show ?thesis by (simp add: pool_reconcile_def set_c refl)
  next
    case (Inr cl)
    then show ?thesis by (cases rule: pool_reconcile_client) (simp_all add: set_c keep)
  qed
qed

lemma EnsureAddress_keeps_claim:
  assumes "EnsureAddress env h x s = ((h', x', e), s')"
  shows "c_Namespace (h_claim h') = c_Namespace (h_claim h) \<and> c_PoolRef (h_claim h') = c_PoolRef (h_claim h) \<and>
    c_APIVersion (h_claim h') = c_APIVersion (h_claim h)"
proof -
  obtain h1 r where eh: "ensureHostname env h = (h1, r)" by (cases "ensureHostname env h")
  then have "c_Namespace (h_claim h1) = c_Namespace (h_claim h) \<and> c_PoolRef (h_claim h1) = c_PoolRef (h_claim h) \<and>
      c_APIVersion (h_claim h1) = c_APIVersion (h_claim h)"
    by (auto simp: ensureHostname_def Let_def split: sum.splits option.splits if_splits)
  with eh assms show ?thesis
    by (auto simp: EnsureAddress_def claim_Set_def Let_def
        split: sum.splits option.splits prod.splits alloc_result.splits)
qed

lemma FetchPool_keeps_claim:
  assumes "FetchPool env (ClaimHandlerFor claim) = (h, pool, e)"
  shows "c_Namespace (h_claim h) = c_Namespace claim \<and> c_PoolRef (h_claim h) = c_PoolRef claim \<and>
    c_APIVersion (h_claim h) = c_APIVersion claim"
  using assms
  by (auto simp: FetchPool_def ClaimHandlerFor_def claim_Set_def Let_def split: sum.splits if_splits)

lemma FetchPool_ok:
  assumes "FetchPool env (ClaimHandlerFor claim) = (h, pool, None)" and "provider_env L st env"
  obtains p c where "sy_pool st = Some p" "p_Namespace p = c_Namespace claim" "p_Name p = ref_Name (c_PoolRef claim)"
    "h = handler_of c p claim"
proof -
  obtain p cl where g: "get_Pool (ce_reader env) (c_Namespace claim) (ref_Name (c_PoolRef claim)) = Inr p"
    and c: "getInfobloxClientForInstance (ce_reader env) (InstanceRef (p_Spec p))
      (ce_operatorNamespace env) (ce_newInfobloxClientFunc env) = Inr cl"
    and h: "h = \<lparr>h_claim = claim, h_pool = Some p, h_ibclient = Some cl\<rparr>"
    using assms(1) by (auto simp: FetchPool_def ClaimHandlerFor_def Let_def split: sum.splits if_splits)
  from c obtain cfg where "ce_newInfobloxClientFunc env cfg = Inr cl" by (auto simp: client_for_instance_ok)
  with assms(2) obtain ic where "cl = infoblox_Client ic" unfolding provider_env_def by blast
  with h have "h = handler_of ic p claim" by (simp add: handler_of_def)
  moreover have "sy_pool st = Some p" "p_Namespace p = c_Namespace claim" "p_Name p = ref_Name (c_PoolRef claim)"
    using assms(2) g unfolding provider_env_def by blast+
  ultimately show thesis by (rule that [rotated -1])
qed

subsection \<open>The invariant\<close>

lemma admitted_iff:
  "ValidateCreate (OInfobloxIPPool p) = Inr None \<longleftrightarrow>
     Subnets (p_Spec p) \<noteq> [] \<and> InstanceRef (p_Spec p) \<noteq> [] \<and> (\<forall>s \<in> set (Subnets (p_Spec p)). subnet_valid s)"
  by (auto simp: ValidateCreate_def validate_ok_iff)

lemma update_admitted_iff:
  "ValidateUpdate (OInfobloxIPPool old) (OInfobloxIPPool p) = Inr None \<longleftrightarrow> ValidateCreate (OInfobloxIPPool p) = Inr None"
  by (auto simp: ValidateUpdate_def ValidateCreate_def split: sum.splits option.splits)

definition pool_fine :: "InfobloxIPPool \<Rightarrow> bool" where
  "pool_fine p \<longleftrightarrow> typed_pool p \<and> ValidateCreate (OInfobloxIPPool p) = Inr None \<and>
     (p_Finalizers p = [] \<or> p_Finalizers p = [ProtectPoolFinalizer]) \<and>
     (p_DeletionTimestamp p \<noteq> None \<longrightarrow> p_Finalizers p \<noteq> []) \<and>
     (p_Annotations p SkipValidateDeleteWebhookAnnotation \<noteq> None \<longrightarrow> p_Finalizers p \<noteq> [])"

text \<open>An address object that can be used: its address lies in a valid subnet and fits the gateway.\<close>

definition usable :: "IPAddress \<Rightarrow> bool" where
  "usable x \<longleftrightarrow>
     (\<exists>sub p a gw w. subnet_valid sub \<and> ParsePrefix (CIDR sub) = Some p \<and>
        ParseAddr (a_Address x) = Some a \<and> PrefixContains p a \<and> a_Prefix x = Some w \<and> unat w = Bits p \<and>
        a_Gateway x = Gateway sub \<and> ParseAddr (Gateway sub) = Some gw \<and> Is4 gw = Is4 a \<and> Is6 gw = Is6 a)"

definition claim_fine :: "kube_lib \<Rightarrow> InfobloxIPPool option \<Rightarrow> IPAddressClaim \<Rightarrow> IPAddress \<Rightarrow> bool" where
  "claim_fine L pool claim x \<longleftrightarrow> object_for L claim x \<and> watched L claim \<and> usable x \<and>
     (\<exists>p. pool = Some p \<and> p_Namespace p = c_Namespace claim \<and> p_Name p = ref_Name (c_PoolRef claim))"

definition sys_inv :: "kube_lib \<Rightarrow> 's system \<Rightarrow> bool" where
  "sys_inv L st \<longleftrightarrow> (\<forall>p. sy_pool st = Some p \<longrightarrow> pool_fine p) \<and>
     (\<forall>claim x. (claim, Some x) \<in> set (sy_claims st) \<longrightarrow> claim_fine L (sy_pool st) claim x)"

lemma watched_iff:
  "watched L claim \<longleftrightarrow> ref_Kind (c_PoolRef claim) = ''InfobloxIPPool'' \<and>
     ref_APIGroup (c_PoolRef claim) = ''ipam.cluster.x-k8s.io'' \<and> lib_ParseGroup L (c_APIVersion claim) = ''ipam.cluster.x-k8s.io''"
  by (auto simp: watched_def Provider_SetupWithManager_def ClaimReferencesPoolKind_def
      processIfClaimReferencesPoolKind_def pool_GroupKind_def)

lemma claim_fine_refers:
  "claim_fine L (Some p) claim x \<Longrightarrow> typed_pool p \<Longrightarrow> refers_to_pool L p claim"
  by (auto simp: claim_fine_def watched_iff refers_to_pool_def typed_pool_def)

text \<open>While an address object is there, the pool stays, whoever deletes it.\<close>

lemma kept_by_claims:
  assumes "sys_inv L st" and "sy_pool st = Some p"
    and "filter (refers_to_pool L p) (map fst (sy_claims st)) = []"
  shows "(claim, Some x) \<notin> set (sy_claims st)"
proof
  assume c: "(claim, Some x) \<in> set (sy_claims st)"
  then have "claim_fine L (Some p) claim x" "typed_pool p"
    using assms(1,2) by (auto simp: sys_inv_def pool_fine_def)
  from claim_fine_refers [OF this] c assms(3) show False by (force simp: filter_empty_conv)
qed

lemma kept_by_webhook:
  assumes "sys_inv L st" and "sy_pool st = Some p" and "p_Finalizers p = []"
    and "ValidateDelete L (address_cache (sy_addresses st)) (OInfobloxIPPool p) = Inr None"
  shows "(claim, Some x) \<notin> set (sy_claims st)"
proof
  assume c: "(claim, Some x) \<in> set (sy_claims st)"
  then have f: "claim_fine L (Some p) claim x" and p: "pool_fine p"
    using assms(1,2) by (auto simp: sys_inv_def)
  have "x \<in> set (sy_addresses st)" using c by (force simp: sy_addresses_def map_filter_def)
  moreover have "p_Annotations p SkipValidateDeleteWebhookAnnotation = None"
    using p assms(3) by (auto simp: pool_fine_def)
  ultimately show False
    using f p assms(4)
    by (auto simp: delete_admitted_iff claim_fine_def object_for_def watched_iff pool_fine_def typed_pool_def)
qed

text \<open>Saving a changed pool, and changing one claim.\<close>

lemma sys_inv_save:
  assumes inv: "sys_inv L st" and p: "sy_pool st = Some p" and n: "p_Name q = p_Name p" "p_Namespace q = p_Namespace p"
    and keep: "p_DeletionTimestamp q = None \<or> p_Finalizers q \<noteq> [] \<Longrightarrow> pool_fine q"
    and drop: "p_DeletionTimestamp q \<noteq> None \<Longrightarrow> p_Finalizers q = [] \<Longrightarrow> \<forall>c \<in> set (sy_claims st). snd c = None"
  shows "sys_inv L (save_pool q st)"
proof (cases "p_DeletionTimestamp q \<noteq> None \<and> p_Finalizers q = []")
  case True
  with drop have "(claim, Some x) \<notin> set (sy_claims st)" for claim x by force
  with True show ?thesis by (simp add: sys_inv_def save_pool_def)
next
  case False
  then have s: "save_pool q st = st\<lparr>sy_pool := Some q\<rparr>" by (auto simp: save_pool_def)
  have "claim_fine L (Some q) claim x" if "(claim, Some x) \<in> set (sy_claims st)" for claim x
    using inv p n that by (fastforce simp: sys_inv_def claim_fine_def)
  moreover from False have "p_DeletionTimestamp q = None \<or> p_Finalizers q \<noteq> []" by blast
  then have "pool_fine q" by (rule keep)
  ultimately show ?thesis by (simp add: s sys_inv_def)
qed

lemma sys_inv_claims:
  assumes "sys_inv L st" and "\<And>claim x. (claim, Some x) \<in> set cs \<Longrightarrow> (claim, Some x) \<in> set (sy_claims st) \<or> claim_fine L (sy_pool st) claim x"
  shows "sys_inv L (st\<lparr>sy_claims := cs, sy_appliance := s\<rparr>)"
  using assms unfolding sys_inv_def by simp blast

lemma claim_fine_cong:
  "claim_fine L pool claim x \<Longrightarrow> c_Namespace d = c_Namespace claim \<and> c_PoolRef d = c_PoolRef claim \<and> c_APIVersion d = c_APIVersion claim \<Longrightarrow>
     claim_fine L pool d x"
  by (simp add: claim_fine_def object_for_def watched_iff)

lemma ensured_usable:
  assumes f: "FetchPool env (ClaimHandlerFor claim) = (h, pool, None)" and env: "provider_env L st env"
    and inv: "sys_inv L st" and w: "watched L claim" and x: "object_for L claim x"
    and e: "EnsureAddress env h x s = ((h', x', None), s')"
  shows "claim_fine L (sy_pool st) (h_claim h') x'"
proof -
  obtain p c where p: "sy_pool st = Some p" "p_Namespace p = c_Namespace claim" "p_Name p = ref_Name (c_PoolRef claim)"
    and h: "h = handler_of c p claim"
    by (rule FetchPool_ok [OF f env])
  have keep: "c_Namespace (h_claim h') = c_Namespace claim \<and> c_PoolRef (h_claim h') = c_PoolRef claim \<and>
      c_APIVersion (h_claim h') = c_APIVersion claim"
    using EnsureAddress_keeps_claim [OF e] by (simp add: h)
  have "h_ibclient h = Some (infoblox_Client c)" by (simp add: h)
  from ensured_address [OF e this] obtain sub pf a wd where a: "sub \<in> set (Subnets (p_Spec p))" "ParsePrefix (CIDR sub) = Some pf"
    "PrefixContains pf a" "ParseAddr (a_Address x') = Some a" "a_Prefix x' = Some wd" "unat wd = Bits pf" "a_Gateway x' = Gateway sub"
    by (auto simp: h)
  have adm: "ValidateCreate (OInfobloxIPPool p) = Inr None" using inv p(1) by (simp add: sys_inv_def pool_fine_def)
  then have "subnet_valid sub" using a(1) by (simp add: admitted_iff)
  moreover from validated_usable [OF adm] a(1,2) obtain gw where gw: "ParseAddr (Gateway sub) = Some gw"
    "Is4 gw = Is4 (PrefixAddr pf)" "Is6 gw = Is6 (PrefixAddr pf)" by fastforce
  moreover have "Is4 gw = Is4 a" "Is6 gw = Is6 a" using gw(2,3) PrefixContains_same_kind [OF a(3)] by blast+
  ultimately have "usable x'" unfolding usable_def using a by blast
  moreover have "a_Namespace x' = a_Namespace x \<and> a_PoolRef x' = a_PoolRef x \<and> a_APIVersion x' = a_APIVersion x"
    using e by (rule EnsureAddress_ok) simp
  then have "object_for L claim x'" using x by (simp add: object_for_def)
  ultimately have "claim_fine L (sy_pool st) claim x'" using w p by (simp add: claim_fine_def)
  then show ?thesis using keep by (rule claim_fine_cong)
qed

lemma reconciled_inv:
  assumes L: "lib_ok L" and inv: "sys_inv L st" and p: "sy_pool st = Some p" and r: "pr_lib r = L"
  shows "sys_inv L (save_pool (fst (pool_step (r :: 's pool_reconciler) (claim_cache (map fst (sy_claims st))) p))
    (st :: 's system))"
proof -
  have ok: "lib_ok (pr_lib r)" and fine: "pool_fine p" using L r inv p by (simp_all add: sys_inv_def)
  show ?thesis
  proof (cases "p_DeletionTimestamp p")
    case None
    let ?q = "fst (pool_step r (claim_cache (map fst (sy_claims st))) p)"
    have q: "same_pool p ?q \<and> p_Finalizers ?q = [ProtectPoolFinalizer]"
      using fine pool_reconcile_same [of p r] unfolding pool_step_unmarked [OF ok None]
      by (auto simp: pool_fine_def same_pool_def typed_pool_def)
    then have "pool_fine ?q" using fine by (simp add: pool_fine_def same_pool_def admitted_iff)
    with q show ?thesis by (intro sys_inv_save [OF inv p]) (simp_all add: same_pool_def)
  next
    case (Some t)
    then have m: "p_DeletionTimestamp p \<noteq> None" by simp
    show ?thesis
    proof (cases "filter (refers_to_pool L p) (map fst (sy_claims st)) = []")
      case True
      then have "\<forall>c \<in> set (sy_claims st). snd c = None"
        using kept_by_claims [OF inv p True] by (metis not_None_eq prod.collapse)
      with True fine show ?thesis
        unfolding pool_step_marked [OF ok m] by (intro sys_inv_save [OF inv p]) (auto simp: r pool_fine_def Some)
    next
      case False
      with fine show ?thesis
        unfolding pool_step_marked [OF ok m] by (intro sys_inv_save [OF inv p]) (auto simp: r pool_fine_def)
    qed
  qed
qed

lemma sys_inv_step:
  assumes L: "lib_ok L" and inv: "sys_inv L st" and step: "sys_step L st st'"
  shows "sys_inv L st'"
  using step
proof cases
  case (create_pool p)
  then have "(claim, Some x) \<notin> set (sy_claims st)" for claim x
    using inv by (auto simp: sys_inv_def claim_fine_def)
  with create_pool show ?thesis by (auto simp: sys_inv_def save_pool_def pool_fine_def)
next
  case (update_pool p p' spec annotations)
  then have fine: "pool_fine p" using inv by (simp add: sys_inv_def)
  have "pool_fine p'" using fine update_pool(3,4,5) by (auto simp: pool_fine_def typed_pool_def update_admitted_iff)
  moreover have "p_DeletionTimestamp p' \<noteq> None \<longrightarrow> p_Finalizers p' \<noteq> []"
    using fine update_pool(3) by (simp add: pool_fine_def)
  ultimately show ?thesis
    unfolding update_pool(1) using update_pool(3) by (intro sys_inv_save [OF inv update_pool(2)]) auto
next
  case (delete_pool p t)
  have fine: "pool_fine p" using inv delete_pool(2) by (simp add: sys_inv_def)
  show ?thesis
    unfolding delete_pool(1)
  proof (rule sys_inv_save [OF inv delete_pool(2)])
    assume "p_DeletionTimestamp (p\<lparr>p_DeletionTimestamp := Some t\<rparr>) = None \<or> p_Finalizers (p\<lparr>p_DeletionTimestamp := Some t\<rparr>) \<noteq> []"
    then show "pool_fine (p\<lparr>p_DeletionTimestamp := Some t\<rparr>)"
      using fine by (auto simp: pool_fine_def typed_pool_def admitted_iff)
  next
    assume "p_Finalizers (p\<lparr>p_DeletionTimestamp := Some t\<rparr>) = []"
    then have "(claim, Some x) \<notin> set (sy_claims st)" for claim x
      using kept_by_webhook [OF inv delete_pool(2) _ delete_pool(4)] by simp
    then show "\<forall>c \<in> set (sy_claims st). snd c = None" by (metis not_None_eq prod.collapse)
  qed simp_all
next
  case (reconcile_pool p r)
  show ?thesis
    unfolding reconcile_pool(1) by (rule reconciled_inv [OF L inv reconcile_pool(2,3)])
next
  case (create_claim claim)
  then show ?thesis using inv by (simp add: sys_inv_def)
next
  case (delete_claim pre claim post)
  then show ?thesis using inv by (simp add: sys_inv_def)
next
  case (fetch_failed pre claim obj post env h pool e)
  then show ?thesis
    using inv FetchPool_keeps_claim [OF fetch_failed(5)] claim_fine_cong by (fastforce simp: sys_inv_def)
next
  case (ensured pre claim obj post env h pool x h' x' s')
  show ?thesis
    unfolding ensured(1)
    using ensured_usable [OF ensured(5,4) inv ensured(3,6,7)] ensured(2) by (intro sys_inv_claims [OF inv]) auto
next
  case (ensure_failed pre claim obj post env h pool x h' x' e s')
  obtain p c where h: "h = handler_of c p claim" by (rule FetchPool_ok [OF ensure_failed(5,4)])
  have "claim_fine L (sy_pool st) (h_claim h') y" if y: "obj = Some y" for y
  proof -
    have "(claim, Some y) \<in> set (sy_claims st)" by (simp add: ensure_failed(2) y)
    then have "claim_fine L (sy_pool st) claim y" using inv by (simp add: sys_inv_def)
    moreover have "c_Namespace (h_claim h') = c_Namespace claim \<and> c_PoolRef (h_claim h') = c_PoolRef claim \<and>
        c_APIVersion (h_claim h') = c_APIVersion claim"
      using EnsureAddress_keeps_claim [OF ensure_failed(6)] by (simp add: h)
    ultimately show ?thesis by (rule claim_fine_cong)
  qed
  then show ?thesis unfolding ensure_failed(1) using ensure_failed(2) by (intro sys_inv_claims [OF inv]) auto
next
  case (released pre claim obj post env h pool s')
  show ?thesis unfolding released(1) using released(2) by (intro sys_inv_claims [OF inv]) auto
next
  case (appliance s')
  then show ?thesis using inv by (simp add: sys_inv_def)
qed

lemma sys_invariant: "sys_reachable L st \<Longrightarrow> lib_ok L \<Longrightarrow> sys_inv L st"
proof (induction rule: sys_reachable.induct)
  case (sys_start s)
  then show ?case by (simp add: sys_inv_def)
next
  case (sys_further st st')
  then show ?case using sys_inv_step by blast
qed

subsection \<open>Properties\<close>

text \<open>C2: An address object never outlives its pool: in every interleaving of admissions, edits,
deletions and reconciliations, while a claim has an address object, the pool it refers to is
stored, refers to by the claim in the sense in which the pool controller counts claims, and
if it is marked for deletion it still has the finalizer. This takes the webhook before the
pool was first reconciled, and the finalizer afterwards; it needs that the annotation which
lets deletions pass is not set before.\<close>

theorem address_never_outlives_pool:
  assumes "lib_ok L" and "sys_reachable L st" and "(claim, Some x) \<in> set (sy_claims st)"
  shows "\<exists>p. sy_pool st = Some p \<and> refers_to_pool L p claim \<and>
           p_Namespace p = a_Namespace x \<and> p_Name p = ref_Name (a_PoolRef x) \<and>
           (p_DeletionTimestamp p \<noteq> None \<longrightarrow> ProtectPoolFinalizer \<in> set (p_Finalizers p))"
proof -
  have inv: "sys_inv L st" by (rule sys_invariant [OF assms(2,1)])
  then have f: "claim_fine L (sy_pool st) claim x" using assms(3) by (simp add: sys_inv_def)
  then obtain p where p: "sy_pool st = Some p" by (auto simp: claim_fine_def)
  with inv have "pool_fine p" by (simp add: sys_inv_def)
  with f p claim_fine_refers [of L p claim x] show ?thesis
    by (auto simp: claim_fine_def object_for_def pool_fine_def)
qed

text \<open>A run: a pool is created, a claim follows, and the provider gets it an address.\<close>

definition system_pool :: InfobloxIPPool where
  "system_pool = claim_pool\<lparr>p_Finalizers := []\<rparr>"

definition system_env :: "HostRecord option claim_env" where
  "system_env = example_env\<lparr>ce_reader := example_reader\<lparr>get_Pool :=
     (\<lambda>ns n. if ns = ''ns'' \<and> n = ''p1'' then Inr system_pool else Inl (KubeNotFound n))\<rparr>\<rparr>"

definition system_address :: IPAddress where
  "system_address = new_address\<lparr>a_APIVersion := ''ipam.cluster.x-k8s.io/v1beta2'', a_Namespace := ''ns'',
     a_PoolRef := c_PoolRef example_claim\<rparr>"

lemma system_run:
  obtains st claim x where "sys_reachable example_lib (st :: HostRecord option system)"
    "sy_pool st = Some system_pool" "sy_claims st = [(claim, Some x)]" "c_Namespace claim = ''ns''"
    "c_PoolRef claim = c_PoolRef example_claim" "annotation claim hostnameAnnotation = ''c1''" "a_Address x = ''10.0.0.2''"
proof -
  let ?s0 = "\<lparr>sy_pool = None, sy_claims = [], sy_appliance = None\<rparr> :: HostRecord option system"
  let ?s1 = "?s0\<lparr>sy_pool := Some system_pool\<rparr>"
  let ?s2 = "?s1\<lparr>sy_claims := [(example_claim, None)]\<rparr>"
  have v: "ValidateCreate (OInfobloxIPPool system_pool) = Inr None" by code_simp
  have p: "typed_pool system_pool" "p_Finalizers system_pool = []" "p_DeletionTimestamp system_pool = None"
    "p_Annotations system_pool SkipValidateDeleteWebhookAnnotation = None" by code_simp+
  have "sys_step example_lib ?s0 (save_pool system_pool ?s0)" using v p by (intro create_pool) simp_all
  then have "sys_reachable example_lib (save_pool system_pool ?s0)" by (rule sys_further [OF sys_start])
  then have 1: "sys_reachable example_lib ?s1" using p by (simp add: save_pool_def)
  have "sys_step example_lib ?s1 (?s1\<lparr>sy_claims := (example_claim, None) # sy_claims ?s1\<rparr>)" by (rule create_claim)
  from sys_further [OF 1 this] have 2: "sys_reachable example_lib ?s2" by simp
  have w: "watched example_lib example_claim" by (simp add: watched_iff) code_simp
  have env: "provider_env example_lib ?s2 system_env"
    by (auto simp: provider_env_def system_env_def example_env_def system_pool_def claim_pool_def deleted_pool_def
        example_client_def split: if_splits)
  obtain h pool e where f: "FetchPool system_env (ClaimHandlerFor example_claim) = (h, pool, e)" by (metis prod.collapse)
  obtain h' x e' s' where a: "EnsureAddress system_env h system_address None = ((h', x, e'), s')" by (metis prod.collapse)
  have "snd (snd (FetchPool system_env (ClaimHandlerFor example_claim))) = None" by code_simp
  with f have f': "FetchPool system_env (ClaimHandlerFor example_claim) = (h, pool, None)" by simp
  have "snd (snd (fst (EnsureAddress system_env (fst (FetchPool system_env (ClaimHandlerFor example_claim))) system_address None))) = None"
    "a_Address (fst (snd (fst (EnsureAddress system_env (fst (FetchPool system_env (ClaimHandlerFor example_claim))) system_address None))))
      = ''10.0.0.2''"
    "annotation (h_claim (fst (fst (EnsureAddress system_env (fst (FetchPool system_env (ClaimHandlerFor example_claim))) system_address None))))
      hostnameAnnotation = ''c1''"
    by code_simp+
  with f a have e: "e' = None" "a_Address x = ''10.0.0.2''" "annotation (h_claim h') hostnameAnnotation = ''c1''" by simp_all
  have c: "c_Namespace (h_claim h') = ''ns''" "c_PoolRef (h_claim h') = c_PoolRef example_claim"
    using EnsureAddress_keeps_claim [OF a] FetchPool_keeps_claim [OF f] by (simp_all add: example_claim_def)
  have "object_for example_lib example_claim system_address" by code_simp
  with w env f' a e(1) have "sys_step example_lib ?s2 (?s2\<lparr>sy_claims := [] @ (h_claim h', Some x) # [], sy_appliance := s'\<rparr>)"
    by (intro ensured [where claim = example_claim and obj = None and x = system_address]) simp_all
  from sys_further [OF 2 this] have "sys_reachable example_lib (?s2\<lparr>sy_claims := [(h_claim h', Some x)], sy_appliance := s'\<rparr>)"
    by simp
  from that [OF this _ _ c e(3,2)] show thesis by simp
qed

theorem address_never_outlives_pool_witness:
  "\<exists>st claim x. sys_reachable example_lib (st :: HostRecord option system) \<and> (claim, Some x) \<in> set (sy_claims st) \<and>
     sy_pool st = Some system_pool \<and> refers_to_pool example_lib system_pool claim \<and> a_Address x = ''10.0.0.2''"
proof -
  obtain st claim x where "sys_reachable example_lib (st :: HostRecord option system)"
    "sy_pool st = Some system_pool" "sy_claims st = [(claim, Some x)]" "a_Address x = ''10.0.0.2''"
    by (rule system_run)
  with address_never_outlives_pool [OF example_lib_ok this(1), of claim x] show ?thesis by auto
qed



end
