(* ===== verification/PoolEdits.thy ===== *)
theory PoolEdits
  imports Fleet System
begin

text \<open>
  A pool that is edited while claims have addresses of it: what a release through the edited
  pool does to an address that was allocated through the old one. The webhook compares nothing.
\<close>

definition prefixes_of :: "InfobloxIPPool \<Rightarrow> prefix list" where
  "prefixes_of pool = List.map_filter (\<lambda>sub. ParsePrefix (CIDR sub)) (Subnets (p_Spec pool))"

lemma prefixes_of_member: "p \<in> set (prefixes_of pool) \<longleftrightarrow> (\<exists>sub \<in> set (Subnets (p_Spec pool)). ParsePrefix (CIDR sub) = Some p)"
  by (auto simp: prefixes_of_def map_filter_member)

definition no_overlap :: "InfobloxIPPool \<Rightarrow> InfobloxIPPool \<Rightarrow> bool" where
  "no_overlap new old \<longleftrightarrow> (\<forall>q \<in> set (prefixes_of new). \<forall>p \<in> set (prefixes_of old). disjoint_prefixes q p)"

text \<open>Releases in subnets apart from \<open>p\<close> leave what the host holds in \<open>p\<close>.\<close>

lemma release_fold_keeps:
  assumes F: "fleet_ok c nv"
  shows "held (connector c) nv hn p s = Some as \<Longrightarrow> (\<And>q. q \<in> set qs \<Longrightarrow> disjoint_prefixes q p) \<Longrightarrow>
     \<exists>bs. held (connector c) nv hn p (fold (\<lambda>q s. snd (ReleaseAddress (connector c) nv dv q hn s)) qs s) = Some bs \<and>
       set as \<subseteq> set bs"
proof (induction qs arbitrary: s as)
  case (Cons q qs)
  from F have "wapi_ok (connector c)" "refs_ok (connector c)" "wapi_apart (connector c) nv" by (simp_all add: fleet_ok_def)
  from release_keeps_disjoint [OF this prod.collapse [symmetric] Cons.prems(1) Cons.prems(2), of q dv]
  obtain bs where "held (connector c) nv hn p (snd (ReleaseAddress (connector c) nv dv q hn s)) = Some bs" "set as \<subseteq> set bs"
    by (auto simp only: list.set_intros)
  from Cons.IH [OF this(1)] Cons.prems(2) this(2) show ?case by fastforce
qed simp

text \<open>C22: Dropping a subnet of a pool leaks the addresses that were given out of it. For every
pool that may be created, the change from any pool to it is admitted, whatever addresses are
in use; if its subnets do not overlap those of the old one, then the release of a claim that
got its address from the old pool, through the edited pool, succeeds and leaves the address
with the claim's host on the appliance - however the appliance answers. The claim and its
address object can then go, and nothing in the cluster names the address any more.\<close>

theorem removed_subnet_leaks:
  assumes "fleet_ok c nv" and "NetworkView (p_Spec pool) = nv" and "NetworkView (p_Spec pool') = nv"
    and "EnsureAddress env (handler_of c pool claim) x s = ((h', y, None), s1)" and "c_Name claim \<noteq> []"
    and "ValidateCreate (OInfobloxIPPool pool') = Inr None" and "no_overlap pool' pool"
  shows "ValidateUpdate (OInfobloxIPPool pool) (OInfobloxIPPool pool') = Inr None \<and>
         (\<exists>s2 a p as. Handler_ReleaseAddress env2 (handler_of c pool' (h_claim h')) s1 = (None, s2) \<and>
            a_Address y = AddrString a \<and> p \<in> set (prefixes_of pool) \<and>
            held (connector c) nv (host_of (h_claim h')) p s2 = Some as \<and> a \<in> set as)"
proof -
  from assms(1) have W: "wapi_ok (connector c)" "refs_ok (connector c)" by (simp_all add: fleet_ok_def)
  obtain hn a p sub q where g: "getHostname env (handler_of c pool claim) = Inr hn"
    and ann: "annotation (h_claim h') hostnameAnnotation = hn"
    and p: "sub \<in> set (Subnets (p_Spec pool))" "ParsePrefix (CIDR sub) = Some p"
    and a: "held (connector c) nv hn p s1 = Some (a # q)" "names_address a p sub y"
    by (rule ensured_held [OF W assms(4)]) (use assms(2) in auto)
  have hn: "hn \<noteq> []" using getHostname_nonempty [OF g] assms(5) by simp
  have subs: "Subnets (p_Spec pool') \<noteq> []" using assms(6) by (simp add: admitted_iff)
  have mem: "p \<in> set (prefixes_of pool)" using p by (auto simp: prefixes_of_member)
  then have "disjoint_prefixes q p" if "q \<in> set (prefixes_of pool')" for q
    using assms(7) that by (simp add: no_overlap_def)
  from release_fold_keeps [OF assms(1) a(1) this, of _ "handler_view pool' (infoblox_Client c)"]
    release_every [OF annotated_handler [OF ann hn, of env2 c pool'] handler_of_simps(2) subs handler_of_simps(3), of s1] mem a(2)
  show ?thesis
    using assms(3,6) ann by (fastforce simp: update_admitted_iff host_of_def names_address_def prefixes_of_def)
qed

text \<open>An example: the pool gets another subnet in the place of its only one.\<close>

definition moved_pool :: InfobloxIPPool where
  "moved_pool = claim_pool\<lparr>p_Spec := (p_Spec claim_pool)\<lparr>Subnets := [\<lparr>CIDR = ''10.0.1.0/24'', Gateway = ''10.0.1.1''\<rparr>]\<rparr>\<rparr>"

lemma moved_apart: "no_overlap moved_pool claim_pool"
proof -
  have "prefixes_of moved_pool = [Prefix (V4 0x0A000100) 24]" "prefixes_of claim_pool = [Prefix (V4 0x0A000000) 24]"
    by code_simp+
  moreover have "disjoint_prefixes (Prefix (V4 0x0A000100) 24) (Prefix (V4 0x0A000000) 24)"
    unfolding disjoint_prefixes_def
  proof (intro allI impI notI)
    fix a
    assume a: "PrefixContains (Prefix (V4 0x0A000100) 24) a" "PrefixContains (Prefix (V4 0x0A000000) 24) a"
    from PrefixContains_same_kind [OF a(1)] obtain b where "a = V4 b" by (cases a) simp_all
    with a show False by simp
  qed
  ultimately show ?thesis by (simp add: no_overlap_def)
qed

theorem removed_subnet_leaks_witness:
  "\<exists>h' y s1 s2 a p as. EnsureAddress many_env (handler_of many_impl claim_pool example_claim) new_address [] = ((h', y, None), s1) \<and>
     ValidateUpdate (OInfobloxIPPool claim_pool) (OInfobloxIPPool moved_pool) = Inr None \<and>
     Handler_ReleaseAddress many_env (handler_of many_impl moved_pool (h_claim h')) s1 = (None, s2) \<and>
     a_Address y = AddrString a \<and> held many_con [] (host_of (h_claim h')) p s2 = Some as \<and> a \<in> set as"
proof -
  let ?r = "EnsureAddress many_env (handler_of many_impl claim_pool example_claim) new_address []"
  obtain h' y e s1 where f: "?r = ((h', y, e), s1)" by (metis prod.collapse)
  have "snd (snd (fst ?r)) = None" by code_simp
  with f have r: "?r = ((h', y, None), s1)" by simp
  have nv: "NetworkView (p_Spec claim_pool) = []" "NetworkView (p_Spec moved_pool) = []" by code_simp+
  have name: "c_Name example_claim \<noteq> []" by code_simp
  have v: "ValidateCreate (OInfobloxIPPool moved_pool) = Inr None" by code_simp
  have c: "connector many_impl = many_con" by (simp add: many_impl_def)
  from removed_subnet_leaks [OF many_fleet_ok nv r name v moved_apart, of many_env] r show ?thesis unfolding c by blast
qed

end
