(* ===== verification/ReadyPool.thy ===== *)
theory ReadyPool
  imports ClaimProps
begin

text \<open>
  What the pool controller checks is what the claim handler uses: after a reconciliation that the
  handler accepts, every request of the handler is for a network view, a DNS view and a network
  that the controller has seen on the appliance.
\<close>

subsection \<open>Clients that differ only in requests that were not checked\<close>

definition checked :: "'s ib_client \<Rightarrow> string \<Rightarrow> string \<Rightarrow> prefix \<Rightarrow> bool" where
  "checked cl nv dv p \<longleftrightarrow>
     cl_CheckNetworkViewExists cl nv = Inr True \<and> cl_CheckDNSViewExists cl dv = Inr True \<and>
     cl_CheckNetworkExists cl nv p = Inr True"

definition same_on_checked :: "'s ib_client \<Rightarrow> 's ib_client \<Rightarrow> bool" where
  "same_on_checked cl cl' \<longleftrightarrow> cl_GetHostConfig cl' = cl_GetHostConfig cl \<and>
     (\<forall>nv dv p. checked cl nv dv p \<longrightarrow>
        cl_GetOrAllocateAddress cl' nv dv p = cl_GetOrAllocateAddress cl nv dv p \<and>
        cl_ReleaseAddress cl' nv dv p = cl_ReleaseAddress cl nv dv p)"

text \<open>The strictest such client panics on every other request.\<close>

definition guarded :: "'s ib_client \<Rightarrow> 's ib_client" where
  "guarded cl =
     cl\<lparr>cl_GetOrAllocateAddress := (\<lambda>nv dv p h z s.
          if checked cl nv dv p then cl_GetOrAllocateAddress cl nv dv p h z s else (Inl (Panic ''not checked''), s)),
        cl_ReleaseAddress := (\<lambda>nv dv p h s.
          if checked cl nv dv p then cl_ReleaseAddress cl nv dv p h s else (Some (Panic ''not checked''), s))\<rparr>"

lemma guarded_same: "same_on_checked cl (guarded cl)"
  by (simp add: same_on_checked_def guarded_def)

text \<open>The subnets of a pool whose requests are all checked.\<close>

definition checked_subnets :: "'s ib_client \<Rightarrow> InfobloxIPPool \<Rightarrow> Subnet list \<Rightarrow> bool" where
  "checked_subnets cl pool subs \<longleftrightarrow>
     (\<forall>sub \<in> set subs. \<forall>p. ParsePrefix (CIDR sub) = Some p \<longrightarrow>
        checked cl (NetworkView (p_Spec pool))
          (determineDNSView (DNSView (p_Spec pool)) (hc_DefaultDNSView (cl_GetHostConfig cl)) (NetworkView (p_Spec pool))) p)"

lemma allocate_loop_checked:
  assumes S: "same_on_checked cl cl'"
  shows "checked_subnets cl pool subs \<Longrightarrow>
     allocate_loop pool (Some cl') hn subs errs s = allocate_loop pool (Some cl) hn subs errs s"
proof (induction subs arbitrary: errs s)
  case (Cons sub subs)
  then have rest: "allocate_loop pool (Some cl') hn subs errs s = allocate_loop pool (Some cl) hn subs errs s" for errs s
    by (simp add: checked_subnets_def)
  show ?case
  proof (cases "ParsePrefix (CIDR sub)")
    case (Some p)
    with Cons.prems S show ?thesis
      by (simp add: checked_subnets_def same_on_checked_def Let_def rest
        split: prod.split sum.split option.split)
  qed (simp add: rest)
qed simp

lemma release_loop_checked:
  assumes S: "same_on_checked cl cl'"
  shows "checked_subnets cl pool subs \<Longrightarrow>
     release_loop pool (Some cl') hn subs s = release_loop pool (Some cl) hn subs s"
proof (induction subs arbitrary: s)
  case (Cons sub subs)
  then have rest: "release_loop pool (Some cl') hn subs s = release_loop pool (Some cl) hn subs s" for s
    by (simp add: checked_subnets_def)
  show ?case
  proof (cases "ParsePrefix (CIDR sub)")
    case (Some p)
    with Cons.prems S show ?thesis
      by (simp add: checked_subnets_def same_on_checked_def Let_def rest
        split: prod.split sum.split option.split)
  qed (simp add: rest)
qed simp

subsection \<open>The handler with another client\<close>

lemma getHostname_client [simp]: "getHostname env (h\<lparr>h_ibclient := cl\<rparr>) = getHostname env h"
  by (simp add: getHostname_def Let_def cong: if_cong option.case_cong sum.case_cong)

lemma ensureHostname_client:
  "ensureHostname env (h\<lparr>h_ibclient := cl\<rparr>) = (case ensureHostname env h of (h1, r) \<Rightarrow> (h1\<lparr>h_ibclient := cl\<rparr>, r))"
proof (cases "getHostname env h")
  case (Inr hn)
  have "h\<lparr>h_ibclient := cl, h_claim := claim\<rparr> = h\<lparr>h_claim := claim, h_ibclient := cl\<rparr>" for claim by simp
  then show ?thesis by (cases "h_pool h") (simp_all add: ensureHostname_def Let_def Inr)
qed (simp add: ensureHostname_def)

lemma EnsureAddress_checked:
  assumes S: "same_on_checked cl cl'" and h: "h_ibclient h = Some cl" "h_pool h = Some pool"
    and C: "checked_subnets cl pool (Subnets (p_Spec pool))"
  shows "EnsureAddress env (h\<lparr>h_ibclient := Some cl'\<rparr>) x s =
     (case EnsureAddress env h x s of ((h', y, e), s') \<Rightarrow> ((h'\<lparr>h_ibclient := Some cl'\<rparr>, y, e), s'))"
proof -
  obtain h1 r where e: "ensureHostname env h = (h1, r)" by (cases "ensureHostname env h")
  show ?thesis
  proof (cases r)
    case (Inl err)
    with e show ?thesis by (simp add: EnsureAddress_def ensureHostname_client)
  next
    case (Inr hn)
    with e ensureHostname_ok [of env h h1 hn] h have h1: "h_ibclient h1 = Some cl" "h_pool h1 = Some pool" by simp_all
    obtain a s1 where a: "allocate_loop pool (Some cl) hn (Subnets (p_Spec pool)) [] s = (a, s1)"
      by (cases "allocate_loop pool (Some cl) hn (Subnets (p_Spec pool)) [] s")
    show ?thesis
      by (cases a; cases h1)
        (use h1 in \<open>simp_all add: EnsureAddress_def ensureHostname_client e Inr a Let_def
           allocate_loop_checked [OF S C]\<close>)
  qed
qed

lemma Handler_ReleaseAddress_checked:
  assumes S: "same_on_checked cl cl'" and h: "h_ibclient h = Some cl" "h_pool h = Some pool"
    and C: "checked_subnets cl pool (Subnets (p_Spec pool))"
  shows "Handler_ReleaseAddress env (h\<lparr>h_ibclient := Some cl'\<rparr>) s = Handler_ReleaseAddress env h s"
  by (cases "getHostname env h") (simp_all add: Handler_ReleaseAddress_def h release_loop_checked [OF S C])

subsection \<open>A pool that is ready\<close>

text \<open>The handler accepts the reconciled pool only if everything was checked.\<close>

lemma accepted_checked:
  assumes L: "lib_ok (pr_lib r)"
    and cl: "getInfobloxClientForInstance (pr_reader r) (InstanceRef (p_Spec pool)) (pr_OperatorNamespace r)
           (pr_NewInfobloxClientFunc r) = Inr cl"
    and r: "pool_reconcile r pool = (pool', None)"
    and ready: "\<not> lib_IsFalse (pr_lib r) (pool_GetConditions pool') ReadyCondition"
  shows "checked_subnets cl pool' (Subnets (p_Spec pool'))"
  using cl
proof (cases rule: pool_reconcile_client)
  case (ready msg)
  with r have spec: "p_Spec pool' = p_Spec (default_network_view cl pool)" by auto
  from ready(1) show ?thesis
    unfolding spec checked_subnets_def checked_def
    by (auto simp: pool_exists_def network_exists_def)
next
  case (missing reason msg)
  have "lib_IsFalse (pr_lib r) (lib_Set (pr_lib r) cs (ready_cond ConditionFalse reason msg)) ReadyCondition" for cs
    using L [unfolded lib_ok_def, THEN conjunct1, rule_format, of cs "ready_cond ConditionFalse reason msg"]
    by (simp add: ready_cond_def)
  with missing(3) r ready show ?thesis by auto
next
  case (unparsed sub)
  with r show ?thesis by simp
qed

lemma FetchPool_accepts:
  assumes "FetchPool env h = (h1, Some pool, None)"
  shows "h_pool h1 = Some pool \<and> \<not> lib_IsFalse (ce_lib env) (pool_GetConditions pool) ReadyCondition"
  using assms by (auto simp: FetchPool_def Let_def split: sum.splits if_splits)

text \<open>C33: The handler asks the appliance only for what the pool controller has checked. Let a
pool be reconciled without an error, and let the handler fetch the pool as that reconciliation left
it, accept it as not unready, and use the client of the same instance. Then ensuring and
releasing addresses never depend on a request in a network view, a DNS view or a network that
the controller's checks did not find: with any client that answers the checked requests alike -
for instance one that panics on all others - both operations give the same address object,
error, claim and state of the appliance.\<close>

theorem ready_pool_requests_checked:
  assumes "lib_ok (ce_lib env)" and "pr_lib r = ce_lib env"
    and "getInfobloxClientForInstance (pr_reader r) (InstanceRef (p_Spec pool)) (pr_OperatorNamespace r)
           (pr_NewInfobloxClientFunc r) = Inr cl"
    and "pool_reconcile r pool = (pool', None)"
    and "FetchPool env h = (h1, Some pool', None)" and "h_ibclient h1 = Some cl"
    and "cl_GetHostConfig cl' = cl_GetHostConfig cl"
    and "\<And>nv dv p. cl_CheckNetworkViewExists cl nv = Inr True \<Longrightarrow> cl_CheckDNSViewExists cl dv = Inr True \<Longrightarrow>
           cl_CheckNetworkExists cl nv p = Inr True \<Longrightarrow>
           cl_GetOrAllocateAddress cl' nv dv p = cl_GetOrAllocateAddress cl nv dv p \<and>
           cl_ReleaseAddress cl' nv dv p = cl_ReleaseAddress cl nv dv p"
  shows "EnsureAddress env (h1\<lparr>h_ibclient := Some cl'\<rparr>) x s =
           (case EnsureAddress env h1 x s of ((h2, y, e), s') \<Rightarrow> ((h2\<lparr>h_ibclient := Some cl'\<rparr>, y, e), s')) \<and>
         Handler_ReleaseAddress env (h1\<lparr>h_ibclient := Some cl'\<rparr>) s = Handler_ReleaseAddress env h1 s"
proof -
  have S: "same_on_checked cl cl'" using assms(7,8) by (simp add: same_on_checked_def checked_def)
  from FetchPool_accepts [OF assms(5)] have h1: "h_pool h1 = Some pool'"
    "\<not> lib_IsFalse (pr_lib r) (pool_GetConditions pool') ReadyCondition" by (simp_all add: assms(2))
  have "checked_subnets cl pool' (Subnets (p_Spec pool'))"
    using accepted_checked [OF _ assms(3,4) h1(2)] assms(1,2) by simp
  from EnsureAddress_checked [OF S assms(6) h1(1) this] Handler_ReleaseAddress_checked [OF S assms(6) h1(1) this]
  show ?thesis by blast
qed

text \<open>The example pool, reconciled, fetched, and used with the guarded client.\<close>

definition reconciled_pool :: InfobloxIPPool where
  "reconciled_pool = fst (pool_reconcile example_pr claim_pool)"

definition reconciled_env :: "HostRecord option claim_env" where
  "reconciled_env = example_env\<lparr>ce_reader := example_reader\<lparr>get_Pool := (\<lambda>ns n. Inr reconciled_pool)\<rparr>\<rparr>"

definition reconciled_handler :: "HostRecord option claim_handler" where
  "reconciled_handler = fst (FetchPool reconciled_env (ClaimHandlerFor example_claim))"

theorem ready_pool_requests_checked_witness:
  "fst (snd (fst (EnsureAddress reconciled_env (reconciled_handler\<lparr>h_ibclient := Some (guarded example_client)\<rparr>)
      new_address None))) = fst (snd (fst (EnsureAddress reconciled_env reconciled_handler new_address None))) \<and>
   a_Address (fst (snd (fst (EnsureAddress reconciled_env reconciled_handler new_address None)))) = ''10.0.0.2''"
proof -
  have c: "getInfobloxClientForInstance (pr_reader example_pr) (InstanceRef (p_Spec claim_pool))
      (pr_OperatorNamespace example_pr) (pr_NewInfobloxClientFunc example_pr) = Inr example_client"
    using credentials_of_example
    by (auto simp: client_for_instance_ok example_pr_def example_reader_def claim_pool_def deleted_pool_def)
  have "snd (pool_reconcile example_pr claim_pool) = None" by code_simp
  then have r: "pool_reconcile example_pr claim_pool = (reconciled_pool, None)"
    unfolding reconciled_pool_def by (metis prod.collapse)
  have "\<not> lib_IsFalse example_lib (pool_GetConditions reconciled_pool) ReadyCondition" by code_simp
  moreover have "InstanceRef (p_Spec reconciled_pool) = InstanceRef (p_Spec claim_pool)" by code_simp
  moreover have "example_reader\<lparr>get_Pool := (\<lambda>ns n. Inr reconciled_pool)\<rparr> = ce_reader reconciled_env"
    "pr_NewInfobloxClientFunc example_pr = ce_newInfobloxClientFunc reconciled_env"
    "pr_OperatorNamespace example_pr = ce_operatorNamespace reconciled_env"
    by (simp_all add: reconciled_env_def example_env_def example_pr_def)
  moreover have "getInfobloxClientForInstance (ce_reader reconciled_env) (InstanceRef (p_Spec claim_pool))
      (ce_operatorNamespace reconciled_env) (ce_newInfobloxClientFunc reconciled_env) = Inr example_client"
    using credentials_of_example
    by (auto simp: client_for_instance_ok reconciled_env_def example_env_def example_reader_def claim_pool_def deleted_pool_def)
  ultimately have f: "FetchPool reconciled_env (ClaimHandlerFor example_claim) =
      (reconciled_handler, Some reconciled_pool, None)" "h_ibclient reconciled_handler = Some example_client"
    by (auto simp: reconciled_handler_def FetchPool_def Let_def reconciled_env_def example_env_def split: if_splits)
  have "lib_ok (ce_lib reconciled_env)" "pr_lib example_pr = ce_lib reconciled_env"
    by (simp_all add: reconciled_env_def example_env_def example_pr_def example_lib_ok)
  from ready_pool_requests_checked [OF this c r f, of "guarded example_client" new_address None]
  have "EnsureAddress reconciled_env (reconciled_handler\<lparr>h_ibclient := Some (guarded example_client)\<rparr>) new_address None =
      (case EnsureAddress reconciled_env reconciled_handler new_address None of
         ((h2, y, e), s') \<Rightarrow> ((h2\<lparr>h_ibclient := Some (guarded example_client)\<rparr>, y, e), s'))"
    by (simp add: guarded_def checked_def)
  moreover have "a_Address (fst (snd (fst (EnsureAddress reconciled_env reconciled_handler new_address None)))) = ''10.0.0.2''"
    by code_simp
  ultimately show ?thesis by (simp add: case_prod_beta)
qed

end
