(* ===== verification/ManySubnets.thy ===== *)
theory ManySubnets
  imports Fleet
begin

text \<open>
  Pools with several subnets: every reconciliation of a claim asks for an address in the first
  subnets again, whatever address the claim has, so that it can come to hold several.
\<close>

subsection \<open>Which subnet is used\<close>

text \<open>The first subnet that parses is asked first.\<close>

lemma allocate_loop_first:
  "\<forall>l < k. ParsePrefix (CIDR (subs ! l)) = None \<Longrightarrow> k < length subs \<Longrightarrow> ParsePrefix (CIDR (subs ! k)) = Some r \<Longrightarrow>
     cl_GetOrAllocateAddress cl (NetworkView (p_Spec pool)) (handler_view pool cl) r hn (DNSZone (p_Spec pool)) s =
       (Inr b, s') \<Longrightarrow>
     allocate_loop pool (Some cl) hn subs errs s = (Allocated b r (subs ! k), s')"
proof (induction subs arbitrary: k)
  case (Cons sub subs)
  show ?case
  proof (cases k)
    case 0
    with Cons.prems show ?thesis by (simp add: handler_view_def)
  next
    case (Suc k')
    with Cons.prems(1) have "ParsePrefix (CIDR sub) = None" "\<forall>l < k'. ParsePrefix (CIDR (subs ! l)) = None" by auto
    with Cons.prems(2-) Cons.IH [of k'] Suc show ?thesis by simp
  qed
qed simp

text \<open>
  A subnet in which the host holds an address gives one: the loop does not get past it.
\<close>

lemma allocate_loop_stops:
  assumes F: "fleet_ok c nv" and nv: "NetworkView (p_Spec pool) = nv"
  shows "allocate_loop pool (Some (infoblox_Client c)) hn subs errs s = (Allocated b q sub, s') \<Longrightarrow>
     i < length subs \<Longrightarrow> ParsePrefix (CIDR (subs ! i)) = Some p \<Longrightarrow>
     held (connector c) nv hn p s = Some (a # as) \<Longrightarrow>
     \<exists>j \<le> i. subs ! j = sub \<and> ParsePrefix (CIDR sub) = Some q \<and>
       (\<exists>dv z s0. GetOrAllocateAddress (connector c) nv dv q hn z s0 = (Inr b, s'))"
proof (induction subs arbitrary: errs s i a as)
  case (Cons t subs)
  have W: "wapi_ok (connector c)" using F by (simp add: fleet_ok_def)
  let ?G = "\<lambda>p. cl_GetOrAllocateAddress (infoblox_Client c) nv (handler_view pool (infoblox_Client c)) p hn
      (DNSZone (p_Spec pool))"
  have G: "?G p = GetOrAllocateAddress (connector c) nv (handler_view pool (infoblox_Client c)) p hn (DNSZone (p_Spec pool))" for p
    by (simp add: infoblox_Client_def)
  have later: "\<exists>j \<le> i. (t # subs) ! j = sub \<and> ParsePrefix (CIDR sub) = Some q \<and>
       (\<exists>dv z s0. GetOrAllocateAddress (connector c) nv dv q hn z s0 = (Inr b, s'))"
    if i: "i \<noteq> 0" and l: "allocate_loop pool (Some (infoblox_Client c)) hn subs errs' s1 = (Allocated b q sub, s')"
      and h: "held (connector c) nv hn p s1 = Some (a' # as')" for errs' s1 a' as'
  proof -
    obtain i' where "i = Suc i'" using i by (cases i) auto
    with Cons.IH [OF l _ _ h, of i'] Cons.prems(2,3) show ?thesis by force
  qed
  show ?case
  proof (cases "ParsePrefix (CIDR t)")
    case None
    with Cons.prems(1,3) have "i \<noteq> 0" "allocate_loop pool (Some (infoblox_Client c)) hn subs errs s = (Allocated b q sub, s')"
      by (auto intro: gr0I)
    then show ?thesis using Cons.prems(4) by (rule later)
  next
    case (Some u)
    obtain x s1 where g: "?G u s = (x, s1)" by (cases "?G u s")
    show ?thesis
    proof (cases x)
      case (Inr b')
      with Cons.prems(1) Some g nv have "b' = b" "u = q" "sub = t" "s1 = s'" by (simp_all add: handler_view_def)
      with Some g Inr show ?thesis unfolding G by (intro exI [of _ 0]) auto
    next
      case (Inl err)
      with Cons.prems(1) Some g nv
      have l: "allocate_loop pool (Some (infoblox_Client c)) hn subs (errs @ [err]) s1 = (Allocated b q sub, s')"
        by (auto simp: handler_view_def split: option.splits)
      have "i \<noteq> 0"
      proof
        assume "i = 0"
        with Cons.prems(3) Some have "u = p" by simp
        with held_allocates [OF W Cons.prems(4)] g Inl show False unfolding G by simp
      qed
      moreover obtain a' as' where "held (connector c) nv hn p s1 = Some (a' # as')"
      proof -
        have "grows (connector c) nv hn s s1" using client_allocate_effect [OF F g] by simp
        with Cons.prems(4) obtain bs where "held (connector c) nv hn p s1 = Some bs" "a \<in> set bs"
          by (fastforce simp: grows_def)
        then show thesis using that by (cases bs) auto
      qed
      ultimately show ?thesis using l by (intro later)
    qed
  qed
qed simp

subsection \<open>The next reconciliation\<close>

text \<open>C24: With several subnets a claim can move to an earlier one, and then holds two addresses.
After a successful reconciliation let the appliance change, except for what this host holds, and
let the claim be reconciled again with success. Then its address is from the same subnet as
before or from an earlier one, never from a later one; in particular, it is from the first
subnet that parses whenever that has an address to give, whatever address the claim had. The
address before is not given back: the host holds both in the end, so that, if they are in
different subnets, the address object has changed and the old address is held without an object
that names it.\<close>

theorem earlier_subnet_takes_over:
  assumes "fleet_ok c (NetworkView (p_Spec pool))" and "c_Name claim \<noteq> []"
    and "subs = Subnets (p_Spec pool)" and "nv = NetworkView (p_Spec pool)"
    and "EnsureAddress env (handler_of c pool claim) x s = ((h', y, None), s1)"
    and "hn = host_of (h_claim h')"
    and "\<And>r. held (connector c) nv hn r s2 = held (connector c) nv hn r s1"
    and "EnsureAddress env2 (handler_of c pool (h_claim h')) y s2 = ((h'', y', None), s3)"
  shows "\<exists>i j p q a b. i < length subs \<and> j \<le> i \<and>
     ParsePrefix (CIDR (subs ! i)) = Some p \<and> ParseAddr (a_Address y) = Some a \<and> a_Gateway y = Gateway (subs ! i) \<and>
     PrefixContains p a \<and> (\<exists>as. held (connector c) nv hn p s3 = Some as \<and> a \<in> set as) \<and>
     ParsePrefix (CIDR (subs ! j)) = Some q \<and> ParseAddr (a_Address y') = Some b \<and> a_Gateway y' = Gateway (subs ! j) \<and>
     PrefixContains q b \<and> (\<exists>bs. held (connector c) nv hn q s3 = Some (b # bs)) \<and>
     (\<not> PrefixContains q a \<longrightarrow> a_Address y' \<noteq> a_Address y) \<and>
     (\<forall>k r b' s'. (\<forall>l < k. ParsePrefix (CIDR (subs ! l)) = None) \<longrightarrow> k < length subs \<longrightarrow>
        ParsePrefix (CIDR (subs ! k)) = Some r \<longrightarrow>
        GetOrAllocateAddress (connector c) nv
          (determineDNSView (DNSView (p_Spec pool)) (hc_DefaultDNSView (hc c)) nv) r hn (DNSZone (p_Spec pool)) s2 =
          (Inr b', s') \<longrightarrow> j = k \<and> b = b' \<and> s3 = s')"
proof -
  let ?con = "connector c" and ?cl = "infoblox_Client c"
  have F: "fleet_ok c nv" using assms(1,4) by simp
  then have W: "wapi_ok ?con" and R: "refs_ok ?con" by (simp_all add: fleet_ok_def)
  from ensured_held [OF W R assms(5)] obtain hn' a p sub as where
    first: "getHostname env (handler_of c pool claim) = Inr hn'" "annotation (h_claim h') hostnameAnnotation = hn'"
      "sub \<in> set subs" "ParsePrefix (CIDR sub) = Some p" "held ?con nv hn' p s1 = Some (a # as)"
      "names_address a p sub y" "ParseAddr (AddrString a) = Some a"
    unfolding assms(3,4) by metis
  have hn: "hn' = hn" "hn \<noteq> []"
    using getHostname_nonempty [OF first(1)] assms(2,6) first(2) by (simp_all add: host_of_def)
  obtain i where i: "i < length subs" "subs ! i = sub" using first(3) by (auto simp: in_set_conv_nth)
  have before: "held ?con nv hn p s2 = Some (a # as)" using first(5) assms(7) by (simp add: hn)
  obtain h1 b q t where l: "allocate_loop pool (Some ?cl) hn subs [] s2 = (Allocated b q t, s3)"
    and y': "a_Address y' = AddrString b" "a_Gateway y' = Gateway t"
  proof -
    have "getHostname env2 (handler_of c pool (h_claim h')) = Inr hn"
      by (rule annotated_handler) (use first(2) hn in simp_all)
    with EnsureAddress_ok [OF assms(8)] ensureHostname_ok [of env2 "handler_of c pool (h_claim h')"] show thesis
      using that unfolding assms(3) by (fastforce split: if_splits)
  qed
  have kept: "\<exists>as. held ?con nv hn p s3 = Some as \<and> a \<in> set as"
    using allocate_loop_effect [OF F assms(4) [symmetric] l] before by (fastforce simp: grows_def)
  let ?first = "\<lambda>k r b' s'. (\<forall>l < k. ParsePrefix (CIDR (subs ! l)) = None) \<and> k < length subs \<and>
        ParsePrefix (CIDR (subs ! k)) = Some r \<and>
        GetOrAllocateAddress ?con nv
          (determineDNSView (DNSView (p_Spec pool)) (hc_DefaultDNSView (hc c)) nv) r hn (DNSZone (p_Spec pool)) s2 = (Inr b', s')"
  have asked: "q = r \<and> t = subs ! k \<and> b = b' \<and> s3 = s'" if "?first k r b' s'" for k r b' s'
    using allocate_loop_first [of k subs r ?cl pool hn s2 b' s' "[]"] that l assms(4)
    by (simp add: infoblox_Client_def handler_view_def GetHostConfig_def)
  obtain j where j: "j \<le> i" "subs ! j = t" "ParsePrefix (CIDR t) = Some q"
    and g: "\<exists>dv z s0. GetOrAllocateAddress ?con nv dv q hn z s0 = (Inr b, s3)"
    and only: "\<And>k r b' s'. ?first k r b' s' \<Longrightarrow> j = k"
  proof -
    from allocate_loop_stops [OF F assms(4) [symmetric] l i(1) _ before] first(4) i(2)
    obtain j where j: "j \<le> i" "subs ! j = t" "ParsePrefix (CIDR t) = Some q"
      "\<exists>dv z s0. GetOrAllocateAddress ?con nv dv q hn z s0 = (Inr b, s3)" by auto
    show thesis
    proof (cases "\<exists>k r b' s'. ?first k r b' s'")
      case True
      then obtain k r b' s' where k: "?first k r b' s'" by blast
      have "k \<le> i" using k i first(4) by (metis not_le option.distinct(1))
      moreover have "k' = k" if "?first k' r' b'' s''" for k' r' b'' s''
        using k that by (metis linorder_neqE_nat option.distinct(1))
      ultimately show thesis using asked [OF k] j k by (intro that [of k]) (blast+)
    next
      case False
      with j show thesis by (intro that [of j]) blast+
    qed
  qed
  obtain dv z s0 where g: "GetOrAllocateAddress ?con nv dv q hn z s0 = (Inr b, s3)" using g by blast
  have b: "ParseAddr (AddrString b) = Some b" "PrefixContains q b"
    using client.allocated_text [of c nv dv q hn z s0 b s3] client.allocates_in_subnet [of c nv dv q hn z s0 b s3] g
    by (simp_all add: infoblox_Client_def)
  from allocate_listed [OF W R g] have now: "\<exists>bs. held ?con nv hn q s3 = Some (b # bs)"
    by (fastforce simp: held_def)
  have inp: "PrefixContains p a"
    using W before by (cases rule: held_cases) (simp, metis addrs_in_subnet list.set_intros(1))
  have moved: "a_Address y' \<noteq> a_Address y" if "\<not> PrefixContains q a"
    using that b first(6,7) y'(1) by (metis names_address_def option.inject)
  have when_first: "j = k \<and> b = b' \<and> s3 = s'" if "\<forall>l < k. ParsePrefix (CIDR (subs ! l)) = None" "k < length subs"
    "ParsePrefix (CIDR (subs ! k)) = Some r" "GetOrAllocateAddress ?con nv
       (determineDNSView (DNSView (p_Spec pool)) (hc_DefaultDNSView (hc c)) nv) r hn (DNSZone (p_Spec pool)) s2 = (Inr b', s')"
    for k r b' s' using asked only that by blast
  show ?thesis
    by (rule exI [of _ i], rule exI [of _ j], rule exI [of _ p], rule exI [of _ q], rule exI [of _ a], rule exI [of _ b])
      (use i j first(4,6,7) kept b now inp moved y' when_first in \<open>simp add: names_address_def\<close>)
qed

text \<open>
  Two subnets with one address each. While another host has the first address, the claim gets the
  second; when the other host is gone, it gets the first, and keeps the second.
\<close>

definition two_subnets :: InfobloxIPPool where
  "two_subnets = claim_pool\<lparr>p_Spec := (p_Spec claim_pool)\<lparr>Subnets :=
     [\<lparr>CIDR = ''10.0.0.2/32'', Gateway = ''10.0.0.1''\<rparr>, \<lparr>CIDR = ''10.0.0.3/32'', Gateway = ''10.0.0.1''\<rparr>]\<rparr>\<rparr>"

definition other_host :: "string \<times> HostRecord" where
  "other_host = hd (snd (EnsureAddress many_env (handler_of many_impl claim_pool (two_claims False)) new_address []))"

definition first_run :: "((string \<times> HostRecord) list claim_handler \<times> IPAddress \<times> error option) \<times> (string \<times> HostRecord) list" where
  "first_run = EnsureAddress many_env (handler_of many_impl two_subnets example_claim) new_address [other_host]"

definition without_other :: "(string \<times> HostRecord) list \<Rightarrow> (string \<times> HostRecord) list" where
  "without_other s = filter (\<lambda>(k, r). k \<noteq> ''c2'') s"

definition second_run :: "((string \<times> HostRecord) list claim_handler \<times> IPAddress \<times> error option) \<times> (string \<times> HostRecord) list" where
  "second_run = EnsureAddress many_env (handler_of many_impl two_subnets (h_claim (fst (fst first_run))))
     (fst (snd (fst first_run))) (without_other (snd first_run))"

theorem earlier_subnet_takes_over_witness:
  "a_Address (fst (snd (fst first_run))) = ''10.0.0.3'' \<and> a_Address (fst (snd (fst second_run))) = ''10.0.0.2'' \<and>
   (\<exists>i j p q as bs. j < i \<and>
      ParsePrefix (CIDR (Subnets (p_Spec two_subnets) ! i)) = Some p \<and>
      ParsePrefix (CIDR (Subnets (p_Spec two_subnets) ! j)) = Some q \<and>
      held many_con [] ''c1'' p (snd second_run) = Some as \<and> V4 0x0A000003 \<in> set as \<and>
      held many_con [] ''c1'' q (snd second_run) = Some (V4 0x0A000002 # bs))"
proof -
  obtain h' y e s1 where r1: "first_run = ((h', y, e), s1)" by (metis prod.collapse)
  obtain h'' y' e' s3 where r2: "second_run = ((h'', y', e'), s3)" by (metis prod.collapse)
  have "snd (snd (fst first_run)) = None" "a_Address (fst (snd (fst first_run))) = ''10.0.0.3''"
    "host_of (h_claim (fst (fst first_run))) = ''c1''" by code_simp+
  then have x: "e = None" "a_Address y = ''10.0.0.3''" "host_of (h_claim h') = ''c1''" by (simp_all add: r1)
  have "snd (snd (fst second_run)) = None" "a_Address (fst (snd (fst second_run))) = ''10.0.0.2''" by code_simp+
  then have x': "e' = None" "a_Address y' = ''10.0.0.2''" by (simp_all add: r2)
  have c: "connector many_impl = many_con" by (simp add: many_impl_def)
  have "map_of (filter (\<lambda>(k, r). k \<noteq> ''c2'') s) ''c1'' = map_of s ''c1''" for s :: "(string \<times> HostRecord) list"
    by (induction s) auto
  then have same: "held (connector many_impl) nv ''c1'' r (without_other s1) = held (connector many_impl) nv ''c1'' r s1" for nv r
    by (simp add: c many_held without_other_def)
  have "EnsureAddress many_env (handler_of many_impl two_subnets example_claim) new_address [other_host] = ((h', y, None), s1)"
    "EnsureAddress many_env (handler_of many_impl two_subnets (h_claim h')) y (without_other s1) = ((h'', y', None), s3)"
    using r1 [unfolded first_run_def] r2 [unfolded second_run_def r1 fst_conv snd_conv] x(1) x'(1) by simp_all
  note runs = this
  have "c_Name example_claim \<noteq> []" "NetworkView (p_Spec two_subnets) = []" by code_simp+
  from earlier_subnet_takes_over [OF many_fleet_ok this(1) refl refl runs(1) refl, unfolded x(3) this(2), OF same runs(2)]
  obtain i j p q a b where t: "i < length (Subnets (p_Spec two_subnets))" "j \<le> i"
    "ParsePrefix (CIDR (Subnets (p_Spec two_subnets) ! i)) = Some p" "ParseAddr (a_Address y) = Some a"
    "PrefixContains p a" "\<exists>as. held many_con [] ''c1'' p s3 = Some as \<and> a \<in> set as"
    "ParsePrefix (CIDR (Subnets (p_Spec two_subnets) ! j)) = Some q" "ParseAddr (a_Address y') = Some b"
    "PrefixContains q b" "\<exists>bs. held many_con [] ''c1'' q s3 = Some (b # bs)"
    unfolding c by blast
  have ab: "ParseAddr ''10.0.0.3'' = Some (V4 0x0A000003)" "ParseAddr ''10.0.0.2'' = Some (V4 0x0A000002)" by code_simp+
  with t(4,8) x(2) x'(2) have a: "a = V4 0x0A000003" "b = V4 0x0A000002" by simp_all
  have "\<not> PrefixContains (Prefix (V4 0x0A000002) 32) (V4 0x0A000003)" by code_simp
  moreover have "ParsePrefix (CIDR (Subnets (p_Spec two_subnets) ! 0)) = Some (Prefix (V4 0x0A000002) 32)" by code_simp
  moreover have "\<not> PrefixContains (Prefix (V4 0x0A000003) 32) (V4 0x0A000002)" by code_simp
  moreover have "ParsePrefix (CIDR (Subnets (p_Spec two_subnets) ! 1)) = Some (Prefix (V4 0x0A000003) 32)" by code_simp
  moreover have "length (Subnets (p_Spec two_subnets)) = 2" by code_simp
  ultimately have "i = 1" "j = 0"
    using t(1,2,3,5,7,9) a by (cases i; cases j; force simp: less_Suc_eq)+
  with t a x x' show ?thesis unfolding r1 r2 fst_conv snd_conv by (intro conjI, simp, simp) (metis zero_less_one)
qed

end
