(* ===== verification/Deadlock.thy ===== *)
theory Deadlock
  imports System
begin

text \<open>
  Deletions of a pool with claims: those that can end, because the claims' addresses can be released,
  and those that cannot. The pool controller does not check a pool that is marked for deletion, so
  one that is not ready never becomes ready again; the claim provider does not fetch a pool
  that is not ready, so it never releases the addresses that keep the pool.
\<close>

subsection \<open>Deletions that never end\<close>

definition unready :: "kube_lib \<Rightarrow> InfobloxIPPool \<Rightarrow> bool" where
  "unready L p \<longleftrightarrow> p_DeletionTimestamp p \<noteq> None \<and> lib_IsFalse L (pool_GetConditions p) ReadyCondition"

definition holds_pool :: "kube_lib \<Rightarrow> IPAddress \<Rightarrow> 's system \<Rightarrow> bool" where
  "holds_pool L x st \<longleftrightarrow> (\<exists>p claim. sy_pool st = Some p \<and> unready L p \<and> (claim, Some x) \<in> set (sy_claims st))"

lemma unready_cong [simp]:
  "unready L (p\<lparr>p_Spec := s, p_Annotations := as\<rparr>) = unready L p"
  by (simp add: unready_def pool_GetConditions_def)

lemma FetchPool_needs_ready:
  assumes "FetchPool env (ClaimHandlerFor claim) = (h, pool, None)" and "provider_env L st env" and "sy_pool st = Some p"
  shows "\<not> unready L p"
  using assms by (auto simp: FetchPool_def ClaimHandlerFor_def provider_env_def unready_def Let_def split: sum.splits if_splits)

lemma holds_pool_claims:
  "holds_pool L x st \<Longrightarrow> (\<And>claim. (claim, Some x) \<in> set (sy_claims st) \<Longrightarrow> \<exists>claim'. (claim', Some x) \<in> set cs) \<Longrightarrow>
     holds_pool L x (st\<lparr>sy_claims := cs, sy_appliance := s\<rparr>)"
  unfolding holds_pool_def by simp blast

lemma holds_pool_step:
  assumes L: "lib_ok L" and inv: "sys_inv L st" and hold: "holds_pool L x st" and step: "sys_step L st st'"
  shows "holds_pool L x st'"
proof -
  obtain p claim where p: "sy_pool st = Some p" "unready L p" and c: "(claim, Some x) \<in> set (sy_claims st)"
    using hold by (auto simp: holds_pool_def)
  have fine: "pool_fine p" using inv p(1) by (simp add: sys_inv_def)
  then have fins: "p_Finalizers p \<noteq> []" using p(2) by (simp add: pool_fine_def unready_def)
  have same: "holds_pool L x (save_pool q st)" if "unready L q" "p_Finalizers q \<noteq> []" for q
    using that c by (auto simp: holds_pool_def save_pool_def)
  have no_fetch: False if "FetchPool env (ClaimHandlerFor d) = (h, pool, None)" "provider_env L st env" for env d h pool
    using FetchPool_needs_ready [OF that p(1)] p(2) by simp
  from step show ?thesis
  proof cases
    case (create_pool q)
    with p(1) show ?thesis by simp
  next
    case (update_pool q q' spec annotations)
    with p fins show ?thesis by (auto intro!: same)
  next
    case (delete_pool q t)
    with p show ?thesis by (simp add: unready_def)
  next
    case (reconcile_pool q r)
    have "filter (refers_to_pool L p) (map fst (sy_claims st)) \<noteq> []"
      using kept_by_claims [OF inv p(1)] c by blast
    moreover have "p_DeletionTimestamp p \<noteq> None" using p(2) by (simp add: unready_def)
    ultimately have "fst (pool_step r (claim_cache (map fst (sy_claims st))) p) = p"
      using pool_step_marked [of r p] L reconcile_pool(3) by simp
    with reconcile_pool p fins show ?thesis by (simp add: same)
  next
    case (create_claim d)
    with p c show ?thesis by (auto simp: holds_pool_def)
  next
    case (delete_claim pre d post)
    with p c show ?thesis by (auto simp: holds_pool_def)
  next
    case (fetch_failed pre d obj post env h pool e)
    with p c show ?thesis by (fastforce simp: holds_pool_def)
  next
    case (ensured pre d obj post env h pool y h' y' s')
    with no_fetch show ?thesis by blast
  next
    case (ensure_failed pre d obj post env h pool y h' y' e s')
    with no_fetch show ?thesis by blast
  next
    case (released pre d obj post env h pool s')
    with no_fetch show ?thesis by blast
  next
    case (appliance s')
    with hold show ?thesis by (simp add: holds_pool_def)
  qed
qed

text \<open>C12: Deleting a pool that is not ready, while a claim has an address of it, never ends: in no
run from there is the claim's address ever released or the pool removed. The provider refuses
to fetch the pool because its Ready condition is false; the pool controller, for a pool that
is marked for deletion, does not check again but only counts the claims.\<close>

theorem unready_deletion_never_ends:
  assumes "lib_ok L" and "sys_reachable L st" and "sy_pool st = Some p" and "p_DeletionTimestamp p \<noteq> None"
    and "lib_IsFalse L (pool_GetConditions p) ReadyCondition" and "(claim, Some x) \<in> set (sy_claims st)"
    and "(sys_step L)\<^sup>*\<^sup>* st st'"
  shows "\<exists>p' claim'. sy_pool st' = Some p' \<and> p_DeletionTimestamp p' \<noteq> None \<and>
           lib_IsFalse L (pool_GetConditions p') ReadyCondition \<and> (claim', Some x) \<in> set (sy_claims st')"
proof -
  have "holds_pool L x st" using assms(3-6) by (auto simp: holds_pool_def unready_def)
  with assms(7) have "sys_reachable L st' \<and> holds_pool L x st'"
  proof (induction rule: rtranclp_induct)
    case base
    then show ?case using assms(2) by simp
  next
    case (step u v)
    then show ?case using holds_pool_step [OF assms(1) sys_invariant [OF _ assms(1)]] sys_further by metis
  qed
  then show ?thesis by (auto simp: holds_pool_def unready_def)
qed

subsection \<open>Deletions that end\<close>

lemma release_runs:
  assumes L: "lib_ok L" and inv: "sys_inv L st" and env: "provider_env L st env" and p: "sy_pool st = Some p"
    and c: "sy_claims st = (claim, Some x) # rest"
    and f: "FetchPool env (ClaimHandlerFor claim) = (h, pool, None)" and hn: "getHostname env h = Inr hn"
  shows "\<exists>s'. sys_step L st (st\<lparr>sy_claims := rest, sy_appliance := s'\<rparr>)"
proof -
  obtain q cl where q: "sy_pool st = Some q" "h = handler_of cl q claim" by (rule FetchPool_ok [OF f env])
  have fine: "claim_fine L (sy_pool st) claim x" "pool_fine p" using inv p by (auto simp: sys_inv_def c)
  then have "Subnets (p_Spec q) \<noteq> []" using p q(1) by (simp add: pool_fine_def admitted_iff)
  from release_every [OF hn [unfolded q(2)] handler_of_simps(2) this handler_of_simps(3)]
  obtain s' where "Handler_ReleaseAddress env h (sy_appliance st) = (None, s')" using q(2) by blast
  from released [of st "[]" claim "Some x" rest, OF _ _ env f this] fine(1) show ?thesis
    by (auto simp: c claim_fine_def)
qed

lemma all_claims_go:
  assumes L: "lib_ok L"
  shows "sys_inv L st \<Longrightarrow> provider_env L st env \<Longrightarrow> sy_pool st = Some p \<Longrightarrow>
     (\<And>claim x. (claim, Some x) \<in> set (sy_claims st) \<Longrightarrow>
        \<exists>h pool hn. FetchPool env (ClaimHandlerFor claim) = (h, pool, None) \<and> getHostname env h = Inr hn) \<Longrightarrow>
     \<exists>s'. (sys_step L)\<^sup>*\<^sup>* st (st\<lparr>sy_claims := [], sy_appliance := s'\<rparr>)"
proof (induction "sy_claims st" arbitrary: st)
  case Nil
  then have "st\<lparr>sy_claims := [], sy_appliance := sy_appliance st\<rparr> = st" by simp
  then show ?case by (metis rtranclp.rtrancl_refl)
next
  case (Cons co rest)
  obtain claim obj where co: "co = (claim, obj)" by fastforce
  have c: "sy_claims st = (claim, obj) # rest" using Cons.hyps(2) co by simp
  have "\<exists>s'. sys_step L st (st\<lparr>sy_claims := rest, sy_appliance := s'\<rparr>)"
  proof (cases obj)
    case None
    then have "sys_step L st (st\<lparr>sy_claims := [] @ rest\<rparr>)" using c by (intro delete_claim [where claim = claim]) simp
    then show ?thesis by (intro exI [of _ "sy_appliance st"]) simp
  next
    case (Some x)
    then have "\<exists>h pool hn. FetchPool env (ClaimHandlerFor claim) = (h, pool, None) \<and> getHostname env h = Inr hn"
      using Cons.prems(4) [of claim x] c by simp
    with release_runs [OF L Cons.prems(1-3) c [unfolded Some]] show ?thesis by blast
  qed
  then obtain s' where step: "sys_step L st (st\<lparr>sy_claims := rest, sy_appliance := s'\<rparr>)" by blast
  let ?st = "st\<lparr>sy_claims := rest, sy_appliance := s'\<rparr>"
  have "provider_env L ?st env" using Cons.prems(2) by (simp add: provider_env_def)
  then have "\<exists>s''. (sys_step L)\<^sup>*\<^sup>* ?st (?st\<lparr>sy_claims := [], sy_appliance := s''\<rparr>)"
    by (intro Cons.hyps(1)) (use sys_inv_step [OF L Cons.prems(1) step] Cons.prems(3,4) c in auto)
  with step show ?case by (auto intro: converse_rtranclp_into_rtranclp)
qed

text \<open>C13: The deletion of a pool can end, from every state that can be reached: if for every claim
with an address object the pool is fetched and the hostname determined, then some run releases
all addresses and ends with the pool removed - whatever the appliance answers.\<close>

theorem deletion_can_end:
  assumes "lib_ok L" and "sys_reachable L (st :: 's system)" and "sy_pool st = Some p" and "p_DeletionTimestamp p \<noteq> None"
    and "provider_env L st env" and "pr_lib (r :: 's pool_reconciler) = L"
    and "\<And>claim x. (claim, Some x) \<in> set (sy_claims st) \<Longrightarrow>
           \<exists>h pool hn. FetchPool env (ClaimHandlerFor claim) = (h, pool, None) \<and> getHostname env h = Inr hn"
  shows "\<exists>st'. (sys_step L)\<^sup>*\<^sup>* st st' \<and> sy_pool st' = None \<and> sy_claims st' = []"
proof -
  have inv: "sys_inv L st" by (rule sys_invariant [OF assms(2,1)])
  obtain s' where run: "(sys_step L)\<^sup>*\<^sup>* st (st\<lparr>sy_claims := [], sy_appliance := s'\<rparr>)"
    using all_claims_go [OF assms(1) inv assms(5,3)] assms(7) by blast
  let ?st = "st\<lparr>sy_claims := [], sy_appliance := s'\<rparr>"
  have "pool_fine p" using inv assms(3) by (simp add: sys_inv_def)
  then have "fst (pool_step r (claim_cache (map fst (sy_claims ?st))) p) = p\<lparr>p_Finalizers := []\<rparr>"
    using pool_step_marked [OF _ assms(4), of r "[]"] assms(1,6) by (auto simp: pool_fine_def)
  with reconcile_pool [of ?st p r, OF _ assms(6)] assms(3,4)
  have "sys_step L ?st (?st\<lparr>sy_pool := None\<rparr>)" by (simp add: save_pool_def)
  from rtranclp.rtrancl_into_rtrancl [OF run this] show ?thesis by (intro exI [of _ "?st\<lparr>sy_pool := None\<rparr>"]) simp
qed

subsection \<open>Examples\<close>

text \<open>
  A run: the pool gets its finalizer, then the annotation that lets its deletion pass; the secret of the
  instance is broken when it is reconciled again, and then it is deleted.
\<close>

definition broken_pr :: "HostRecord option pool_reconciler" where
  "broken_pr = example_pr\<lparr>pr_NewInfobloxClientFunc := (\<lambda>cfg. Inl (ErrorText (Text ''no client'')))\<rparr>"

definition moving_pool :: InfobloxIPPool where
  "moving_pool = system_pool\<lparr>p_Finalizers := [ProtectPoolFinalizer], p_Annotations := [SkipValidateDeleteWebhookAnnotation \<mapsto> []]\<rparr>"

definition unready_pool :: InfobloxIPPool where
  "unready_pool = fst (pool_reconcile broken_pr moving_pool)"

lemma run_pool:
  assumes "sys_reachable example_lib (st :: HostRecord option system)" and "sy_pool st = Some p"
    and "pr_lib (r :: HostRecord option pool_reconciler) = example_lib" and "fst (pool_step r (claim_cache (map fst (sy_claims st))) p) = q"
    and "p_Finalizers q \<noteq> []"
  shows "sys_reachable example_lib (st\<lparr>sy_pool := Some q\<rparr>)"
  using sys_further [OF assms(1) reconcile_pool [OF assms(2,3)]] assms(4,5) by (simp add: save_pool_def)

lemma moving_run:
  obtains st claim x where "sys_reachable example_lib (st :: HostRecord option system)" "sy_pool st = Some moving_pool"
    "sy_claims st = [(claim, Some x)]" "c_Namespace claim = ''ns''" "c_PoolRef claim = c_PoolRef example_claim"
    "annotation claim hostnameAnnotation = ''c1''"
proof -
  obtain st claim x where r: "sys_reachable example_lib (st :: HostRecord option system)"
    "sy_pool st = Some system_pool" and c: "sy_claims st = [(claim, Some x)]" "c_Namespace claim = ''ns''"
    "c_PoolRef claim = c_PoolRef example_claim" "annotation claim hostnameAnnotation = ''c1''"
    by (rule system_run)
  let ?q = "system_pool\<lparr>p_Finalizers := [ProtectPoolFinalizer]\<rparr>"
  have p: "p_DeletionTimestamp system_pool = None" "p_Finalizers system_pool = []" by code_simp+
  have lib: "pr_lib example_pr = example_lib" by (simp add: example_pr_def)
  have "sys_reachable example_lib (st\<lparr>sy_pool := Some ?q\<rparr>)"
    by (rule run_pool [OF r lib])
      (use pool_step_unmarked [of example_pr system_pool] p example_lib_ok in \<open>simp_all add: lib\<close>)
  note 1 = sys_further [OF this update_pool
      [where p = ?q and p' = moving_pool and spec = "p_Spec system_pool" and annotations = "p_Annotations moving_pool"]]
  have "ValidateUpdate (OInfobloxIPPool ?q) (OInfobloxIPPool moving_pool) = Inr None" by code_simp
  with 1 have "sys_reachable example_lib (st\<lparr>sy_pool := Some moving_pool\<rparr>)"
    by (simp add: moving_pool_def save_pool_def)
  from that [OF this _ _ c(2-4)] c(1) show thesis by simp
qed

lemma run_delete:
  assumes "sys_reachable example_lib st" and "sy_pool st = Some p" and "p_DeletionTimestamp p = None"
    and "p_Annotations p SkipValidateDeleteWebhookAnnotation \<noteq> None" and "p_Finalizers p \<noteq> []"
  shows "sys_reachable example_lib (st\<lparr>sy_pool := Some (p\<lparr>p_DeletionTimestamp := Some ''now''\<rparr>)\<rparr>)"
proof -
  have "ValidateDelete example_lib c (OInfobloxIPPool p) = Inr None" for c using assms(4) by (simp add: ValidateDelete_def)
  from sys_further [OF assms(1) delete_pool [OF assms(2,3) this]] assms(5) show ?thesis by (simp add: save_pool_def)
qed

lemma unready_run:
  obtains st claim x where "sys_reachable example_lib (st :: HostRecord option system)"
    "sy_pool st = Some (unready_pool\<lparr>p_DeletionTimestamp := Some ''now''\<rparr>)" "(claim, Some x) \<in> set (sy_claims st)"
proof -
  obtain st claim x where r: "sys_reachable example_lib (st :: HostRecord option system)" "sy_pool st = Some moving_pool"
    and c: "sy_claims st = [(claim, Some x)]" by (rule moving_run)
  have lib: "pr_lib broken_pr = example_lib" by (simp add: broken_pr_def example_pr_def)
  have m: "p_DeletionTimestamp moving_pool = None" "p_Finalizers moving_pool = [ProtectPoolFinalizer]" by code_simp+
  have u: "p_DeletionTimestamp unready_pool = None" "p_Finalizers unready_pool = [ProtectPoolFinalizer]"
    "p_Annotations unready_pool SkipValidateDeleteWebhookAnnotation \<noteq> None" by code_simp+
  have "fst (pool_step broken_pr l moving_pool) = unready_pool" for l
    using pool_step_unmarked [of broken_pr moving_pool l] m example_lib_ok by (simp add: lib unready_pool_def)
  then have "sys_reachable example_lib (st\<lparr>sy_pool := Some unready_pool\<rparr>)"
    by (intro run_pool [OF r lib]) (simp_all add: u(2))
  from that [OF run_delete [OF this _ u(1,3)]] u(2) c show thesis by simp
qed

theorem unready_deletion_never_ends_witness:
  "\<exists>st st' p' claim claim' x. sys_reachable example_lib (st :: HostRecord option system) \<and> (claim, Some x) \<in> set (sy_claims st) \<and>
     sys_step example_lib st st' \<and> sy_pool st' = Some p' \<and> p_DeletionTimestamp p' \<noteq> None \<and>
     lib_IsFalse example_lib (pool_GetConditions p') ReadyCondition \<and> (claim', Some x) \<in> set (sy_claims st')"
proof -
  obtain st claim x where r: "sys_reachable example_lib (st :: HostRecord option system)"
    "sy_pool st = Some (unready_pool\<lparr>p_DeletionTimestamp := Some ''now''\<rparr>)" "(claim, Some x) \<in> set (sy_claims st)"
    by (rule unready_run)
  have u: "lib_IsFalse example_lib (pool_GetConditions (unready_pool\<lparr>p_DeletionTimestamp := Some ''now''\<rparr>)) ReadyCondition"
    by code_simp
  have "pr_lib example_pr = example_lib" by (simp add: example_pr_def)
  from reconcile_pool [OF r(2) this] obtain st' where s: "sys_step example_lib st st'" by blast
  from unready_deletion_never_ends [OF example_lib_ok r(1,2) _ u r(3) r_into_rtranclp [where r = "sys_step example_lib", OF s]] r s show ?thesis by force
qed

theorem deletion_can_end_witness:
  "\<exists>st st'. sys_reachable example_lib (st :: HostRecord option system) \<and> length (sy_claims st) = 1 \<and>
     sy_pool st = Some (moving_pool\<lparr>p_DeletionTimestamp := Some ''now''\<rparr>) \<and>
     (sys_step example_lib)\<^sup>*\<^sup>* st st' \<and> sy_pool st' = None \<and> sy_claims st' = []"
proof -
  obtain st claim x where r: "sys_reachable example_lib (st :: HostRecord option system)" "sy_pool st = Some moving_pool"
    and c: "sy_claims st = [(claim, Some x)]" "c_Namespace claim = ''ns''" "c_PoolRef claim = c_PoolRef example_claim"
      "annotation claim hostnameAnnotation = ''c1''"
    by (rule moving_run)
  let ?p = "moving_pool\<lparr>p_DeletionTimestamp := Some ''now''\<rparr>"
  let ?st = "st\<lparr>sy_pool := Some ?p\<rparr>"
  let ?env = "example_env\<lparr>ce_reader := example_reader\<lparr>get_Pool :=
     (\<lambda>ns n. if ns = ''ns'' \<and> n = ''p1'' then Inr ?p else Inl (KubeNotFound n))\<rparr>\<rparr>"
  have m: "p_DeletionTimestamp moving_pool = None" "p_Finalizers moving_pool \<noteq> []"
    "p_Annotations moving_pool SkipValidateDeleteWebhookAnnotation \<noteq> None" "p_Namespace moving_pool = ''ns''"
    "p_Name moving_pool = ''p1''" by code_simp+
  have reach: "sys_reachable example_lib ?st" using run_delete [OF r m(1,3,2)] .
  have env: "provider_env example_lib ?st ?env"
    by (auto simp: provider_env_def example_env_def example_client_def m split: if_splits)
  have lib: "pr_lib example_pr = example_lib" by (simp add: example_pr_def)
  have n: "ref_Name (c_PoolRef claim) = ''p1''" by (simp add: c example_claim_def)
  have ready: "\<not> lib_IsFalse (ce_lib ?env) (pool_GetConditions ?p) ReadyCondition" by code_simp
  have "getInfobloxClientForInstance (ce_reader ?env) (InstanceRef (p_Spec ?p)) (ce_operatorNamespace ?env)
      (ce_newInfobloxClientFunc ?env) = Inr example_client"
    using credentials_of_example by (auto simp: client_for_instance_ok example_env_def example_reader_def)
  then have "FetchPool ?env (ClaimHandlerFor claim) = (handler_of example_impl ?p claim, Some ?p, None)"
    using ready by (simp add: FetchPool_def ClaimHandlerFor_def n c(2) Let_def handler_of_def example_client_def)
  moreover have "getHostname ?env (handler_of example_impl ?p claim) = Inr ''c1''" by (rule annotated_handler) (simp_all add: c)
  ultimately obtain st' where "(sys_step example_lib)\<^sup>*\<^sup>* ?st st'" "sy_pool st' = None" "sy_claims st' = []"
    using deletion_can_end [OF example_lib_ok reach _ _ env lib, of ?p] c(1) by auto
  with reach c(1) show ?thesis by (intro exI [of _ ?st] exI [of _ st']) simp
qed

end
