(* ===== verification/Memory.thy ===== *)
theory Memory
  imports Main
begin

text \<open>
  Go memory as far as the copying of API objects needs it: arrays at locations, slices and
  pointers into them, and what it means that a function makes a deep copy.
\<close>

subsection \<open>Arrays, slices, pointers\<close>

text \<open>
  A cell holds an array of one type; \<open>lim\<close> is the first location never used. A slice is a part
  of an array; a pointer to a variable or to an element of an array is a slice of length one,
  and nil is \<open>None\<close>.
\<close>

type_synonym loc = nat

record 'c mem =
  cells :: "loc \<Rightarrow> 'c option"
  lim :: loc

record slice =
  sl_array :: loc
  sl_off :: nat
  sl_len :: nat

text \<open>
  The functions take the constructor \<open>C\<close> of the cells of a type, and \<open>D\<close> to get at the array.
  \<open>make\<close> allocates an array of zero values; \<open>copy\<close> copies as much as fits.
\<close>

definition array_at :: "('c \<Rightarrow> 'a list option) \<Rightarrow> 'c mem \<Rightarrow> loc \<Rightarrow> 'a list" where
  "array_at D m a = (case cells m a of None \<Rightarrow> [] | Some c \<Rightarrow> (case D c of None \<Rightarrow> [] | Some xs \<Rightarrow> xs))"

definition read_slice :: "('c \<Rightarrow> 'a list option) \<Rightarrow> 'c mem \<Rightarrow> slice \<Rightarrow> 'a list" where
  "read_slice D m s = take (sl_len s) (drop (sl_off s) (array_at D m (sl_array s)))"

definition make_slice :: "('a list \<Rightarrow> 'c) \<Rightarrow> 'a \<Rightarrow> nat \<Rightarrow> 'c mem \<Rightarrow> slice \<times> 'c mem" where
  "make_slice C zero n m =
     (\<lparr>sl_array = lim m, sl_off = 0, sl_len = n\<rparr>,
      m\<lparr>cells := (cells m)(lim m \<mapsto> C (replicate n zero)), lim := Suc (lim m)\<rparr>)"

definition write_elem ::
  "('a list \<Rightarrow> 'c) \<Rightarrow> ('c \<Rightarrow> 'a list option) \<Rightarrow> slice \<Rightarrow> nat \<Rightarrow> 'a \<Rightarrow> 'c mem \<Rightarrow> 'c mem" where
  "write_elem C D s i x m =
     m\<lparr>cells := (cells m)(sl_array s \<mapsto> C ((array_at D m (sl_array s))[sl_off s + i := x]))\<rparr>"

fun write_from ::
  "('a list \<Rightarrow> 'c) \<Rightarrow> ('c \<Rightarrow> 'a list option) \<Rightarrow> slice \<Rightarrow> nat \<Rightarrow> 'a list \<Rightarrow> 'c mem \<Rightarrow> 'c mem" where
  "write_from C D s i [] m = m"
| "write_from C D s i (x # xs) m = write_from C D s (Suc i) xs (write_elem C D s i x m)"

definition copy_builtin ::
  "('a list \<Rightarrow> 'c) \<Rightarrow> ('c \<Rightarrow> 'a list option) \<Rightarrow> slice \<Rightarrow> slice \<Rightarrow> 'c mem \<Rightarrow> 'c mem" where
  "copy_builtin C D dst src m = write_from C D dst 0 (take (sl_len dst) (read_slice D m src)) m"

text \<open>A loop over the indices that copies each element by a function of its own.\<close>

fun copy_loop ::
  "('a list \<Rightarrow> 'c) \<Rightarrow> ('c \<Rightarrow> 'a list option) \<Rightarrow> ('a \<Rightarrow> 'c mem \<Rightarrow> 'a \<times> 'c mem) \<Rightarrow>
     slice \<Rightarrow> slice \<Rightarrow> nat list \<Rightarrow> 'c mem \<Rightarrow> 'c mem" where
  "copy_loop C D into src dst [] m = m"
| "copy_loop C D into src dst (i # is) m =
     (let (y, m1) = into (read_slice D m src ! i) m
      in copy_loop C D into src dst is (write_elem C D dst i y m1))"

definition copy_slice ::
  "('a list \<Rightarrow> 'c) \<Rightarrow> ('c \<Rightarrow> 'a list option) \<Rightarrow> 'a \<Rightarrow> ('a \<Rightarrow> 'c mem \<Rightarrow> 'a \<times> 'c mem) \<Rightarrow>
     slice option \<Rightarrow> 'c mem \<Rightarrow> slice option \<times> 'c mem" where
  "copy_slice C D zero into src m =
     (case src of
        None \<Rightarrow> (None, m)
      | Some s \<Rightarrow>
          (let (d, m1) = make_slice C zero (sl_len s) m
           in (Some d, copy_loop C D into s d [0..<sl_len s] m1)))"

text \<open>The pattern of the generated \<open>DeepCopy\<close>: nil for nil, otherwise a new variable to copy into.\<close>

definition new_copy ::
  "('a list \<Rightarrow> 'c) \<Rightarrow> ('c \<Rightarrow> 'a list option) \<Rightarrow> 'a \<Rightarrow> ('a \<Rightarrow> 'c mem \<Rightarrow> 'a \<times> 'c mem) \<Rightarrow>
     slice option \<Rightarrow> 'c mem \<Rightarrow> slice option \<times> 'c mem" where
  "new_copy C D zero into p m =
     (case p of
        None \<Rightarrow> (None, m)
      | Some i \<Rightarrow>
          (let (out, m1) = make_slice C zero 1 m;
               (y, m2) = into (read_slice D m1 i ! 0) m1
           in (Some out, write_elem C D out 0 y m2)))"

subsection \<open>Deep copies\<close>

definition agree :: "loc set \<Rightarrow> 'c mem \<Rightarrow> 'c mem \<Rightarrow> bool" where
  "agree A m m' \<longleftrightarrow> (\<forall>a \<in> A. cells m' a = cells m a)"

definition extends :: "'c mem \<Rightarrow> 'c mem \<Rightarrow> bool" where
  "extends m m' \<longleftrightarrow> lim m \<le> lim m' \<and> agree {..<lim m} m m'"

lemma agree_refl [simp]: "agree A m m"
  by (simp add: agree_def)

lemma agree_trans: "agree A m m1 \<Longrightarrow> agree A m1 m2 \<Longrightarrow> agree A m m2"
  by (simp add: agree_def)

lemma agree_mono: "agree A m m' \<Longrightarrow> B \<subseteq> A \<Longrightarrow> agree B m m'"
  by (auto simp: agree_def)

lemma extends_refl [simp]: "extends m m"
  by (simp add: extends_def)

lemma extends_trans [trans]: "extends m m1 \<Longrightarrow> extends m1 m2 \<Longrightarrow> extends m m2"
  by (auto simp: extends_def agree_def)

text \<open>
  \<open>val\<close> is what an object means in a memory, \<open>foot\<close> the locations it depends on. A deep copy
  means the same as the original, uses new locations only and leaves the old ones alone.
\<close>

locale deep_copy =
  fixes into :: "'a \<Rightarrow> 'c mem \<Rightarrow> 'a \<times> 'c mem"
    and val :: "'c mem \<Rightarrow> 'a \<Rightarrow> 'v"
    and foot :: "'c mem \<Rightarrow> 'a \<Rightarrow> loc set"
    and ok :: "'c mem \<Rightarrow> 'a \<Rightarrow> bool"
  assumes copies: "ok m x \<Longrightarrow> into x m = (y, m') \<Longrightarrow>
      extends m m' \<and> ok m' y \<and> val m' y = val m x \<and> foot m' y \<subseteq> {lim m..<lim m'}"
    and framed: "ok m x \<Longrightarrow> agree (foot m x) m m' \<Longrightarrow> lim m \<le> lim m' \<Longrightarrow>
      ok m' x \<and> val m' x = val m x \<and> foot m' x = foot m x"
    and bounded: "ok m x \<Longrightarrow> foot m x \<subseteq> {..<lim m}"
begin

lemma stable: "ok m x \<Longrightarrow> extends m m' \<Longrightarrow> ok m' x \<and> val m' x = val m x \<and> foot m' x = foot m x"
  using framed [of m x m'] bounded [of m x] agree_mono by (fastforce simp: extends_def)

text \<open>Isolation: what is written through the copy or the original is not seen by the other.\<close>

lemma isolated:
  assumes "ok m x" and "into x m = (y, m')"
  shows "foot m' x \<inter> foot m' y = {}"
    and "agree (- foot m' y) m' m2 \<Longrightarrow> lim m' \<le> lim m2 \<Longrightarrow> val m2 x = val m x"
    and "agree (- foot m' x) m' m2 \<Longrightarrow> lim m' \<le> lim m2 \<Longrightarrow> val m2 y = val m x"
proof -
  note c = copies [OF assms]
  have st: "ok m' x" "val m' x = val m x" "foot m' x = foot m x" using stable assms(1) c by blast+
  with bounded [OF assms(1)] c show d: "foot m' x \<inter> foot m' y = {}" by fastforce
  show "val m2 x = val m x" if "agree (- foot m' y) m' m2" "lim m' \<le> lim m2"
    using framed [OF st(1) agree_mono [OF that(1)] that(2)] d st(2) by auto
  show "val m2 y = val m x" if "agree (- foot m' x) m' m2" "lim m' \<le> lim m2"
    using framed [of m' y m2] agree_mono [OF that(1), of "foot m' y"] that(2) d c by auto
qed

end

text \<open>Values without pointers are copied by assignment.\<close>

definition assign :: "'a \<Rightarrow> 'c mem \<Rightarrow> 'a \<times> 'c mem" where
  "assign x m = (x, m)"

interpretation plain: deep_copy assign "\<lambda>m x. x" "\<lambda>m x. {}" "\<lambda>m x. True"
  by unfold_locales (auto simp: assign_def)

subsection \<open>Slices of elements\<close>

text \<open>What a slice means, depends on, and needs, given the same for its elements.\<close>

definition slice_val :: "('c \<Rightarrow> 'a list option) \<Rightarrow> ('c mem \<Rightarrow> 'a \<Rightarrow> 'v) \<Rightarrow> 'c mem \<Rightarrow> slice option \<Rightarrow> 'v list option" where
  "slice_val D val m s = map_option (\<lambda>s. map (val m) (read_slice D m s)) s"

definition slice_foot :: "('c \<Rightarrow> 'a list option) \<Rightarrow> ('c mem \<Rightarrow> 'a \<Rightarrow> loc set) \<Rightarrow> 'c mem \<Rightarrow> slice option \<Rightarrow> loc set" where
  "slice_foot D foot m s =
     (case s of None \<Rightarrow> {}
      | Some s \<Rightarrow> insert (sl_array s) (\<Union>x \<in> set (read_slice D m s). foot m x))"

definition slice_ok :: "('c \<Rightarrow> 'a list option) \<Rightarrow> ('c mem \<Rightarrow> 'a \<Rightarrow> bool) \<Rightarrow> 'c mem \<Rightarrow> slice option \<Rightarrow> bool" where
  "slice_ok D ok m s =
     (case s of None \<Rightarrow> True
      | Some s \<Rightarrow> sl_array s < lim m \<and> sl_off s + sl_len s \<le> length (array_at D m (sl_array s)) \<and>
          (\<forall>x \<in> set (read_slice D m s). ok m x))"

lemma array_at_agree: "agree A m m' \<Longrightarrow> a \<in> A \<Longrightarrow> array_at D m' a = array_at D m a"
  by (simp add: agree_def array_at_def)

lemma read_slice_agree: "agree A m m' \<Longrightarrow> sl_array s \<in> A \<Longrightarrow> read_slice D m' s = read_slice D m s"
  by (simp add: read_slice_def array_at_agree)

lemma length_read_slice [simp]:
  "sl_off s + sl_len s \<le> length (array_at D m (sl_array s)) \<Longrightarrow> length (read_slice D m s) = sl_len s"
  by (simp add: read_slice_def)

locale array_copy = deep_copy into val foot ok
  for into :: "'a \<Rightarrow> 'c mem \<Rightarrow> 'a \<times> 'c mem" and val :: "'c mem \<Rightarrow> 'a \<Rightarrow> 'v" and foot and ok +
  fixes C :: "'a list \<Rightarrow> 'c" and D :: "'c \<Rightarrow> 'a list option"
  assumes DC: "D (C xs) = Some xs"
begin

lemma array_at_write [simp]:
  "array_at D (write_elem C D s i x m) (sl_array s) = (array_at D m (sl_array s))[sl_off s + i := x]"
  by (simp add: write_elem_def array_at_def DC)

lemma agree_write: "sl_array s \<notin> A \<Longrightarrow> agree A m (write_elem C D s i x m)"
  by (auto simp: agree_def write_elem_def)

lemma lim_write [simp]: "lim (write_elem C D s i x m) = lim m"
  by (simp add: write_elem_def)

lemma make:
  assumes "make_slice C zero n m = (d, m')"
  shows "d = \<lparr>sl_array = lim m, sl_off = 0, sl_len = n\<rparr>" "extends m m'" "lim m' = Suc (lim m)"
    "array_at D m' (lim m) = replicate n zero"
  using assms by (auto simp: make_slice_def extends_def agree_def array_at_def DC)

text \<open>
  The state of the loop after \<open>k\<close> elements: the first \<open>k\<close> entries of the new array are deep
  copies of the source's, with memory that was new when the loop began.
\<close>

definition copied :: "'c mem \<Rightarrow> slice \<Rightarrow> nat \<Rightarrow> 'c mem \<Rightarrow> bool" where
  "copied m0 s k m \<longleftrightarrow> extends m0 m \<and> lim m0 < lim m \<and>
     length (array_at D m (lim m0)) = sl_len s \<and>
     (\<forall>j < k. let y = array_at D m (lim m0) ! j
        in ok m y \<and> val m y = val m0 (read_slice D m0 s ! j) \<and> foot m y \<subseteq> {Suc (lim m0)..<lim m})"

lemma copied_step:
  assumes src: "slice_ok D ok m0 (Some s)" and c: "copied m0 s k m" and k: "k < sl_len s"
    and d: "d = \<lparr>sl_array = lim m0, sl_off = 0, sl_len = sl_len s\<rparr>"
    and i: "into (read_slice D m s ! k) m = (y, m1)"
  shows "copied m0 s (Suc k) (write_elem C D d k y m1)"
proof -
  let ?m2 = "write_elem C D d k y m1" and ?x = "read_slice D m0 s ! k"
  have ext: "extends m0 m" and lt: "lim m0 < lim m" using c by (simp_all add: copied_def)
  have rd: "read_slice D m s = read_slice D m0 s"
    using src ext by (intro read_slice_agree [of "{..<lim m0}"]) (auto simp: slice_ok_def extends_def)
  have okx: "ok m0 ?x" using src k by (auto simp: slice_ok_def)
  then have x: "ok m ?x" "val m ?x = val m0 ?x" using stable ext by blast+
  from copies [OF x(1) i [unfolded rd]]
  have y: "extends m m1" "ok m1 y" "val m1 y = val m0 ?x" "foot m1 y \<subseteq> {lim m..<lim m1}"
    using x(2) by auto
  have arr: "array_at D m1 (lim m0) = array_at D m (lim m0)"
    using y(1) lt by (intro array_at_agree [of "{..<lim m}"]) (auto simp: extends_def)
  have ag: "agree (- {lim m0}) m1 ?m2" by (rule agree_write) (simp add: d)
  have keep: "ok ?m2 z \<and> val ?m2 z = val m1 z \<and> foot ?m2 z = foot m1 z"
    if "ok m1 z" "foot m1 z \<subseteq> {Suc (lim m0)..<lim m1}" for z
  proof -
    have "lim m0 \<notin> foot m1 z" using that(2) by auto
    then have "agree (foot m1 z) m1 ?m2" using agree_mono [OF ag] by blast
    then show ?thesis by (rule framed [OF that(1)]) simp
  qed
  have "extends m0 ?m2"
    using extends_trans [OF ext y(1)] agree_mono [OF ag, of "{..<lim m0}"]
    by (auto simp: extends_def intro: agree_trans)
  moreover have "ok ?m2 z \<and> val ?m2 z = val m0 (read_slice D m0 s ! j) \<and> foot ?m2 z \<subseteq> {Suc (lim m0)..<lim ?m2}"
    if z: "z = array_at D ?m2 (lim m0) ! j" and j: "j < Suc k" for z j
  proof (cases "j = k")
    case True
    then have "z = y" using z k c arr array_at_write [of d k y m1] by (simp add: d copied_def)
    with keep [of y] y lt True show ?thesis by fastforce
  next
    case False
    then have zj: "z = array_at D m (lim m0) ! j"
      using z arr array_at_write [of d k y m1] by (simp add: d)
    with c False j have zm: "ok m z" "val m z = val m0 (read_slice D m0 s ! j)" "foot m z \<subseteq> {Suc (lim m0)..<lim m}"
      by (auto simp: copied_def Let_def)
    moreover have "lim m \<le> lim m1" using y(1) by (simp add: extends_def)
    ultimately show ?thesis using stable [OF zm(1) y(1)] keep [of z] by fastforce
  qed
  moreover have "lim m0 < lim ?m2" using lt y(1) by (simp add: extends_def)
  moreover have "length (array_at D ?m2 (lim m0)) = sl_len s"
    using c arr array_at_write [of d k y m1] by (simp add: d copied_def)
  ultimately show ?thesis by (auto simp: copied_def Let_def)
qed

lemma copied_loop:
  assumes src: "slice_ok D ok m0 (Some s)"
    and d: "d = \<lparr>sl_array = lim m0, sl_off = 0, sl_len = sl_len s\<rparr>"
  shows "copied m0 s k m \<Longrightarrow> k \<le> sl_len s \<Longrightarrow>
    copied m0 s (sl_len s) (copy_loop C D into s d [k..<sl_len s] m)"
proof (induction "sl_len s - k" arbitrary: k m)
  case 0
  then show ?case by simp
next
  case (Suc n)
  then have k: "k < sl_len s" by simp
  obtain y m1 where i: "into (read_slice D m s ! k) m = (y, m1)"
    by (cases "into (read_slice D m s ! k) m")
  have "copied m0 s (sl_len s) (copy_loop C D into s d [Suc k..<sl_len s] (write_elem C D d k y m1))"
    using copied_step [OF src Suc(3) k d i] Suc(2) k by (intro Suc(1)) simp_all
  with i k show ?case by (simp add: upt_conv_Cons)
qed

lemma copy_slice_copies:
  assumes src: "slice_ok D ok m s" and c: "copy_slice C D zero into s m = (d, m')"
  shows "extends m m' \<and> slice_ok D ok m' d \<and> slice_val D val m' d = slice_val D val m s \<and>
    slice_foot D foot m' d \<subseteq> {lim m..<lim m'}"
proof (cases s)
  case None
  with c show ?thesis by (simp add: copy_slice_def slice_ok_def slice_val_def slice_foot_def)
next
  case (Some s0)
  obtain d0 m1 where mk: "make_slice C zero (sl_len s0) m = (d0, m1)" by (cases "make_slice C zero (sl_len s0) m")
  note mk' = make [OF mk]
  have "copied m s0 0 m1" using mk' by (simp add: copied_def)
  from copied_loop [OF src [unfolded Some] mk'(1) this]
  have cp: "copied m s0 (sl_len s0) m'" and d: "d = Some d0"
    using c mk by (auto simp: Some copy_slice_def)
  have len: "length (read_slice D m s0) = sl_len s0" using src by (simp add: Some slice_ok_def)
  have rd: "read_slice D m' d0 = array_at D m' (lim m)"
    using cp by (simp add: read_slice_def mk'(1) copied_def)
  have el: "ok m' y \<and> foot m' y \<subseteq> {Suc (lim m)..<lim m'}" if "y \<in> set (read_slice D m' d0)" for y
    using that cp rd by (auto simp: in_set_conv_nth copied_def Let_def)
  moreover have "map (val m') (read_slice D m' d0) = map (val m) (read_slice D m s0)"
    using cp rd len by (intro nth_equalityI) (auto simp: copied_def Let_def)
  moreover have "slice_foot D foot m' d \<subseteq> {lim m..<lim m'}"
    using el cp by (fastforce simp: slice_foot_def d mk'(1) copied_def)
  ultimately show ?thesis
    using cp by (auto simp: d Some slice_ok_def slice_val_def mk'(1) copied_def)
qed

end

sublocale array_copy \<subseteq> items: deep_copy "copy_slice C D zero into" "slice_val D val" "slice_foot D foot"
    "slice_ok D ok" for zero
proof
  fix m s d m'
  show "slice_ok D ok m s \<Longrightarrow> copy_slice C D zero into s m = (d, m') \<Longrightarrow>
     extends m m' \<and> slice_ok D ok m' d \<and> slice_val D val m' d = slice_val D val m s \<and>
     slice_foot D foot m' d \<subseteq> {lim m..<lim m'}"
    by (rule copy_slice_copies)
  show "slice_foot D foot m s \<subseteq> {..<lim m}" if "slice_ok D ok m s"
    using that bounded by (fastforce simp: slice_ok_def slice_foot_def split: option.splits)
  show "slice_ok D ok m' s \<and> slice_val D val m' s = slice_val D val m s \<and>
      slice_foot D foot m' s = slice_foot D foot m s"
    if "slice_ok D ok m s" and ag: "agree (slice_foot D foot m s) m m'" and l: "lim m \<le> lim m'"
  proof (cases s)
    case None
    then show ?thesis by (simp add: slice_ok_def slice_val_def slice_foot_def)
  next
    case (Some s0)
    have rd: "read_slice D m' s0 = read_slice D m s0" "array_at D m' (sl_array s0) = array_at D m (sl_array s0)"
      using ag by (auto simp: Some slice_foot_def intro: read_slice_agree array_at_agree)
    have "ok m' x \<and> val m' x = val m x \<and> foot m' x = foot m x" if "x \<in> set (read_slice D m s0)" for x
      using that \<open>slice_ok D ok m s\<close> agree_mono [OF ag, of "foot m x"] l
      by (intro framed) (auto simp: Some slice_ok_def slice_foot_def)
    with \<open>slice_ok D ok m s\<close> l rd show ?thesis
      by (auto simp: Some slice_ok_def slice_val_def slice_foot_def)
  qed
qed

context array_copy
begin

lemma items_deep:
  "deep_copy (copy_slice C D zero into) (slice_val D val) (slice_foot D foot) (slice_ok D ok)"
  by (rule items.deep_copy_axioms)

end

text \<open>A pointer is a slice of length one; copying what it points to is copying that slice.\<close>

lemma new_copy_slice:
  "(\<And>i. p = Some i \<Longrightarrow> sl_len i = 1) \<Longrightarrow> new_copy C D zero into p m = copy_slice C D zero into p m"
  by (cases p) (auto simp: new_copy_def copy_slice_def split: prod.split)

text \<open>The built-in \<open>copy\<close> into another array is the loop of assignments.\<close>

lemma read_slice_write:
  "sl_array s \<noteq> sl_array d \<Longrightarrow> read_slice D (write_elem C D d i x m) s = read_slice D m s"
  by (rule read_slice_agree [of "- {sl_array d}"]) (auto simp: agree_def write_elem_def)

lemma copy_loop_assign:
  assumes "sl_array s \<noteq> sl_array d" and "length (read_slice D m s) = n"
  shows "k \<le> n \<Longrightarrow> copy_loop C D assign s d [k..<n] m = write_from C D d k (drop k (read_slice D m s)) m"
  using assms(2)
proof (induction "n - k" arbitrary: k m)
  case 0
  then show ?case by simp
next
  case (Suc l)
  then have k: "k < n" by simp
  let ?m1 = "write_elem C D d k (read_slice D m s ! k) m"
  have rd: "read_slice D ?m1 s = read_slice D m s" by (rule read_slice_write [OF assms(1)])
  have "copy_loop C D assign s d [Suc k..<n] ?m1 = write_from C D d (Suc k) (drop (Suc k) (read_slice D m s)) ?m1"
    using Suc(1) [of "Suc k" ?m1] Suc(2,4) k rd by simp
  then show ?case
    using k Suc(4) by (simp add: upt_conv_Cons assign_def Cons_nth_drop_Suc [symmetric])
qed

lemma copy_builtin_slice:
  assumes "slice_ok D ok m (Some s)" and "make_slice C zero (sl_len s) m = (d, m1)"
  shows "copy_slice C D zero assign (Some s) m = (Some d, copy_builtin C D d s m1)"
proof -
  have d: "sl_array d = lim m" "sl_len d = sl_len s" and a: "sl_array s < lim m"
    and ag: "agree {..<lim m} m m1"
    using assms by (auto simp: make_slice_def slice_ok_def agree_def)
  have "read_slice D m1 s = read_slice D m s" using ag a by (intro read_slice_agree) auto
  then have len: "length (read_slice D m1 s) = sl_len s" using assms(1) by (simp add: slice_ok_def)
  have "sl_array s \<noteq> sl_array d" using d a by simp
  from copy_loop_assign [OF this len, of 0 C] show ?thesis
    using len d by (simp add: copy_slice_def copy_builtin_def assms(2))
qed

subsection \<open>Structs\<close>

text \<open>A struct is copied field by field: two components, and one component of a larger value.\<close>

definition copy_pair ::
  "('a \<Rightarrow> 'c mem \<Rightarrow> 'a \<times> 'c mem) \<Rightarrow> ('b \<Rightarrow> 'c mem \<Rightarrow> 'b \<times> 'c mem) \<Rightarrow> 'a \<times> 'b \<Rightarrow> 'c mem \<Rightarrow> ('a \<times> 'b) \<times> 'c mem" where
  "copy_pair f g p m = (let (a, m1) = f (fst p) m; (b, m2) = g (snd p) m1 in ((a, b), m2))"

lemma deep_copy_pair:
  assumes f: "deep_copy f vf ff okf" and g: "deep_copy g vg fg okg"
  shows "deep_copy (copy_pair f g) (\<lambda>m p. (vf m (fst p), vg m (snd p)))
     (\<lambda>m p. ff m (fst p) \<union> fg m (snd p)) (\<lambda>m p. okf m (fst p) \<and> okg m (snd p))"
proof
  fix m m' p q
  assume ok: "okf m (fst p) \<and> okg m (snd p)" and c: "copy_pair f g p m = (q, m')"
  obtain a m1 where a: "f (fst p) m = (a, m1)" by (cases "f (fst p) m")
  obtain b m2 where b: "g (snd p) m1 = (b, m2)" by (cases "g (snd p) m1")
  have q: "q = (a, b)" "m' = m2" using c a b by (simp_all add: copy_pair_def)
  note ca = deep_copy.copies [OF f conjunct1 [OF ok] a]
  note sg = deep_copy.stable [OF g conjunct2 [OF ok] conjunct1 [OF ca]]
  note cb = deep_copy.copies [OF g conjunct1 [OF sg] b]
  have "okf m1 a" using ca by simp
  note sf = deep_copy.stable [OF f this conjunct1 [OF cb]]
  have "extends m m2" using ca cb extends_trans by blast
  moreover have "lim m \<le> lim m1" "lim m1 \<le> lim m2" using ca cb by (auto simp: extends_def)
  moreover have "ff m2 a \<subseteq> {lim m..<lim m1}" "fg m2 b \<subseteq> {lim m1..<lim m2}" using sf ca cb by auto
  then have "ff m2 a \<union> fg m2 b \<subseteq> {lim m..<lim m2}"
    using calculation(2,3) by fastforce
  ultimately show "extends m m' \<and> (okf m' (fst q) \<and> okg m' (snd q)) \<and>
      (vf m' (fst q), vg m' (snd q)) = (vf m (fst p), vg m (snd p)) \<and>
      ff m' (fst q) \<union> fg m' (snd q) \<subseteq> {lim m..<lim m'}"
    using ca sg cb sf by (simp add: q)
next
  fix m m' p
  assume ok: "okf m (fst p) \<and> okg m (snd p)" and ag: "agree (ff m (fst p) \<union> fg m (snd p)) m m'"
    and l: "lim m \<le> lim m'"
  have "agree (ff m (fst p)) m m'" "agree (fg m (snd p)) m m'" using ag agree_mono by blast+
  then show "(okf m' (fst p) \<and> okg m' (snd p)) \<and>
      (vf m' (fst p), vg m' (snd p)) = (vf m (fst p), vg m (snd p)) \<and>
      ff m' (fst p) \<union> fg m' (snd p) = ff m (fst p) \<union> fg m (snd p)"
    using deep_copy.framed [OF f conjunct1 [OF ok] _ l] deep_copy.framed [OF g conjunct2 [OF ok] _ l]
    by simp
next
  fix m p
  assume "okf m (fst p) \<and> okg m (snd p)"
  then show "ff m (fst p) \<union> fg m (snd p) \<subseteq> {..<lim m}"
    using deep_copy.bounded [OF f] deep_copy.bounded [OF g] by blast
qed

lemma deep_copy_field:
  assumes f: "deep_copy f vf ff okf"
    and getset: "\<And>x y. get (set_field x y) = y" and rest: "\<And>x y. rest (set_field x y) = rest x"
    and h: "\<And>x m. okf m (get x) \<Longrightarrow> h x m = apfst (set_field x) (f (get x) m)"
  shows "deep_copy h (\<lambda>m x. (rest x, vf m (get x))) (\<lambda>m x. ff m (get x)) (\<lambda>m x. okf m (get x))"
proof
  fix m m' x y
  assume ok: "okf m (get x)" and c: "h x m = (y, m')"
  obtain z where z: "f (get x) m = (z, m')" "y = set_field x z"
    using c by (cases "f (get x) m") (auto simp: h [OF ok])
  from deep_copy.copies [OF f ok z(1)]
  show "extends m m' \<and> okf m' (get y) \<and> (rest y, vf m' (get y)) = (rest x, vf m (get x)) \<and>
      ff m' (get y) \<subseteq> {lim m..<lim m'}"
    by (simp add: z(2) getset rest)
next
  fix m m' x
  assume "okf m (get x)" and "agree (ff m (get x)) m m'" and "lim m \<le> lim m'"
  from deep_copy.framed [OF f this]
  show "okf m' (get x) \<and> (rest x, vf m' (get x)) = (rest x, vf m (get x)) \<and> ff m' (get x) = ff m (get x)"
    by simp
next
  fix m x
  assume "okf m (get x)"
  then show "ff m (get x) \<subseteq> {..<lim m}" by (rule deep_copy.bounded [OF f])
qed

subsection \<open>Isolation\<close>

text \<open>
  What the caller of a copy relies on: \<open>y\<close> in \<open>m'\<close> means what \<open>x\<close> meant in \<open>m\<close>, no old location was
  written, and whoever writes to memory that only one of the two depends on, does not change
  the other.
\<close>

definition isolated_copy ::
  "('c mem \<Rightarrow> 'a \<Rightarrow> 'v) \<Rightarrow> ('c mem \<Rightarrow> 'a \<Rightarrow> loc set) \<Rightarrow> 'c mem \<Rightarrow> 'a \<Rightarrow> 'c mem \<Rightarrow> 'a \<Rightarrow> bool" where
  "isolated_copy val foot m x m' y \<longleftrightarrow>
     val m' y = val m x \<and> extends m m' \<and> foot m' x \<inter> foot m' y = {} \<and>
     (\<forall>m2. lim m' \<le> lim m2 \<longrightarrow> agree (- foot m' y) m' m2 \<longrightarrow> val m2 x = val m x) \<and>
     (\<forall>m2. lim m' \<le> lim m2 \<longrightarrow> agree (- foot m' x) m' m2 \<longrightarrow> val m2 y = val m x)"

lemma deep_copy_isolated:
  assumes "deep_copy into val foot ok" and "ok m x" and "into x m = (y, m')"
  shows "isolated_copy val foot m x m' y"
  using deep_copy.copies [OF assms] deep_copy.isolated [OF assms] by (simp add: isolated_copy_def)

lemma new_copy_isolated:
  assumes "array_copy into val foot ok C D" and "slice_ok D ok m (Some p)" and "sl_len p = 1"
  obtains q m' where "new_copy C D zero into (Some p) m = (Some q, m')"
    "isolated_copy (slice_val D val) (slice_foot D foot) m (Some p) m' (Some q)"
proof -
  obtain y m' where c: "new_copy C D zero into (Some p) m = (y, m')"
    by (cases "new_copy C D zero into (Some p) m")
  then obtain q where q: "y = Some q" by (auto simp: new_copy_def split: prod.splits)
  from c q have "copy_slice C D zero into (Some p) m = (Some q, m')"
    using new_copy_slice [of "Some p" C D zero into m] assms(3) by simp
  from deep_copy_isolated [OF array_copy.items_deep [OF assms(1)] assms(2) this] c q that
  show thesis by simp
qed

end
