(* ===== verification/DeepCopy.thy ===== *)
theory DeepCopy
  imports Memory ApiTypes
begin

text \<open>
  \<open>api/v1alpha1/zz_generated.deepcopy.go\<close>: the copying of API objects, in memory. The structs are
  those of \<open>api/v1alpha1\<close> with their slices as references; the metadata of objects and lists,
  and what lies behind its pointers, belongs to the Kubernetes library and is a parameter.
\<close>

subsection \<open>The types in memory\<close>

record TypeMeta =
  tm_Kind :: string
  tm_APIVersion :: string

record CredentialsReferece =
  cr_Name :: string

record InstanceReference =
  ir_Name :: string

record mem_PoolSpec =
  gs_InstanceRef :: InstanceReference
  gs_Subnets :: "slice option"
  gs_NetworkView :: string
  gs_DNSView :: string
  gs_DNSZone :: string

record mem_Status =
  st_Conditions :: "slice option"

record 'm mem_Pool =
  gp_TypeMeta :: TypeMeta
  gp_ObjectMeta :: 'm
  gp_Spec :: mem_PoolSpec
  gp_Status :: mem_Status

record mem_InstanceSpec =
  gi_Host :: string
  gi_Port :: string
  gi_WAPIVersion :: string
  gi_CredentialsSecretRef :: CredentialsReferece
  gi_DefaultNetworkView :: string
  gi_DefaultDNSView :: string
  gi_DisableTLSVerification :: bool
  gi_CustomCAPath :: string

record 'm mem_Instance =
  gi_TypeMeta :: TypeMeta
  gi_ObjectMeta :: 'm
  gi_Spec :: mem_InstanceSpec
  gi_Status :: mem_Status

record 'l mem_List =
  gl_TypeMeta :: TypeMeta
  gl_ListMeta :: 'l
  gl_Items :: "slice option"

text \<open>The arrays, by the type of their elements; both kinds of lists and of statuses have one layout.\<close>

datatype ('m, 'l, 'x) cell =
    CredentialsCells "CredentialsReferece list"
  | InstanceRefCells "InstanceReference list"
  | SubnetCells "Subnet list"
  | ConditionCells "condition list"
  | PoolSpecCells "mem_PoolSpec list"
  | StatusCells "mem_Status list"
  | PoolCells "'m mem_Pool list"
  | PoolListCells "'l mem_List list"
  | InstanceSpecCells "mem_InstanceSpec list"
  | InstanceCells "'m mem_Instance list"
  | InstanceListCells "'l mem_List list"
  | LibraryCell 'x

definition credentials_of :: "('m, 'l, 'x) cell \<Rightarrow> CredentialsReferece list option" where
  "credentials_of c = (case c of CredentialsCells xs \<Rightarrow> Some xs | _ \<Rightarrow> None)"

definition instance_refs_of :: "('m, 'l, 'x) cell \<Rightarrow> InstanceReference list option" where
  "instance_refs_of c = (case c of InstanceRefCells xs \<Rightarrow> Some xs | _ \<Rightarrow> None)"

definition subnets_of :: "('m, 'l, 'x) cell \<Rightarrow> Subnet list option" where
  "subnets_of c = (case c of SubnetCells xs \<Rightarrow> Some xs | _ \<Rightarrow> None)"

definition conditions_of :: "('m, 'l, 'x) cell \<Rightarrow> condition list option" where
  "conditions_of c = (case c of ConditionCells xs \<Rightarrow> Some xs | _ \<Rightarrow> None)"

definition pool_specs_of :: "('m, 'l, 'x) cell \<Rightarrow> mem_PoolSpec list option" where
  "pool_specs_of c = (case c of PoolSpecCells xs \<Rightarrow> Some xs | _ \<Rightarrow> None)"

definition statuses_of :: "('m, 'l, 'x) cell \<Rightarrow> mem_Status list option" where
  "statuses_of c = (case c of StatusCells xs \<Rightarrow> Some xs | _ \<Rightarrow> None)"

definition pools_of :: "('m, 'l, 'x) cell \<Rightarrow> 'm mem_Pool list option" where
  "pools_of c = (case c of PoolCells xs \<Rightarrow> Some xs | _ \<Rightarrow> None)"

definition pool_lists_of :: "('m, 'l, 'x) cell \<Rightarrow> 'l mem_List list option" where
  "pool_lists_of c = (case c of PoolListCells xs \<Rightarrow> Some xs | _ \<Rightarrow> None)"

definition instance_specs_of :: "('m, 'l, 'x) cell \<Rightarrow> mem_InstanceSpec list option" where
  "instance_specs_of c = (case c of InstanceSpecCells xs \<Rightarrow> Some xs | _ \<Rightarrow> None)"

definition instances_of :: "('m, 'l, 'x) cell \<Rightarrow> 'm mem_Instance list option" where
  "instances_of c = (case c of InstanceCells xs \<Rightarrow> Some xs | _ \<Rightarrow> None)"

definition instance_lists_of :: "('m, 'l, 'x) cell \<Rightarrow> 'l mem_List list option" where
  "instance_lists_of c = (case c of InstanceListCells xs \<Rightarrow> Some xs | _ \<Rightarrow> None)"

lemmas cells_defs = credentials_of_def instance_refs_of_def subnets_of_def conditions_of_def
  pool_specs_of_def statuses_of_def pools_of_def pool_lists_of_def instance_specs_of_def
  instances_of_def instance_lists_of_def

text \<open>
  Zero values and copying of what belongs to the library: \<open>ObjectMeta\<close>, \<open>ListMeta\<close>, \<open>Condition\<close>.
\<close>

record ('m, 'l, 'x) copy_lib =
  zero_ObjectMeta :: 'm
  zero_ListMeta :: 'l
  ObjectMeta_DeepCopyInto :: "'m \<Rightarrow> ('m, 'l, 'x) cell mem \<Rightarrow> 'm \<times> ('m, 'l, 'x) cell mem"
  ListMeta_DeepCopyInto :: "'l \<Rightarrow> ('m, 'l, 'x) cell mem \<Rightarrow> 'l \<times> ('m, 'l, 'x) cell mem"
  Condition_DeepCopyInto :: "condition \<Rightarrow> ('m, 'l, 'x) cell mem \<Rightarrow> condition \<times> ('m, 'l, 'x) cell mem"

definition zero_Subnet :: Subnet where
  "zero_Subnet = \<lparr>CIDR = [], Gateway = []\<rparr>"

definition zero_condition :: condition where
  "zero_condition = \<lparr>cond_Type = [], cond_Status = ConditionUnknown, cond_Reason = [], cond_Message = Text []\<rparr>"

definition zero_TypeMeta :: TypeMeta where
  "zero_TypeMeta = \<lparr>tm_Kind = [], tm_APIVersion = []\<rparr>"

definition zero_PoolSpec :: mem_PoolSpec where
  "zero_PoolSpec = \<lparr>gs_InstanceRef = \<lparr>ir_Name = []\<rparr>, gs_Subnets = None, gs_NetworkView = [], gs_DNSView = [], gs_DNSZone = []\<rparr>"

definition zero_InstanceSpec :: mem_InstanceSpec where
  "zero_InstanceSpec =
     \<lparr>gi_Host = [], gi_Port = [], gi_WAPIVersion = [], gi_CredentialsSecretRef = \<lparr>cr_Name = []\<rparr>,
      gi_DefaultNetworkView = [], gi_DefaultDNSView = [], gi_DisableTLSVerification = False, gi_CustomCAPath = []\<rparr>"

definition zero_Status :: mem_Status where
  "zero_Status = \<lparr>st_Conditions = None\<rparr>"

definition zero_Pool :: "('m, 'l, 'x) copy_lib \<Rightarrow> 'm mem_Pool" where
  "zero_Pool L = \<lparr>gp_TypeMeta = zero_TypeMeta, gp_ObjectMeta = zero_ObjectMeta L, gp_Spec = zero_PoolSpec, gp_Status = zero_Status\<rparr>"

definition zero_Instance :: "('m, 'l, 'x) copy_lib \<Rightarrow> 'm mem_Instance" where
  "zero_Instance L = \<lparr>gi_TypeMeta = zero_TypeMeta, gi_ObjectMeta = zero_ObjectMeta L, gi_Spec = zero_InstanceSpec, gi_Status = zero_Status\<rparr>"

definition zero_List :: "('m, 'l, 'x) copy_lib \<Rightarrow> 'l mem_List" where
  "zero_List L = \<lparr>gl_TypeMeta = zero_TypeMeta, gl_ListMeta = zero_ListMeta L, gl_Items = None\<rparr>"

subsection \<open>DeepCopyInto\<close>

text \<open>
  \<open>*out\<close> as a function of \<open>*in\<close> and the memory: the functions write \<open>*out\<close> as a whole first and do
  not read it before. Those of plain structs are assignments.
\<close>

definition CredentialsReferece_DeepCopyInto :: "CredentialsReferece \<Rightarrow> 'c mem \<Rightarrow> CredentialsReferece \<times> 'c mem" where
  "CredentialsReferece_DeepCopyInto i m = (i, m)"

definition InstanceReference_DeepCopyInto :: "InstanceReference \<Rightarrow> 'c mem \<Rightarrow> InstanceReference \<times> 'c mem" where
  "InstanceReference_DeepCopyInto i m = (i, m)"

definition Subnet_DeepCopyInto :: "Subnet \<Rightarrow> 'c mem \<Rightarrow> Subnet \<times> 'c mem" where
  "Subnet_DeepCopyInto i m = (i, m)"

definition InfobloxInstanceSpec_DeepCopyInto :: "mem_InstanceSpec \<Rightarrow> 'c mem \<Rightarrow> mem_InstanceSpec \<times> 'c mem" where
  "InfobloxInstanceSpec_DeepCopyInto i m =
     (let out = i in (out\<lparr>gi_CredentialsSecretRef := gi_CredentialsSecretRef i\<rparr>, m))"

definition InfobloxIPPoolSpec_DeepCopyInto ::
  "mem_PoolSpec \<Rightarrow> ('m, 'l, 'x) cell mem \<Rightarrow> mem_PoolSpec \<times> ('m, 'l, 'x) cell mem" where
  "InfobloxIPPoolSpec_DeepCopyInto i m =
     (let out = i\<lparr>gs_InstanceRef := gs_InstanceRef i\<rparr>
      in case gs_Subnets i of
           None \<Rightarrow> (out, m)
         | Some s \<Rightarrow>
             (let (d, m1) = make_slice SubnetCells zero_Subnet (sl_len s) m
              in (out\<lparr>gs_Subnets := Some d\<rparr>, copy_builtin SubnetCells subnets_of d s m1)))"

definition InfobloxIPPoolStatus_DeepCopyInto ::
  "('m, 'l, 'x) copy_lib \<Rightarrow> mem_Status \<Rightarrow> ('m, 'l, 'x) cell mem \<Rightarrow> mem_Status \<times> ('m, 'l, 'x) cell mem" where
  "InfobloxIPPoolStatus_DeepCopyInto L i m =
     (let out = i
      in case st_Conditions i of
           None \<Rightarrow> (out, m)
         | Some s \<Rightarrow>
             (let (d, m1) = make_slice ConditionCells zero_condition (sl_len s) m
              in (out\<lparr>st_Conditions := Some d\<rparr>,
                  copy_loop ConditionCells conditions_of (Condition_DeepCopyInto L) s d [0..<sl_len s] m1)))"

definition InfobloxInstanceStatus_DeepCopyInto ::
  "('m, 'l, 'x) copy_lib \<Rightarrow> mem_Status \<Rightarrow> ('m, 'l, 'x) cell mem \<Rightarrow> mem_Status \<times> ('m, 'l, 'x) cell mem" where
  "InfobloxInstanceStatus_DeepCopyInto L i m =
     (let out = i
      in case st_Conditions i of
           None \<Rightarrow> (out, m)
         | Some s \<Rightarrow>
             (let (d, m1) = make_slice ConditionCells zero_condition (sl_len s) m
              in (out\<lparr>st_Conditions := Some d\<rparr>,
                  copy_loop ConditionCells conditions_of (Condition_DeepCopyInto L) s d [0..<sl_len s] m1)))"

definition InfobloxIPPool_DeepCopyInto ::
  "('m, 'l, 'x) copy_lib \<Rightarrow> 'm mem_Pool \<Rightarrow> ('m, 'l, 'x) cell mem \<Rightarrow> 'm mem_Pool \<times> ('m, 'l, 'x) cell mem" where
  "InfobloxIPPool_DeepCopyInto L i m =
     (let out = i\<lparr>gp_TypeMeta := gp_TypeMeta i\<rparr>;
          (meta, m1) = ObjectMeta_DeepCopyInto L (gp_ObjectMeta i) m;
          (spec, m2) = InfobloxIPPoolSpec_DeepCopyInto (gp_Spec i) m1;
          (status, m3) = InfobloxIPPoolStatus_DeepCopyInto L (gp_Status i) m2
      in (out\<lparr>gp_ObjectMeta := meta, gp_Spec := spec, gp_Status := status\<rparr>, m3))"

definition InfobloxInstance_DeepCopyInto ::
  "('m, 'l, 'x) copy_lib \<Rightarrow> 'm mem_Instance \<Rightarrow> ('m, 'l, 'x) cell mem \<Rightarrow> 'm mem_Instance \<times> ('m, 'l, 'x) cell mem" where
  "InfobloxInstance_DeepCopyInto L i m =
     (let out = i\<lparr>gi_TypeMeta := gi_TypeMeta i\<rparr>;
          (meta, m1) = ObjectMeta_DeepCopyInto L (gi_ObjectMeta i) m;
          (status, m2) = InfobloxInstanceStatus_DeepCopyInto L (gi_Status i) m1
      in (out\<lparr>gi_ObjectMeta := meta, gi_Spec := gi_Spec i, gi_Status := status\<rparr>, m2))"

definition InfobloxIPPoolList_DeepCopyInto ::
  "('m, 'l, 'x) copy_lib \<Rightarrow> 'l mem_List \<Rightarrow> ('m, 'l, 'x) cell mem \<Rightarrow> 'l mem_List \<times> ('m, 'l, 'x) cell mem" where
  "InfobloxIPPoolList_DeepCopyInto L i m =
     (let out = i\<lparr>gl_TypeMeta := gl_TypeMeta i\<rparr>;
          (meta, m1) = ListMeta_DeepCopyInto L (gl_ListMeta i) m;
          out = out\<lparr>gl_ListMeta := meta\<rparr>
      in case gl_Items i of
           None \<Rightarrow> (out, m1)
         | Some s \<Rightarrow>
             (let (d, m2) = make_slice PoolCells (zero_Pool L) (sl_len s) m1
              in (out\<lparr>gl_Items := Some d\<rparr>,
                  copy_loop PoolCells pools_of (InfobloxIPPool_DeepCopyInto L) s d [0..<sl_len s] m2)))"

definition InfobloxInstanceList_DeepCopyInto ::
  "('m, 'l, 'x) copy_lib \<Rightarrow> 'l mem_List \<Rightarrow> ('m, 'l, 'x) cell mem \<Rightarrow> 'l mem_List \<times> ('m, 'l, 'x) cell mem" where
  "InfobloxInstanceList_DeepCopyInto L i m =
     (let out = i\<lparr>gl_TypeMeta := gl_TypeMeta i\<rparr>;
          (meta, m1) = ListMeta_DeepCopyInto L (gl_ListMeta i) m;
          out = out\<lparr>gl_ListMeta := meta\<rparr>
      in case gl_Items i of
           None \<Rightarrow> (out, m1)
         | Some s \<Rightarrow>
             (let (d, m2) = make_slice InstanceCells (zero_Instance L) (sl_len s) m1
              in (out\<lparr>gl_Items := Some d\<rparr>,
                  copy_loop InstanceCells instances_of (InfobloxInstance_DeepCopyInto L) s d [0..<sl_len s] m2)))"

subsection \<open>DeepCopy\<close>

definition CredentialsReferece_DeepCopy ::
  "slice option \<Rightarrow> ('m, 'l, 'x) cell mem \<Rightarrow> slice option \<times> ('m, 'l, 'x) cell mem" where
  "CredentialsReferece_DeepCopy =
     new_copy CredentialsCells credentials_of \<lparr>cr_Name = []\<rparr> CredentialsReferece_DeepCopyInto"

definition InstanceReference_DeepCopy ::
  "slice option \<Rightarrow> ('m, 'l, 'x) cell mem \<Rightarrow> slice option \<times> ('m, 'l, 'x) cell mem" where
  "InstanceReference_DeepCopy =
     new_copy InstanceRefCells instance_refs_of \<lparr>ir_Name = []\<rparr> InstanceReference_DeepCopyInto"

definition Subnet_DeepCopy ::
  "slice option \<Rightarrow> ('m, 'l, 'x) cell mem \<Rightarrow> slice option \<times> ('m, 'l, 'x) cell mem" where
  "Subnet_DeepCopy = new_copy SubnetCells subnets_of zero_Subnet Subnet_DeepCopyInto"

definition InfobloxInstanceSpec_DeepCopy ::
  "slice option \<Rightarrow> ('m, 'l, 'x) cell mem \<Rightarrow> slice option \<times> ('m, 'l, 'x) cell mem" where
  "InfobloxInstanceSpec_DeepCopy =
     new_copy InstanceSpecCells instance_specs_of zero_InstanceSpec InfobloxInstanceSpec_DeepCopyInto"

definition InfobloxIPPoolSpec_DeepCopy ::
  "slice option \<Rightarrow> ('m, 'l, 'x) cell mem \<Rightarrow> slice option \<times> ('m, 'l, 'x) cell mem" where
  "InfobloxIPPoolSpec_DeepCopy =
     new_copy PoolSpecCells pool_specs_of zero_PoolSpec InfobloxIPPoolSpec_DeepCopyInto"

definition InfobloxIPPoolStatus_DeepCopy ::
  "('m, 'l, 'x) copy_lib \<Rightarrow> slice option \<Rightarrow> ('m, 'l, 'x) cell mem \<Rightarrow> slice option \<times> ('m, 'l, 'x) cell mem" where
  "InfobloxIPPoolStatus_DeepCopy L =
     new_copy StatusCells statuses_of zero_Status (InfobloxIPPoolStatus_DeepCopyInto L)"

definition InfobloxInstanceStatus_DeepCopy ::
  "('m, 'l, 'x) copy_lib \<Rightarrow> slice option \<Rightarrow> ('m, 'l, 'x) cell mem \<Rightarrow> slice option \<times> ('m, 'l, 'x) cell mem" where
  "InfobloxInstanceStatus_DeepCopy L =
     new_copy StatusCells statuses_of zero_Status (InfobloxInstanceStatus_DeepCopyInto L)"

definition InfobloxIPPool_DeepCopy ::
  "('m, 'l, 'x) copy_lib \<Rightarrow> slice option \<Rightarrow> ('m, 'l, 'x) cell mem \<Rightarrow> slice option \<times> ('m, 'l, 'x) cell mem" where
  "InfobloxIPPool_DeepCopy L = new_copy PoolCells pools_of (zero_Pool L) (InfobloxIPPool_DeepCopyInto L)"

definition InfobloxInstance_DeepCopy ::
  "('m, 'l, 'x) copy_lib \<Rightarrow> slice option \<Rightarrow> ('m, 'l, 'x) cell mem \<Rightarrow> slice option \<times> ('m, 'l, 'x) cell mem" where
  "InfobloxInstance_DeepCopy L =
     new_copy InstanceCells instances_of (zero_Instance L) (InfobloxInstance_DeepCopyInto L)"

definition InfobloxIPPoolList_DeepCopy ::
  "('m, 'l, 'x) copy_lib \<Rightarrow> slice option \<Rightarrow> ('m, 'l, 'x) cell mem \<Rightarrow> slice option \<times> ('m, 'l, 'x) cell mem" where
  "InfobloxIPPoolList_DeepCopy L =
     new_copy PoolListCells pool_lists_of (zero_List L) (InfobloxIPPoolList_DeepCopyInto L)"

definition InfobloxInstanceList_DeepCopy ::
  "('m, 'l, 'x) copy_lib \<Rightarrow> slice option \<Rightarrow> ('m, 'l, 'x) cell mem \<Rightarrow> slice option \<times> ('m, 'l, 'x) cell mem" where
  "InfobloxInstanceList_DeepCopy L =
     new_copy InstanceListCells instance_lists_of (zero_List L) (InfobloxInstanceList_DeepCopyInto L)"

text \<open>As an object behind the interface \<open>runtime.Object\<close>: its dynamic type and the pointer.\<close>

datatype runtime_object =
    RPool slice | RPoolList slice | RInstance slice | RInstanceList slice

definition InfobloxIPPool_DeepCopyObject ::
  "('m, 'l, 'x) copy_lib \<Rightarrow> slice option \<Rightarrow> ('m, 'l, 'x) cell mem \<Rightarrow> runtime_object option \<times> ('m, 'l, 'x) cell mem" where
  "InfobloxIPPool_DeepCopyObject L i m =
     (case InfobloxIPPool_DeepCopy L i m of (Some c, m1) \<Rightarrow> (Some (RPool c), m1) | (None, m1) \<Rightarrow> (None, m1))"

definition InfobloxIPPoolList_DeepCopyObject ::
  "('m, 'l, 'x) copy_lib \<Rightarrow> slice option \<Rightarrow> ('m, 'l, 'x) cell mem \<Rightarrow> runtime_object option \<times> ('m, 'l, 'x) cell mem" where
  "InfobloxIPPoolList_DeepCopyObject L i m =
     (case InfobloxIPPoolList_DeepCopy L i m of (Some c, m1) \<Rightarrow> (Some (RPoolList c), m1) | (None, m1) \<Rightarrow> (None, m1))"

definition InfobloxInstance_DeepCopyObject ::
  "('m, 'l, 'x) copy_lib \<Rightarrow> slice option \<Rightarrow> ('m, 'l, 'x) cell mem \<Rightarrow> runtime_object option \<times> ('m, 'l, 'x) cell mem" where
  "InfobloxInstance_DeepCopyObject L i m =
     (case InfobloxInstance_DeepCopy L i m of (Some c, m1) \<Rightarrow> (Some (RInstance c), m1) | (None, m1) \<Rightarrow> (None, m1))"

definition InfobloxInstanceList_DeepCopyObject ::
  "('m, 'l, 'x) copy_lib \<Rightarrow> slice option \<Rightarrow> ('m, 'l, 'x) cell mem \<Rightarrow> runtime_object option \<times> ('m, 'l, 'x) cell mem" where
  "InfobloxInstanceList_DeepCopyObject L i m =
     (case InfobloxInstanceList_DeepCopy L i m of (Some c, m1) \<Rightarrow> (Some (RInstanceList c), m1) | (None, m1) \<Rightarrow> (None, m1))"

end
