(* ===== verification/DeepCopyProps.thy ===== *)
theory DeepCopyProps
  imports DeepCopy
begin

text \<open>
  The generated functions make deep copies: same meaning, new memory, the old left as it was.
  Each type gets its meaning, the locations it depends on and what it needs to be well formed.
\<close>

subsection \<open>Specs and statuses\<close>

interpretation subnets: array_copy assign "\<lambda>m x. x" "\<lambda>m x. {}" "\<lambda>m x. True"
    "SubnetCells :: Subnet list \<Rightarrow> ('m, 'l, 'x) cell" subnets_of
  by unfold_locales (simp add: cells_defs)

interpretation conds: array_copy assign "\<lambda>m x. x" "\<lambda>m x. {}" "\<lambda>m x. True"
    "ConditionCells :: condition list \<Rightarrow> ('m, 'l, 'x) cell" conditions_of
  by unfold_locales (simp add: cells_defs)

abbreviation subnets_ok :: "('m, 'l, 'x) cell mem \<Rightarrow> slice option \<Rightarrow> bool" where
  "subnets_ok \<equiv> slice_ok subnets_of (\<lambda>m x. True)"

abbreviation conditions_ok :: "('m, 'l, 'x) cell mem \<Rightarrow> slice option \<Rightarrow> bool" where
  "conditions_ok \<equiv> slice_ok conditions_of (\<lambda>m x. True)"

definition spec_val :: "('m, 'l, 'x) cell mem \<Rightarrow> mem_PoolSpec \<Rightarrow> mem_PoolSpec \<times> Subnet list option" where
  "spec_val m x = (x\<lparr>gs_Subnets := None\<rparr>, slice_val subnets_of (\<lambda>m x. x) m (gs_Subnets x))"

definition spec_foot :: "('m, 'l, 'x) cell mem \<Rightarrow> mem_PoolSpec \<Rightarrow> loc set" where
  "spec_foot m x = slice_foot subnets_of (\<lambda>m x. {}) m (gs_Subnets x)"

definition spec_ok :: "('m, 'l, 'x) cell mem \<Rightarrow> mem_PoolSpec \<Rightarrow> bool" where
  "spec_ok m x = subnets_ok m (gs_Subnets x)"

definition status_val :: "('m, 'l, 'x) cell mem \<Rightarrow> mem_Status \<Rightarrow> mem_Status \<times> condition list option" where
  "status_val m x = (x\<lparr>st_Conditions := None\<rparr>, slice_val conditions_of (\<lambda>m x. x) m (st_Conditions x))"

definition status_foot :: "('m, 'l, 'x) cell mem \<Rightarrow> mem_Status \<Rightarrow> loc set" where
  "status_foot m x = slice_foot conditions_of (\<lambda>m x. {}) m (st_Conditions x)"

definition status_ok :: "('m, 'l, 'x) cell mem \<Rightarrow> mem_Status \<Rightarrow> bool" where
  "status_ok m x = conditions_ok m (st_Conditions x)"

text \<open>Plain structs are assigned.\<close>

lemma plain_copies [simp]:
  "CredentialsReferece_DeepCopyInto = assign" "InstanceReference_DeepCopyInto = assign"
  "Subnet_DeepCopyInto = assign" "InfobloxInstanceSpec_DeepCopyInto = assign"
  by (simp_all add: fun_eq_iff assign_def CredentialsReferece_DeepCopyInto_def InstanceReference_DeepCopyInto_def
      Subnet_DeepCopyInto_def InfobloxInstanceSpec_DeepCopyInto_def)

lemma spec_copy: "deep_copy InfobloxIPPoolSpec_DeepCopyInto spec_val spec_foot spec_ok"
  unfolding spec_val_def spec_foot_def spec_ok_def
proof (rule deep_copy_field [OF subnets.items_deep [of zero_Subnet]])
  fix x :: mem_PoolSpec and m :: "('m, 'l, 'x) cell mem"
  assume ok: "subnets_ok m (gs_Subnets x)"
  show "InfobloxIPPoolSpec_DeepCopyInto x m =
      apfst (\<lambda>y. x\<lparr>gs_Subnets := y\<rparr>) (copy_slice SubnetCells subnets_of zero_Subnet assign (gs_Subnets x) m)"
  proof (cases "gs_Subnets x")
    case None
    then show ?thesis by (simp add: InfobloxIPPoolSpec_DeepCopyInto_def copy_slice_def)
  next
    case (Some s)
    obtain d m1 where mk: "make_slice SubnetCells zero_Subnet (sl_len s) m = (d, m1)"
      by (cases "make_slice SubnetCells zero_Subnet (sl_len s) m")
    from ok Some have "subnets_ok m (Some s)" by simp
    from copy_builtin_slice [OF this mk] Some mk show ?thesis
      by (simp add: InfobloxIPPoolSpec_DeepCopyInto_def)
  qed
qed simp_all

lemma status_into:
  "Condition_DeepCopyInto L = assign \<Longrightarrow> InfobloxIPPoolStatus_DeepCopyInto L x m =
     apfst (\<lambda>y. x\<lparr>st_Conditions := y\<rparr>) (copy_slice ConditionCells conditions_of zero_condition assign (st_Conditions x) m)"
  by (cases "st_Conditions x") (simp_all add: InfobloxIPPoolStatus_DeepCopyInto_def copy_slice_def split: prod.split)

lemma status_same: "InfobloxInstanceStatus_DeepCopyInto = InfobloxIPPoolStatus_DeepCopyInto"
  by (simp add: fun_eq_iff InfobloxInstanceStatus_DeepCopyInto_def InfobloxIPPoolStatus_DeepCopyInto_def)

lemma status_copy:
  "Condition_DeepCopyInto L = assign \<Longrightarrow>
     deep_copy (InfobloxIPPoolStatus_DeepCopyInto L) status_val status_foot status_ok"
  unfolding status_val_def status_foot_def status_ok_def
  by (rule deep_copy_field [OF conds.items_deep [of zero_condition], where
        set_field = "\<lambda>x y. x\<lparr>st_Conditions := y\<rparr>"]) (simp_all add: status_into)

subsection \<open>Objects and lists\<close>

text \<open>The library's copies of metadata are deep, for some meaning of metadata.\<close>

record ('m, 'l, 'x, 'v, 'w) meta_model =
  om_val :: "('m, 'l, 'x) cell mem \<Rightarrow> 'm \<Rightarrow> 'v"
  om_foot :: "('m, 'l, 'x) cell mem \<Rightarrow> 'm \<Rightarrow> loc set"
  om_ok :: "('m, 'l, 'x) cell mem \<Rightarrow> 'm \<Rightarrow> bool"
  lm_val :: "('m, 'l, 'x) cell mem \<Rightarrow> 'l \<Rightarrow> 'w"
  lm_foot :: "('m, 'l, 'x) cell mem \<Rightarrow> 'l \<Rightarrow> loc set"
  lm_ok :: "('m, 'l, 'x) cell mem \<Rightarrow> 'l \<Rightarrow> bool"

definition copy_lib_ok :: "('m, 'l, 'x) copy_lib \<Rightarrow> ('m, 'l, 'x, 'v, 'w) meta_model \<Rightarrow> bool" where
  "copy_lib_ok L M \<longleftrightarrow>
     deep_copy (ObjectMeta_DeepCopyInto L) (om_val M) (om_foot M) (om_ok M) \<and>
     deep_copy (ListMeta_DeepCopyInto L) (lm_val M) (lm_foot M) (lm_ok M) \<and>
     Condition_DeepCopyInto L = assign"

definition pool_val where
  "pool_val M m p = (gp_TypeMeta p, om_val M m (gp_ObjectMeta p), spec_val m (gp_Spec p), status_val m (gp_Status p))"

definition pool_foot where
  "pool_foot M m p = om_foot M m (gp_ObjectMeta p) \<union> (spec_foot m (gp_Spec p) \<union> status_foot m (gp_Status p))"

definition pool_ok where
  "pool_ok M m p \<longleftrightarrow> om_ok M m (gp_ObjectMeta p) \<and> spec_ok m (gp_Spec p) \<and> status_ok m (gp_Status p)"

definition instance_val where
  "instance_val M m p = ((gi_TypeMeta p, gi_Spec p), om_val M m (gi_ObjectMeta p), status_val m (gi_Status p))"

definition instance_foot where
  "instance_foot M m p = om_foot M m (gi_ObjectMeta p) \<union> status_foot m (gi_Status p)"

definition instance_ok where
  "instance_ok M m p \<longleftrightarrow> om_ok M m (gi_ObjectMeta p) \<and> status_ok m (gi_Status p)"

text \<open>Lists, given the same for their items.\<close>

definition list_val where
  "list_val D val M m p = (gl_TypeMeta p, lm_val M m (gl_ListMeta p), slice_val D (val M) m (gl_Items p))"

definition list_foot where
  "list_foot D foot M m p = lm_foot M m (gl_ListMeta p) \<union> slice_foot D (foot M) m (gl_Items p)"

definition list_ok where
  "list_ok D ok M m p \<longleftrightarrow> lm_ok M m (gl_ListMeta p) \<and> slice_ok D (ok M) m (gl_Items p)"

lemma pool_copy:
  assumes "copy_lib_ok L M"
  shows "deep_copy (InfobloxIPPool_DeepCopyInto L) (pool_val M) (pool_foot M) (pool_ok M)"
proof -
  have om: "deep_copy (ObjectMeta_DeepCopyInto L) (om_val M) (om_foot M) (om_ok M)"
    and c: "Condition_DeepCopyInto L = assign" using assms by (simp_all add: copy_lib_ok_def)
  have eq: "InfobloxIPPool_DeepCopyInto L p m =
      apfst (\<lambda>(a, b, c). p\<lparr>gp_ObjectMeta := a, gp_Spec := b, gp_Status := c\<rparr>)
        (copy_pair (ObjectMeta_DeepCopyInto L) (copy_pair InfobloxIPPoolSpec_DeepCopyInto
          (InfobloxIPPoolStatus_DeepCopyInto L)) (gp_ObjectMeta p, gp_Spec p, gp_Status p) m)" for p m
    by (simp add: InfobloxIPPool_DeepCopyInto_def copy_pair_def Let_def split: prod.split)
  from deep_copy_field [where rest = gp_TypeMeta and get = "\<lambda>p. (gp_ObjectMeta p, gp_Spec p, gp_Status p)"
        and set_field = "\<lambda>p (a, b, c). p\<lparr>gp_ObjectMeta := a, gp_Spec := b, gp_Status := c\<rparr>",
      OF deep_copy_pair [OF om deep_copy_pair [OF spec_copy status_copy [OF c]]] _ _ eq]
  show ?thesis
    by (simp add: pool_val_def [abs_def] pool_foot_def [abs_def] pool_ok_def [abs_def] case_prod_unfold)
qed

lemma instance_copy:
  assumes "copy_lib_ok L M"
  shows "deep_copy (InfobloxInstance_DeepCopyInto L) (instance_val M) (instance_foot M) (instance_ok M)"
proof -
  have om: "deep_copy (ObjectMeta_DeepCopyInto L) (om_val M) (om_foot M) (om_ok M)"
    and c: "Condition_DeepCopyInto L = assign" using assms by (simp_all add: copy_lib_ok_def)
  have eq: "InfobloxInstance_DeepCopyInto L p m =
      apfst (\<lambda>(a, c). p\<lparr>gi_ObjectMeta := a, gi_Status := c\<rparr>)
        (copy_pair (ObjectMeta_DeepCopyInto L) (InfobloxIPPoolStatus_DeepCopyInto L) (gi_ObjectMeta p, gi_Status p) m)"
    for p m
    by (simp add: InfobloxInstance_DeepCopyInto_def copy_pair_def Let_def status_same split: prod.split)
  from deep_copy_field [where rest = "\<lambda>p. (gi_TypeMeta p, gi_Spec p)" and get = "\<lambda>p. (gi_ObjectMeta p, gi_Status p)"
        and set_field = "\<lambda>p (a, c). p\<lparr>gi_ObjectMeta := a, gi_Status := c\<rparr>",
      OF deep_copy_pair [OF om status_copy [OF c]] _ _ eq]
  show ?thesis
    by (simp add: instance_val_def [abs_def] instance_foot_def [abs_def] instance_ok_def [abs_def] case_prod_unfold)
qed

text \<open>Both list types are copied alike: metadata first, then the items one by one.\<close>

lemma list_copy:
  assumes L: "copy_lib_ok L M" and a: "array_copy into (val M) (foot M) (ok M) C D"
    and h: "\<And>x m. h x m = (let (a, m1) = ListMeta_DeepCopyInto L (gl_ListMeta x) m;
        (b, m2) = copy_slice C D zero into (gl_Items x) m1 in (x\<lparr>gl_ListMeta := a, gl_Items := b\<rparr>, m2))"
  shows "deep_copy h (list_val D val M) (list_foot D foot M) (list_ok D ok M)"
proof -
  have lm: "deep_copy (ListMeta_DeepCopyInto L) (lm_val M) (lm_foot M) (lm_ok M)"
    using L by (simp add: copy_lib_ok_def)
  have eq: "h p m = apfst (\<lambda>(a, b). p\<lparr>gl_ListMeta := a, gl_Items := b\<rparr>)
      (copy_pair (ListMeta_DeepCopyInto L) (copy_slice C D zero into) (gl_ListMeta p, gl_Items p) m)" for p m
    by (simp add: h copy_pair_def Let_def split: prod.split)
  from deep_copy_field [where rest = gl_TypeMeta and get = "\<lambda>p. (gl_ListMeta p, gl_Items p)"
        and set_field = "\<lambda>p (a, b). p\<lparr>gl_ListMeta := a, gl_Items := b\<rparr>",
      OF deep_copy_pair [OF lm array_copy.items_deep [OF a, of zero]] _ _ eq]
  show ?thesis
    by (simp add: list_val_def [abs_def] list_foot_def [abs_def] list_ok_def [abs_def] case_prod_unfold)
qed

lemma cells_inverse [simp]:
  "pools_of (PoolCells xs) = Some xs" "pool_lists_of (PoolListCells ys) = Some ys"
  "instances_of (InstanceCells zs) = Some zs" "instance_lists_of (InstanceListCells us) = Some us"
  by (simp_all add: cells_defs)

lemma pool_list_into:
  "InfobloxIPPoolList_DeepCopyInto L x m = (let (a, m1) = ListMeta_DeepCopyInto L (gl_ListMeta x) m;
     (b, m2) = copy_slice PoolCells pools_of (zero_Pool L) (InfobloxIPPool_DeepCopyInto L) (gl_Items x) m1
   in (x\<lparr>gl_ListMeta := a, gl_Items := b\<rparr>, m2))"
  by (cases "gl_Items x")
    (auto simp: InfobloxIPPoolList_DeepCopyInto_def copy_slice_def Let_def split: prod.split)

lemma instance_list_into:
  "InfobloxInstanceList_DeepCopyInto L x m = (let (a, m1) = ListMeta_DeepCopyInto L (gl_ListMeta x) m;
     (b, m2) = copy_slice InstanceCells instances_of (zero_Instance L) (InfobloxInstance_DeepCopyInto L) (gl_Items x) m1
   in (x\<lparr>gl_ListMeta := a, gl_Items := b\<rparr>, m2))"
  by (cases "gl_Items x")
    (auto simp: InfobloxInstanceList_DeepCopyInto_def copy_slice_def Let_def split: prod.split)

lemma pool_array: "copy_lib_ok L M \<Longrightarrow>
    array_copy (InfobloxIPPool_DeepCopyInto L) (pool_val M) (pool_foot M) (pool_ok M) PoolCells pools_of"
  by (rule array_copy.intro [OF pool_copy array_copy_axioms.intro]) simp_all

lemma instance_array: "copy_lib_ok L M \<Longrightarrow>
    array_copy (InfobloxInstance_DeepCopyInto L) (instance_val M) (instance_foot M) (instance_ok M)
      InstanceCells instances_of"
  by (rule array_copy.intro [OF instance_copy array_copy_axioms.intro]) simp_all

lemma pool_list_array: "copy_lib_ok L M \<Longrightarrow>
    array_copy (InfobloxIPPoolList_DeepCopyInto L) (list_val pools_of pool_val M) (list_foot pools_of pool_foot M)
      (list_ok pools_of pool_ok M) PoolListCells pool_lists_of"
  by (rule array_copy.intro [OF list_copy [OF _ pool_array pool_list_into] array_copy_axioms.intro]) simp_all

lemma instance_list_array: "copy_lib_ok L M \<Longrightarrow>
    array_copy (InfobloxInstanceList_DeepCopyInto L) (list_val instances_of instance_val M)
      (list_foot instances_of instance_foot M) (list_ok instances_of instance_ok M) InstanceListCells instance_lists_of"
  by (rule array_copy.intro [OF list_copy [OF _ instance_array instance_list_into] array_copy_axioms.intro]) simp_all

subsection \<open>Isolation of copies\<close>

text \<open>C23: The generated copies of API objects are deep: for a pool, an instance, or a list of
them, \<open>DeepCopyObject\<close> of a pointer that is not nil returns a pointer of the same dynamic type to
an equal object; no memory that was there is written; and a later change through the copy
is not seen through the original, nor one through the original in the copy: subnets,
conditions, items and metadata are all copied. (Nil is copied to nil.)\<close>

theorem objects_copied:
  assumes "copy_lib_ok L M" and "sl_len p = 1"
  shows "(slice_ok pools_of (pool_ok M) m (Some p) \<longrightarrow>
            (\<exists>q m'. InfobloxIPPool_DeepCopyObject L (Some p) m = (Some (RPool q), m') \<and>
               isolated_copy (slice_val pools_of (pool_val M)) (slice_foot pools_of (pool_foot M))
                 m (Some p) m' (Some q))) \<and>
         (slice_ok instances_of (instance_ok M) m (Some p) \<longrightarrow>
            (\<exists>q m'. InfobloxInstance_DeepCopyObject L (Some p) m = (Some (RInstance q), m') \<and>
               isolated_copy (slice_val instances_of (instance_val M)) (slice_foot instances_of (instance_foot M))
                 m (Some p) m' (Some q))) \<and>
         (slice_ok pool_lists_of (list_ok pools_of pool_ok M) m (Some p) \<longrightarrow>
            (\<exists>q m'. InfobloxIPPoolList_DeepCopyObject L (Some p) m = (Some (RPoolList q), m') \<and>
               isolated_copy (slice_val pool_lists_of (list_val pools_of pool_val M))
                 (slice_foot pool_lists_of (list_foot pools_of pool_foot M)) m (Some p) m' (Some q))) \<and>
         (slice_ok instance_lists_of (list_ok instances_of instance_ok M) m (Some p) \<longrightarrow>
            (\<exists>q m'. InfobloxInstanceList_DeepCopyObject L (Some p) m = (Some (RInstanceList q), m') \<and>
               isolated_copy (slice_val instance_lists_of (list_val instances_of instance_val M))
                 (slice_foot instance_lists_of (list_foot instances_of instance_foot M)) m (Some p) m' (Some q))) \<and>
         InfobloxIPPool_DeepCopyObject L None m = (None, m) \<and> InfobloxInstance_DeepCopyObject L None m = (None, m) \<and>
         InfobloxIPPoolList_DeepCopyObject L None m = (None, m) \<and> InfobloxInstanceList_DeepCopyObject L None m = (None, m)"
proof (intro conjI impI)
  assume ok: "slice_ok pools_of (pool_ok M) m (Some p)"
  show "\<exists>q m'. InfobloxIPPool_DeepCopyObject L (Some p) m = (Some (RPool q), m') \<and>
      isolated_copy (slice_val pools_of (pool_val M)) (slice_foot pools_of (pool_foot M)) m (Some p) m' (Some q)"
    by (rule new_copy_isolated [OF pool_array [OF assms(1)] ok assms(2), of "zero_Pool L"])
      (auto simp: InfobloxIPPool_DeepCopyObject_def InfobloxIPPool_DeepCopy_def)
next
  assume ok: "slice_ok instances_of (instance_ok M) m (Some p)"
  show "\<exists>q m'. InfobloxInstance_DeepCopyObject L (Some p) m = (Some (RInstance q), m') \<and>
      isolated_copy (slice_val instances_of (instance_val M)) (slice_foot instances_of (instance_foot M))
        m (Some p) m' (Some q)"
    by (rule new_copy_isolated [OF instance_array [OF assms(1)] ok assms(2), of "zero_Instance L"])
      (auto simp: InfobloxInstance_DeepCopyObject_def InfobloxInstance_DeepCopy_def)
next
  assume ok: "slice_ok pool_lists_of (list_ok pools_of pool_ok M) m (Some p)"
  show "\<exists>q m'. InfobloxIPPoolList_DeepCopyObject L (Some p) m = (Some (RPoolList q), m') \<and>
      isolated_copy (slice_val pool_lists_of (list_val pools_of pool_val M))
        (slice_foot pool_lists_of (list_foot pools_of pool_foot M)) m (Some p) m' (Some q)"
    by (rule new_copy_isolated [OF pool_list_array [OF assms(1)] ok assms(2), of "zero_List L"])
      (auto simp: InfobloxIPPoolList_DeepCopyObject_def InfobloxIPPoolList_DeepCopy_def)
next
  assume ok: "slice_ok instance_lists_of (list_ok instances_of instance_ok M) m (Some p)"
  show "\<exists>q m'. InfobloxInstanceList_DeepCopyObject L (Some p) m = (Some (RInstanceList q), m') \<and>
      isolated_copy (slice_val instance_lists_of (list_val instances_of instance_val M))
        (slice_foot instance_lists_of (list_foot instances_of instance_foot M)) m (Some p) m' (Some q)"
    by (rule new_copy_isolated [OF instance_list_array [OF assms(1)] ok assms(2), of "zero_List L"])
      (auto simp: InfobloxInstanceList_DeepCopyObject_def InfobloxInstanceList_DeepCopy_def)
qed (simp_all add: InfobloxIPPool_DeepCopyObject_def InfobloxIPPool_DeepCopy_def
    InfobloxInstance_DeepCopyObject_def InfobloxInstance_DeepCopy_def
    InfobloxIPPoolList_DeepCopyObject_def InfobloxIPPoolList_DeepCopy_def
    InfobloxInstanceList_DeepCopyObject_def InfobloxInstanceList_DeepCopy_def new_copy_def)

text \<open>For the example, metadata is a list of finalizers behind a pointer, and lists have none.\<close>

definition finalizers_of :: "('m, 'l, string list) cell \<Rightarrow> string list option" where
  "finalizers_of c = (case c of LibraryCell xs \<Rightarrow> Some xs | _ \<Rightarrow> None)"

definition example_copy_lib :: "(slice option, unit, string list) copy_lib" where
  "example_copy_lib =
     \<lparr>zero_ObjectMeta = None, zero_ListMeta = (),
      ObjectMeta_DeepCopyInto = copy_slice LibraryCell finalizers_of [] assign,
      ListMeta_DeepCopyInto = assign, Condition_DeepCopyInto = assign\<rparr>"

definition example_meta ::
  "(slice option, unit, string list, string list option, unit) meta_model" where
  "example_meta =
     \<lparr>om_val = slice_val finalizers_of (\<lambda>m x. x), om_foot = slice_foot finalizers_of (\<lambda>m x. {}),
      om_ok = slice_ok finalizers_of (\<lambda>m x. True), lm_val = (\<lambda>m x. x), lm_foot = (\<lambda>m x. {}),
      lm_ok = (\<lambda>m x. True)\<rparr>"

interpretation finalizers: array_copy assign "\<lambda>m x. x" "\<lambda>m x. {}" "\<lambda>m x. True"
    "LibraryCell :: string list \<Rightarrow> ('m, 'l, string list) cell" finalizers_of
  by unfold_locales (simp add: finalizers_of_def)

lemma example_copy_lib_ok: "copy_lib_ok example_copy_lib example_meta"
  unfolding copy_lib_ok_def example_copy_lib_def example_meta_def copy_lib.simps meta_model.simps
  by (intro conjI finalizers.items_deep plain.deep_copy_axioms refl)

text \<open>A list of one pool with a subnet: the pool in a longer array, the list in a variable.\<close>

definition example_mem :: "(slice option, unit, string list) cell mem" where
  "example_mem =
     \<lparr>cells = [0 \<mapsto> SubnetCells [\<lparr>CIDR = ''10.0.0.0/24'', Gateway = ''10.0.0.1''\<rparr>],
               1 \<mapsto> LibraryCell [''f1''],
               2 \<mapsto> PoolCells [zero_Pool example_copy_lib,
                     \<lparr>gp_TypeMeta = zero_TypeMeta, gp_ObjectMeta = Some \<lparr>sl_array = 1, sl_off = 0, sl_len = 1\<rparr>,
                      gp_Spec = zero_PoolSpec\<lparr>gs_Subnets := Some \<lparr>sl_array = 0, sl_off = 0, sl_len = 1\<rparr>\<rparr>,
                      gp_Status = zero_Status\<rparr>],
               3 \<mapsto> PoolListCells [\<lparr>gl_TypeMeta = zero_TypeMeta, gl_ListMeta = (),
                      gl_Items = Some \<lparr>sl_array = 2, sl_off = 1, sl_len = 1\<rparr>\<rparr>]],
      lim = 4\<rparr>"

definition example_list :: slice where
  "example_list = \<lparr>sl_array = 3, sl_off = 0, sl_len = 1\<rparr>"

lemmas example_defs = example_mem_def example_list_def example_meta_def slice_ok_def read_slice_def
  array_at_def list_ok_def pool_ok_def spec_ok_def status_ok_def cells_defs finalizers_of_def
  zero_PoolSpec_def zero_Status_def

theorem objects_copied_witness:
  "\<exists>q m'. InfobloxIPPoolList_DeepCopyObject example_copy_lib (Some example_list) example_mem = (Some (RPoolList q), m') \<and>
     isolated_copy (slice_val pool_lists_of (list_val pools_of pool_val example_meta))
       (slice_foot pool_lists_of (list_foot pools_of pool_foot example_meta))
       example_mem (Some example_list) m' (Some q)"
proof -
  have "slice_ok pool_lists_of (list_ok pools_of pool_ok example_meta) example_mem (Some example_list)"
    by (simp add: example_defs)
  then show ?thesis
    using objects_copied [OF example_copy_lib_ok, of example_list example_mem]
    by (simp add: example_list_def)
qed

end
