(* ===== verification/Mocks.thy ===== *)
theory Mocks
  imports ClientInterface Hostname
begin

text \<open>
  The generated stand-ins of the tests: \<open>pkg/infoblox/ibmock/client.go\<close> for the interface
  \<open>Client\<close> and \<open>internal/hostname/mock/resolver.go\<close> for \<open>Resolver\<close>. The controller of the
  package gomock, which keeps the expected calls, is a parameter.
\<close>

subsection \<open>Values of type any\<close>

datatype go_any =
    ANil
  | ABool bool
  | AString string
  | APrefix prefix
  | AAddr addr
  | AError error
  | AHostConfig HostConfig
  | AClaim IPAddressClaim
  | ALogger nat
  | AContext nat
  | AnyMatcher

datatype go_type = TBool | TString | TPrefix | TAddr | TError | THostConfig | TClaim | TLogger | TContext

text \<open>The type assertions \<open>v, _ := x.(T)\<close>: the zero value of the type if they fail.\<close>

fun as_bool :: "go_any \<Rightarrow> bool" where
  "as_bool (ABool b) = b"
| "as_bool _ = False"

fun as_string :: "go_any \<Rightarrow> string" where
  "as_string (AString s) = s"
| "as_string _ = []"

fun as_addr :: "go_any \<Rightarrow> addr" where
  "as_addr (AAddr a) = a"
| "as_addr _ = ZeroAddr"

fun as_error :: "go_any \<Rightarrow> error option" where
  "as_error (AError e) = Some e"
| "as_error _ = None"

fun as_HostConfig :: "go_any \<Rightarrow> HostConfig option" where
  "as_HostConfig (AHostConfig c) = Some c"
| "as_HostConfig _ = None"

text \<open>What may be returned for a result of the type: nil is an error, and a pointer.\<close>

fun has_type :: "go_any \<Rightarrow> go_type \<Rightarrow> bool" where
  "has_type (ABool _) t = (t = TBool)"
| "has_type (AString _) t = (t = TString)"
| "has_type (APrefix _) t = (t = TPrefix)"
| "has_type (AAddr _) t = (t = TAddr)"
| "has_type (AError _) t = (t = TError)"
| "has_type (AHostConfig _) t = (t = THostConfig)"
| "has_type (AClaim _) t = (t = TClaim)"
| "has_type (ALogger _) t = (t = TLogger)"
| "has_type (AContext _) t = (t = TContext)"
| "has_type ANil t = (t \<in> {TError, THostConfig, TClaim})"
| "has_type AnyMatcher t = False"

text \<open>\<open>reflect.TypeOf\<close> of a method: its parameters and results.\<close>

record method_type =
  mt_In :: "go_type list"
  mt_Out :: "go_type list"

subsection \<open>gomock\<close>

text \<open>A receiver, which is a pointer, as gomock compares them: which kind of mock, and which one.\<close>

datatype receiver = ClientMock nat | ResolverMock nat

text \<open>
  The controllers, named by numbers, with their state \<open>'g\<close>: \<open>T.Helper\<close>, \<open>Call\<close>, which a mock
  calls and which ends the test by a panic if the call was not expected, and
  \<open>RecordCallWithMethodType\<close>, whose result's method \<open>Return\<close> is given separately.
  \<open>unexpected\<close> says that no call of the method is expected.
\<close>

record ('g, 'call) gomock =
  T_Helper :: "nat \<Rightarrow> 'g \<Rightarrow> 'g"
  ctrl_Call :: "nat \<Rightarrow> receiver \<Rightarrow> string \<Rightarrow> go_any list \<Rightarrow> 'g \<Rightarrow> (string + go_any list) \<times> 'g"
  RecordCallWithMethodType :: "nat \<Rightarrow> receiver \<Rightarrow> string \<Rightarrow> method_type \<Rightarrow> go_any list \<Rightarrow> 'g \<Rightarrow> 'call \<times> 'g"
  Return :: "'call \<Rightarrow> go_any list \<Rightarrow> 'g \<Rightarrow> 'g"
  unexpected :: "nat \<Rightarrow> receiver \<Rightarrow> string \<Rightarrow> 'g \<Rightarrow> bool"

subsection \<open>The objects\<close>

text \<open>A mock and its recorder refer to each other: their addresses are places in the store.\<close>

record MockClient =
  mc_ctrl :: nat
  mc_recorder :: nat

record MockClientMockRecorder =
  mr_mock :: nat

record MockResolver =
  rm_ctrl :: nat
  rm_recorder :: nat

record MockResolverMockRecorder =
  rr_mock :: nat

record mock_store =
  clients :: "MockClient list"
  client_recorders :: "MockClientMockRecorder list"
  resolvers :: "MockResolver list"
  resolver_recorders :: "MockResolverMockRecorder list"

definition NewMockClient :: "nat \<Rightarrow> mock_store \<Rightarrow> nat \<times> mock_store" where
  "NewMockClient ctrl st =
     (length (clients st),
      st\<lparr>clients := clients st @ [\<lparr>mc_ctrl = ctrl, mc_recorder = length (client_recorders st)\<rparr>],
         client_recorders := client_recorders st @ [\<lparr>mr_mock = length (clients st)\<rparr>]\<rparr>)"

definition NewMockResolver :: "nat \<Rightarrow> mock_store \<Rightarrow> nat \<times> mock_store" where
  "NewMockResolver ctrl st =
     (length (resolvers st),
      st\<lparr>resolvers := resolvers st @ [\<lparr>rm_ctrl = ctrl, rm_recorder = length (resolver_recorders st)\<rparr>],
         resolver_recorders := resolver_recorders st @ [\<lparr>rr_mock = length (resolvers st)\<rparr>]\<rparr>)"

text \<open>Loads of a field through a pointer; one that points nowhere is a panic.\<close>

definition deref :: "'a list \<Rightarrow> nat \<Rightarrow> string + 'a" where
  "deref xs m = (if m < length xs then Inr (xs ! m) else Inl ''invalid memory address or nil pointer dereference'')"

definition EXPECT :: "mock_store \<Rightarrow> nat \<Rightarrow> string + nat" where
  "EXPECT st m = map_sum id mc_recorder (deref (clients st) m)"

definition Resolver_EXPECT :: "mock_store \<Rightarrow> nat \<Rightarrow> string + nat" where
  "Resolver_EXPECT st m = map_sum id rm_recorder (deref (resolvers st) m)"

subsection \<open>Calls and expected calls\<close>

text \<open>The values \<open>ret[0]\<close> and \<open>ret[1]\<close>; an index out of range is a panic.\<close>

definition results1 :: "(go_any \<Rightarrow> 'a) \<Rightarrow> go_any list \<Rightarrow> string + 'a" where
  "results1 f ret = (if length ret > 0 then Inr (f (ret ! 0)) else Inl ''index out of range'')"

definition results2 :: "(go_any \<Rightarrow> 'a) \<Rightarrow> (go_any \<Rightarrow> 'b) \<Rightarrow> go_any list \<Rightarrow> string + 'a \<times> 'b" where
  "results2 f g ret = (if length ret > 1 then Inr (f (ret ! 0), g (ret ! 1)) else Inl ''index out of range'')"

text \<open>The body that the methods share: \<open>Helper\<close>, then \<open>Call\<close>, then the results.\<close>

definition forward ::
  "('g, 'call) gomock \<Rightarrow> string + nat \<Rightarrow> receiver \<Rightarrow> string \<Rightarrow> go_any list \<Rightarrow> (go_any list \<Rightarrow> string + 'a) \<Rightarrow>
     'g \<Rightarrow> (string + 'a) \<times> 'g" where
  "forward G ctrl recv name args res g =
     (case ctrl of
        Inl msg \<Rightarrow> (Inl msg, g)
      | Inr c \<Rightarrow>
          (case ctrl_Call G c recv name args (T_Helper G c g) of
             (Inl msg, g1) \<Rightarrow> (Inl msg, g1)
           | (Inr ret, g1) \<Rightarrow> (res ret, g1)))"

definition record_call ::
  "('g, 'call) gomock \<Rightarrow> string + nat \<Rightarrow> receiver \<Rightarrow> string \<Rightarrow> method_type \<Rightarrow> go_any list \<Rightarrow> 'g \<Rightarrow> (string + 'call) \<times> 'g" where
  "record_call G ctrl recv name ty args g =
     (case ctrl of
        Inl msg \<Rightarrow> (Inl msg, g)
      | Inr c \<Rightarrow>
          (case RecordCallWithMethodType G c recv name ty args (T_Helper G c g) of (call, g1) \<Rightarrow> (Inr call, g1)))"

abbreviation client_ctrl :: "mock_store \<Rightarrow> nat \<Rightarrow> string + nat" where
  "client_ctrl st m \<equiv> map_sum id mc_ctrl (deref (clients st) m)"

text \<open>The recorder of a client mock reaches the controller through the mock it belongs to.\<close>

definition record_client ::
  "('g, 'call) gomock \<Rightarrow> mock_store \<Rightarrow> nat \<Rightarrow> string \<Rightarrow> method_type \<Rightarrow> go_any list \<Rightarrow> 'g \<Rightarrow> (string + 'call) \<times> 'g" where
  "record_client G st mr name ty args g =
     (case deref (client_recorders st) mr of
        Inl msg \<Rightarrow> (Inl msg, g)
      | Inr r \<Rightarrow> record_call G (client_ctrl st (mr_mock r)) (ClientMock (mr_mock r)) name ty args g)"

subsection \<open>The methods of MockClient\<close>

definition Mock_CheckDNSViewExists ::
  "('g, 'call) gomock \<Rightarrow> mock_store \<Rightarrow> nat \<Rightarrow> string \<Rightarrow> 'g \<Rightarrow> (string + bool \<times> error option) \<times> 'g" where
  "Mock_CheckDNSViewExists G st m view =
     forward G (client_ctrl st m) (ClientMock m) ''CheckDNSViewExists'' [AString view] (results2 as_bool as_error)"

definition Recorder_CheckDNSViewExists ::
  "('g, 'call) gomock \<Rightarrow> mock_store \<Rightarrow> nat \<Rightarrow> go_any \<Rightarrow> 'g \<Rightarrow> (string + 'call) \<times> 'g" where
  "Recorder_CheckDNSViewExists G st mr view =
     record_client G st mr ''CheckDNSViewExists'' \<lparr>mt_In = [TString], mt_Out = [TBool, TError]\<rparr> [view]"

definition Mock_CheckNetworkExists ::
  "('g, 'call) gomock \<Rightarrow> mock_store \<Rightarrow> nat \<Rightarrow> string \<Rightarrow> prefix \<Rightarrow> 'g \<Rightarrow> (string + bool \<times> error option) \<times> 'g" where
  "Mock_CheckNetworkExists G st m view subnet =
     forward G (client_ctrl st m) (ClientMock m) ''CheckNetworkExists'' [AString view, APrefix subnet]
       (results2 as_bool as_error)"

definition Recorder_CheckNetworkExists ::
  "('g, 'call) gomock \<Rightarrow> mock_store \<Rightarrow> nat \<Rightarrow> go_any \<Rightarrow> go_any \<Rightarrow> 'g \<Rightarrow> (string + 'call) \<times> 'g" where
  "Recorder_CheckNetworkExists G st mr view subnet =
     record_client G st mr ''CheckNetworkExists'' \<lparr>mt_In = [TString, TPrefix], mt_Out = [TBool, TError]\<rparr> [view, subnet]"

definition Mock_CheckNetworkViewExists ::
  "('g, 'call) gomock \<Rightarrow> mock_store \<Rightarrow> nat \<Rightarrow> string \<Rightarrow> 'g \<Rightarrow> (string + bool \<times> error option) \<times> 'g" where
  "Mock_CheckNetworkViewExists G st m view =
     forward G (client_ctrl st m) (ClientMock m) ''CheckNetworkViewExists'' [AString view] (results2 as_bool as_error)"

definition Recorder_CheckNetworkViewExists ::
  "('g, 'call) gomock \<Rightarrow> mock_store \<Rightarrow> nat \<Rightarrow> go_any \<Rightarrow> 'g \<Rightarrow> (string + 'call) \<times> 'g" where
  "Recorder_CheckNetworkViewExists G st mr view =
     record_client G st mr ''CheckNetworkViewExists'' \<lparr>mt_In = [TString], mt_Out = [TBool, TError]\<rparr> [view]"

definition Mock_GetHostConfig ::
  "('g, 'call) gomock \<Rightarrow> mock_store \<Rightarrow> nat \<Rightarrow> 'g \<Rightarrow> (string + HostConfig option) \<times> 'g" where
  "Mock_GetHostConfig G st m =
     forward G (client_ctrl st m) (ClientMock m) ''GetHostConfig'' [] (results1 as_HostConfig)"

definition Recorder_GetHostConfig ::
  "('g, 'call) gomock \<Rightarrow> mock_store \<Rightarrow> nat \<Rightarrow> 'g \<Rightarrow> (string + 'call) \<times> 'g" where
  "Recorder_GetHostConfig G st mr =
     record_client G st mr ''GetHostConfig'' \<lparr>mt_In = [], mt_Out = [THostConfig]\<rparr> []"

definition Mock_GetOrAllocateAddress ::
  "('g, 'call) gomock \<Rightarrow> mock_store \<Rightarrow> nat \<Rightarrow> string \<Rightarrow> string \<Rightarrow> prefix \<Rightarrow> string \<Rightarrow> string \<Rightarrow> nat \<Rightarrow>
     'g \<Rightarrow> (string + addr \<times> error option) \<times> 'g" where
  "Mock_GetOrAllocateAddress G st m networkView dnsView subnet hostname zone logger =
     forward G (client_ctrl st m) (ClientMock m) ''GetOrAllocateAddress''
       [AString networkView, AString dnsView, APrefix subnet, AString hostname, AString zone, ALogger logger]
       (results2 as_addr as_error)"

definition Recorder_GetOrAllocateAddress ::
  "('g, 'call) gomock \<Rightarrow> mock_store \<Rightarrow> nat \<Rightarrow> go_any \<Rightarrow> go_any \<Rightarrow> go_any \<Rightarrow> go_any \<Rightarrow> go_any \<Rightarrow> go_any \<Rightarrow>
     'g \<Rightarrow> (string + 'call) \<times> 'g" where
  "Recorder_GetOrAllocateAddress G st mr networkView dnsView subnet hostname zone logger =
     record_client G st mr ''GetOrAllocateAddress''
       \<lparr>mt_In = [TString, TString, TPrefix, TString, TString, TLogger], mt_Out = [TAddr, TError]\<rparr>
       [networkView, dnsView, subnet, hostname, zone, logger]"

definition Mock_ReleaseAddress ::
  "('g, 'call) gomock \<Rightarrow> mock_store \<Rightarrow> nat \<Rightarrow> string \<Rightarrow> string \<Rightarrow> prefix \<Rightarrow> string \<Rightarrow> nat \<Rightarrow>
     'g \<Rightarrow> (string + error option) \<times> 'g" where
  "Mock_ReleaseAddress G st m networkView dnsView subnet hostname logger =
     forward G (client_ctrl st m) (ClientMock m) ''ReleaseAddress''
       [AString networkView, AString dnsView, APrefix subnet, AString hostname, ALogger logger] (results1 as_error)"

definition Recorder_ReleaseAddress ::
  "('g, 'call) gomock \<Rightarrow> mock_store \<Rightarrow> nat \<Rightarrow> go_any \<Rightarrow> go_any \<Rightarrow> go_any \<Rightarrow> go_any \<Rightarrow> go_any \<Rightarrow>
     'g \<Rightarrow> (string + 'call) \<times> 'g" where
  "Recorder_ReleaseAddress G st mr networkView dnsView subnet hostname logger =
     record_client G st mr ''ReleaseAddress''
       \<lparr>mt_In = [TString, TString, TPrefix, TString, TLogger], mt_Out = [TError]\<rparr>
       [networkView, dnsView, subnet, hostname, logger]"

subsection \<open>The methods of MockResolver\<close>

abbreviation resolver_ctrl :: "mock_store \<Rightarrow> nat \<Rightarrow> string + nat" where
  "resolver_ctrl st m \<equiv> map_sum id rm_ctrl (deref (resolvers st) m)"

definition Mock_GetHostname ::
  "('g, 'call) gomock \<Rightarrow> mock_store \<Rightarrow> nat \<Rightarrow> nat \<Rightarrow> IPAddressClaim option \<Rightarrow>
     'g \<Rightarrow> (string + string \<times> error option) \<times> 'g" where
  "Mock_GetHostname G st m arg0 arg1 =
     forward G (resolver_ctrl st m) (ResolverMock m) ''GetHostname''
       [AContext arg0, case arg1 of None \<Rightarrow> ANil | Some claim \<Rightarrow> AClaim claim] (results2 as_string as_error)"

definition Recorder_GetHostname ::
  "('g, 'call) gomock \<Rightarrow> mock_store \<Rightarrow> nat \<Rightarrow> go_any \<Rightarrow> go_any \<Rightarrow> 'g \<Rightarrow> (string + 'call) \<times> 'g" where
  "Recorder_GetHostname G st mr arg0 arg1 g =
     (case deref (resolver_recorders st) mr of
        Inl msg \<Rightarrow> (Inl msg, g)
      | Inr r \<Rightarrow> record_call G (resolver_ctrl st (rr_mock r)) (ResolverMock (rr_mock r)) ''GetHostname''
                   \<lparr>mt_In = [TContext, TClaim], mt_Out = [TString, TError]\<rparr> [arg0, arg1] g)"

subsection \<open>What gomock promises\<close>

text \<open>
  An expected call is found by a call of the same receiver and method whose arguments match,
  and then returns the values given to \<open>Return\<close>, if nothing else was expected of the method and
  the matchers and the values fit the type that was recorded. An argument of the recorder that
  is not a matcher is compared.
\<close>

definition arg_matches :: "go_any \<Rightarrow> go_any \<Rightarrow> bool" where
  "arg_matches x y \<longleftrightarrow> x = AnyMatcher \<or> x = y"

definition gomock_ok :: "('g, 'call) gomock \<Rightarrow> bool" where
  "gomock_ok G \<longleftrightarrow>
     (\<forall>c recv n ty ms args rets g call g1.
        unexpected G c recv n g \<longrightarrow> RecordCallWithMethodType G c recv n ty ms (T_Helper G c g) = (call, g1) \<longrightarrow>
        length ms = length (mt_In ty) \<longrightarrow> list_all2 has_type rets (mt_Out ty) \<longrightarrow> list_all2 arg_matches ms args \<longrightarrow>
        fst (ctrl_Call G c recv n args (T_Helper G c (Return G call rets g1))) = Inr rets)"

subsection \<open>Mocks and their recorders\<close>

inductive mock_stores :: "mock_store \<Rightarrow> bool" where
  no_mocks: "mock_stores \<lparr>clients = [], client_recorders = [], resolvers = [], resolver_recorders = []\<rparr>"
| new_client: "mock_stores st \<Longrightarrow> NewMockClient ctrl st = (m, st') \<Longrightarrow> mock_stores st'"
| new_resolver: "mock_stores st \<Longrightarrow> NewMockResolver ctrl st = (m, st') \<Longrightarrow> mock_stores st'"

lemma recorders_paired:
  "mock_stores st \<Longrightarrow>
     (\<forall>m < length (clients st). \<exists>r. EXPECT st m = Inr r \<and> deref (client_recorders st) r = Inr \<lparr>mr_mock = m\<rparr>) \<and>
     (\<forall>m < length (resolvers st). \<exists>r. Resolver_EXPECT st m = Inr r \<and> deref (resolver_recorders st) r = Inr \<lparr>rr_mock = m\<rparr>)"
proof (induction rule: mock_stores.induct)
  case (new_client st ctrl m st')
  then show ?case
    by (auto simp: NewMockClient_def EXPECT_def Resolver_EXPECT_def deref_def nth_append less_Suc_eq split: if_splits)
next
  case (new_resolver st ctrl m st')
  then show ?case
    by (auto simp: NewMockResolver_def EXPECT_def Resolver_EXPECT_def deref_def nth_append less_Suc_eq split: if_splits)
qed simp

text \<open>
  A test sets up one expectation through the recorder, with the values to return, and the code
  under test then calls the mock.
\<close>

definition expecting ::
  "('g, 'call) gomock \<Rightarrow> string + nat \<Rightarrow> (nat \<Rightarrow> 'g \<Rightarrow> (string + 'call) \<times> 'g) \<Rightarrow> go_any list \<Rightarrow>
     ('g \<Rightarrow> (string + 'a) \<times> 'g) \<Rightarrow> 'g \<Rightarrow> string + 'a" where
  "expecting G recorder record rets run g =
     (case recorder of
        Inl msg \<Rightarrow> Inl msg
      | Inr r \<Rightarrow>
          (case record r g of
             (Inl msg, g1) \<Rightarrow> Inl msg
           | (Inr call, g1) \<Rightarrow> fst (run (Return G call rets g1))))"

lemma forward_recorded:
  assumes G: "gomock_ok G" and "unexpected G c recv n g" and "length ms = length (mt_In ty)"
    and "list_all2 has_type rets (mt_Out ty)" and "list_all2 arg_matches ms args"
    and "record_call G (Inr c) recv n ty ms g = (r, g1)"
  shows "\<exists>call. r = Inr call \<and> fst (forward G (Inr c) recv n args res (Return G call rets g1)) = res rets"
proof -
  obtain call g2 where rec: "RecordCallWithMethodType G c recv n ty ms (T_Helper G c g) = (call, g2)" by fastforce
  from G assms(2) rec assms(3-5)
  have "fst (ctrl_Call G c recv n args (T_Helper G c (Return G call rets g2))) = Inr rets"
    unfolding gomock_ok_def by blast
  then show ?thesis using assms(6) rec by (auto simp: forward_def record_call_def split: prod.splits sum.splits)
qed

lemma expected_client_call:
  assumes "gomock_ok G" and st: "mock_stores st" "m < length (clients st)"
    and "unexpected G (mc_ctrl (clients st ! m)) (ClientMock m) n g" and "length ms = length (mt_In ty)"
    and "list_all2 has_type rets (mt_Out ty)" and "list_all2 arg_matches ms args"
  shows "expecting G (EXPECT st m) (\<lambda>r. record_client G st r n ty ms) rets
           (forward G (client_ctrl st m) (ClientMock m) n args res) g = res rets"
proof -
  obtain r where r: "EXPECT st m = Inr r" "deref (client_recorders st) r = Inr \<lparr>mr_mock = m\<rparr>"
    using recorders_paired [OF st(1)] st(2) by blast
  have c: "client_ctrl st m = Inr (mc_ctrl (clients st ! m))" using st(2) by (simp add: deref_def)
  obtain x g1 where x: "record_call G (Inr (mc_ctrl (clients st ! m))) (ClientMock m) n ty ms g = (x, g1)" by fastforce
  from forward_recorded [OF assms(1,4-7) x, of res] show ?thesis
    by (auto simp: expecting_def r record_client_def c x)
qed

lemma expected_resolver_call:
  assumes "gomock_ok G" and st: "mock_stores st" "m < length (resolvers st)"
    and "unexpected G (rm_ctrl (resolvers st ! m)) (ResolverMock m) ''GetHostname'' g"
    and "list_all2 arg_matches [m0, m1] [AContext ctx, AClaim claim]" and "list_all2 has_type rets [TString, TError]"
  shows "expecting G (Resolver_EXPECT st m) (\<lambda>r. Recorder_GetHostname G st r m0 m1) rets
           (Mock_GetHostname G st m ctx (Some claim)) g = results2 as_string as_error rets"
proof -
  obtain r where r: "Resolver_EXPECT st m = Inr r" "deref (resolver_recorders st) r = Inr \<lparr>rr_mock = m\<rparr>"
    using recorders_paired [OF st(1)] st(2) by blast
  have c: "resolver_ctrl st m = Inr (rm_ctrl (resolvers st ! m))" using st(2) by (simp add: deref_def)
  let ?ty = "\<lparr>mt_In = [TContext, TClaim], mt_Out = [TString, TError]\<rparr>"
  obtain x g1 where x: "record_call G (Inr (rm_ctrl (resolvers st ! m))) (ResolverMock m) ''GetHostname'' ?ty [m0, m1] g = (x, g1)"
    by fastforce
  from forward_recorded [OF assms(1,4) _ _ assms(5) x, of rets "results2 as_string as_error"] assms(6) show ?thesis
    by (auto simp: expecting_def r Recorder_GetHostname_def Mock_GetHostname_def c x)
qed

subsection \<open>Properties\<close>

definition any_error :: "error option \<Rightarrow> go_any" where
  "any_error e = (case e of None \<Rightarrow> ANil | Some err \<Rightarrow> AError err)"

lemma any_error [simp]: "has_type (any_error e) TError" "as_error (any_error e) = e"
  by (simp_all add: any_error_def split: option.splits)

text \<open>C39: What a test scripts is what the code under test gets: for every mock that was made, by
itself or among others, an expectation set up on its recorder with values of the result types
is met by the call of the same method on the mock, and the call returns these values - no
error for nil, and a pair whose parts are in the interface's order. So the receiver, the name,
the number of arguments and the result types agree between each method and its recorder.\<close>

theorem mocks_return_what_was_scripted:
  fixes G :: "('g, 'call) gomock"
  assumes "gomock_ok G" and "mock_stores st" and "m < length (clients st)"
    and "\<And>n. unexpected G (mc_ctrl (clients st ! m)) (ClientMock m) n g"
    and "k < length (resolvers st)" and "\<And>n. unexpected G (rm_ctrl (resolvers st ! k)) (ResolverMock k) n g"
    and "list_all2 arg_matches [xv, xd, xs, xh, xz, xl]
           [AString nv, AString dv, APrefix subnet, AString h, AString z, ALogger l]"
    and "list_all2 arg_matches [xc, xo] [AContext ctx, AClaim claim]"
  shows "expecting G (EXPECT st m) (\<lambda>r. Recorder_GetOrAllocateAddress G st r xv xd xs xh xz xl) [AAddr a, any_error e]
           (Mock_GetOrAllocateAddress G st m nv dv subnet h z l) g = Inr (a, e) \<and>
         expecting G (EXPECT st m) (\<lambda>r. Recorder_ReleaseAddress G st r xv xd xs xh xl) [any_error e]
           (Mock_ReleaseAddress G st m nv dv subnet h l) g = Inr e \<and>
         expecting G (EXPECT st m) (\<lambda>r. Recorder_CheckNetworkViewExists G st r xv) [ABool b, any_error e]
           (Mock_CheckNetworkViewExists G st m nv) g = Inr (b, e) \<and>
         expecting G (EXPECT st m) (\<lambda>r. Recorder_CheckDNSViewExists G st r xd) [ABool b, any_error e]
           (Mock_CheckDNSViewExists G st m dv) g = Inr (b, e) \<and>
         expecting G (EXPECT st m) (\<lambda>r. Recorder_CheckNetworkExists G st r xv xs) [ABool b, any_error e]
           (Mock_CheckNetworkExists G st m nv subnet) g = Inr (b, e) \<and>
         expecting G (EXPECT st m) (\<lambda>r. Recorder_GetHostConfig G st r) [AHostConfig cfg]
           (Mock_GetHostConfig G st m) g = Inr (Some cfg) \<and>
         expecting G (Resolver_EXPECT st k) (\<lambda>r. Recorder_GetHostname G st r xc xo) [AString hn, any_error e]
           (Mock_GetHostname G st k ctx (Some claim)) g = Inr (hn, e)"
  using assms(7)
  unfolding Recorder_GetOrAllocateAddress_def Mock_GetOrAllocateAddress_def Recorder_ReleaseAddress_def Mock_ReleaseAddress_def
    Recorder_CheckNetworkViewExists_def Mock_CheckNetworkViewExists_def Recorder_CheckDNSViewExists_def
    Mock_CheckDNSViewExists_def Recorder_CheckNetworkExists_def Mock_CheckNetworkExists_def
    Recorder_GetHostConfig_def Mock_GetHostConfig_def
  by (simp add: expected_client_call [OF assms(1-4)] expected_resolver_call [OF assms(1,2,5,6,8)] results1_def results2_def)

text \<open>
  A controller for closed examples: the expectations in the order in which they were recorded,
  and the first that matches counts.
\<close>

type_synonym expectation = "nat \<times> receiver \<times> string \<times> go_any list \<times> go_any list"

fun meets :: "nat \<Rightarrow> receiver \<Rightarrow> string \<Rightarrow> go_any list \<Rightarrow> expectation \<Rightarrow> bool" where
  "meets c recv n args (c', recv', n', ms, rets) \<longleftrightarrow> (c', recv', n') = (c, recv, n) \<and> list_all2 arg_matches ms args"

fun is_for :: "nat \<Rightarrow> receiver \<Rightarrow> string \<Rightarrow> expectation \<Rightarrow> bool" where
  "is_for c recv n (c', recv', n', ms, rets) \<longleftrightarrow> (c', recv', n') = (c, recv, n)"

definition example_gomock :: "(expectation list, nat) gomock" where
  "example_gomock =
     \<lparr>T_Helper = (\<lambda>c g. g),
      ctrl_Call = (\<lambda>c recv n args g.
        (case List.find (meets c recv n args) g of
           None \<Rightarrow> Inl ''unexpected call'' | Some (_, _, _, _, rets) \<Rightarrow> Inr rets, g)),
      RecordCallWithMethodType = (\<lambda>c recv n ty ms g. (length g, g @ [(c, recv, n, ms, [])])),
      Return = (\<lambda>call rets g. g[call := (case g ! call of (c, recv, n, ms, _) \<Rightarrow> (c, recv, n, ms, rets))]),
      unexpected = (\<lambda>c recv n g. \<forall>x \<in> set g. \<not> is_for c recv n x)\<rparr>"

lemma find_last_expectation:
  assumes "\<forall>x \<in> set g. \<not> is_for c recv n x" and "list_all2 arg_matches ms args"
  shows "List.find (meets c recv n args) (g @ [(c, recv, n, ms, rets)]) = Some (c, recv, n, ms, rets)"
proof -
  have "\<not> meets c recv n args x" if "x \<in> set g" for x using assms(1) that by (cases x) auto
  then have "List.find (meets c recv n args) g = None" unfolding find_None_iff by blast
  with assms(2) show ?thesis by (induction g) (auto split: if_splits)
qed

lemma example_gomock_ok: "gomock_ok example_gomock"
  by (simp add: gomock_ok_def example_gomock_def find_last_expectation)

definition example_mocks :: mock_store where
  "example_mocks = snd (NewMockResolver 0 (snd (NewMockClient 0 (snd (NewMockClient 0
     \<lparr>clients = [], client_recorders = [], resolvers = [], resolver_recorders = []\<rparr>)))))"

lemma example_mocks_made: "mock_stores example_mocks"
  unfolding example_mocks_def by (intro new_resolver [OF _ prod.collapse [symmetric]] new_client [OF _ prod.collapse [symmetric]] no_mocks)

theorem mocks_return_what_was_scripted_witness:
  "expecting example_gomock (EXPECT example_mocks 1)
     (\<lambda>r. Recorder_GetOrAllocateAddress example_gomock example_mocks r
        AnyMatcher AnyMatcher (APrefix example_subnet) AnyMatcher AnyMatcher AnyMatcher)
     [AAddr (V4 0x0A000002), ANil] (Mock_GetOrAllocateAddress example_gomock example_mocks 1 [] [] example_subnet ''c1'' [] 0) [] =
       Inr (V4 0x0A000002, None)"
proof -
  have "1 < length (clients example_mocks)" "0 < length (resolvers example_mocks)" by code_simp+
  from mocks_return_what_was_scripted [OF example_gomock_ok example_mocks_made this(1) _ this(2), of "[]"
      AnyMatcher AnyMatcher "APrefix example_subnet" AnyMatcher AnyMatcher AnyMatcher "[]" "[]" example_subnet "''c1''" "[]" 0
      AnyMatcher AnyMatcher 0 example_claim "V4 0x0A000002" None]
  show ?thesis by (simp add: arg_matches_def example_gomock_def any_error_def)
qed

end
