(* ===== verification/Scheme.thy ===== *)
theory Scheme
  imports Predicates Hostname
begin

text \<open>
  The registration of the types of \<open>api/v1alpha1\<close>: \<open>groupversion_info.go\<close> and the two \<open>init\<close>
  functions, which run in the order of the file names before the scheme is used. The builder
  of controller-runtime is a parameter.
\<close>

definition api_GroupVersion :: GroupVersion where
  "api_GroupVersion = \<lparr>gv_Group = ''ipam.cluster.x-k8s.io'', gv_Version = ''v1alpha1''\<rparr>"

text \<open>A new builder for a group, \<open>Register\<close>, and \<open>AddToScheme\<close>; objects are named by their types.\<close>

record ('b, 's) scheme_lib =
  sl_Builder :: "GroupVersion \<Rightarrow> 'b"
  sl_Register :: "string list \<Rightarrow> 'b \<Rightarrow> 'b"
  sl_AddToScheme :: "'b \<Rightarrow> 's \<Rightarrow> error option \<times> 's"

definition SchemeBuilder :: "('b, 's) scheme_lib \<Rightarrow> 'b" where
  "SchemeBuilder lib = sl_Builder lib api_GroupVersion"

definition instance_types_init :: "('b, 's) scheme_lib \<Rightarrow> 'b \<Rightarrow> 'b" where
  "instance_types_init lib = sl_Register lib [''InfobloxInstance'', ''InfobloxInstanceList'']"

definition pool_types_init :: "('b, 's) scheme_lib \<Rightarrow> 'b \<Rightarrow> 'b" where
  "pool_types_init lib = sl_Register lib [''InfobloxIPPool'', ''InfobloxIPPoolList'']"

text \<open>\<open>AddToScheme\<close> is bound to the builder that the \<open>init\<close> functions have filled by then.\<close>

definition v1alpha1_AddToScheme :: "('b, 's) scheme_lib \<Rightarrow> 's \<Rightarrow> error option \<times> 's" where
  "v1alpha1_AddToScheme lib =
     sl_AddToScheme lib (pool_types_init lib (instance_types_init lib (SchemeBuilder lib)))"

text \<open>
  The builder does what it says: it adds what was registered with it, under its group and
  version, or fails. Then the scheme knows the kind that the watches and the webhook compare.
\<close>

definition scheme_lib_ok :: "('b, 's) scheme_lib \<Rightarrow> ('b \<Rightarrow> GroupVersion \<times> string list) \<Rightarrow>
    ('s \<Rightarrow> (GroupVersion \<times> string) set) \<Rightarrow> bool" where
  "scheme_lib_ok lib contents known \<longleftrightarrow>
     (\<forall>gv. contents (sl_Builder lib gv) = (gv, [])) \<and>
     (\<forall>ks b. contents (sl_Register lib ks b) = (fst (contents b), snd (contents b) @ ks)) \<and>
     (\<forall>b s s'. sl_AddToScheme lib b s = (None, s') \<longrightarrow>
        known s' = known s \<union> Pair (fst (contents b)) ` set (snd (contents b)))"

lemma scheme_knows_kinds:
  assumes "scheme_lib_ok lib contents known" and "v1alpha1_AddToScheme lib s = (None, s')"
  shows "known s' = known s \<union> Pair api_GroupVersion `
           {''InfobloxInstance'', ''InfobloxInstanceList'', ''InfobloxIPPool'', ''InfobloxIPPoolList''} \<and>
         (\<lparr>gv_Group = gk_Group pool_GroupKind, gv_Version = ''v1alpha1''\<rparr>, gk_Kind pool_GroupKind) \<in> known s'"
  using assms
  by (simp add: scheme_lib_ok_def v1alpha1_AddToScheme_def SchemeBuilder_def instance_types_init_def pool_types_init_def
      pool_GroupKind_def api_GroupVersion_def)

end
