(* ===== verification/Spec2Isabelle.thy ===== *)
theory Spec2Isabelle
  imports WapiError Startup Requests PoolEdits ReadyPool ManySubnets Deadlock DeepCopyProps Mocks Scheme
begin

text \<open>
  \<^bold>\<open>The program.\<close> A Kubernetes provider that hands out IP addresses of an Infoblox appliance to
  Cluster API machines. A pool (\<open>InfobloxIPPool\<close>) lists subnets of an appliance that an instance
  (\<open>InfobloxInstance\<close>) and its secret describe; a claim asks for an address of a pool. Four parts
  interact: the webhook admits pools; the instance and pool controllers check instances and
  pools against the appliance and set their Ready conditions; the claim provider finds the
  pool, determines a hostname and allocates or releases addresses; the Infoblox client keeps
  one host record per hostname, whose entries are the host's addresses.

  \<^bold>\<open>Theories and sources\<close> (paths under \<open>src/\<close>; definitions have the names of the code, with a
  prefix where several types have a method of that name):
  \<^item> \<open>Prelude\<close>: lemmas and collections for all. \<open>GoStrings\<close>, \<open>Netip\<close>, \<open>Json\<close>: what the code uses of the
    Go library (\<open>strings\<close>, \<open>strconv\<close>, \<open>net/netip\<close>, \<open>net\<close>, \<open>encoding/json\<close>), on strings of bytes;
    \<open>NetipFacts\<close>: parsing and printing of addresses and prefixes are inverse.
  \<^item> \<open>ApiTypes\<close>: \<open>api/v1alpha1\<close>, errors as a datatype that keeps how they were wrapped, and the
    record \<open>kube_lib\<close> of the library functions on conditions and finalizers. \<open>Memory\<close>: slices that share
    arrays, a locale for functions that copy deeply, and what follows for what they return;
    \<open>DeepCopy\<close>, \<open>DeepCopyProps\<close>: the generated \<open>zz_generated.deepcopy.go\<close> in that memory.
  \<^item> \<open>Infoblox\<close>, \<open>WapiError\<close>: \<open>pkg/infoblox/client.go\<close>. \<open>Addresses\<close>, \<open>AddressFacts\<close>, \<open>AddressProps\<close>,
    \<open>Allocator\<close>: \<open>pkg/infoblox/addresses.go\<close>. \<open>ClientInterface\<close>: the interface \<open>Client\<close>, a locale
    with its promises and its interpretation on the implementation.
  \<^item> \<open>Hostname\<close>: \<open>internal/hostname/resolver.go\<close>. \<open>PoolIndex\<close>: \<open>internal/index\<close> and
    \<open>internal/poolutil\<close>. \<open>Predicates\<close>: \<open>pkg/predicates\<close> and the watches of the claim provider.
  \<^item> \<open>InstanceClient\<close>: \<open>internal/controllers/util.go\<close>. \<open>InstanceController\<close>, \<open>PoolController\<close>,
    \<open>PoolLifecycle\<close>, \<open>ClaimController\<close>, \<open>ClaimProps\<close>: the controllers of \<open>internal/controllers\<close>.
    \<open>Requests\<close>: how many requests the claim handler sends to the appliance. \<open>ClaimLife\<close>: a claim over
    many reconciliations, against the queues of addresses of \<open>Allocator\<close>. \<open>Apart\<close>, \<open>ManyHosts\<close>: what an
    operation for one host does to the others; \<open>Fleet\<close>: many claims on one appliance. \<open>ReadyPool\<close>: what
    the pool controller checks against what the handler requests. \<open>ManySubnets\<close>: pools with several subnets.
  \<^item> \<open>Webhook\<close>: \<open>internal/webhooks\<close>. \<open>Startup\<close>: \<open>main.go\<close> and \<open>version\<close>. \<open>Scheme\<close>: the registration of
    the API types. \<open>Mocks\<close>: the generated \<open>pkg/infoblox/ibmock\<close> and \<open>internal/hostname/mock\<close>.
  \<^item> \<open>System\<close>: webhook, pool controller and claim provider together, on what the API server stores;
    \<open>PoolEdits\<close>: pools that are edited while claims have addresses of them; \<open>Deadlock\<close>: deletions of
    pools that end, and those that cannot.
  \<^item> This theory: the properties that span several of them.

  \<^bold>\<open>State.\<close> The appliance is a value of a type \<open>'s\<close> that every operation of the connector
  (\<open>connector_ops\<close>) takes and returns, so that the order of all requests is explicit. Objects of
  the API server are records; a reconciliation takes what its reads return as arguments (one
  snapshot for a call) and returns the object it leaves, which the deferred patch writes.
  \<open>PoolLifecycle\<close> adds the cluster around a pool: a step relation of reconciliations, edits,
  deletions and claims coming and going; \<open>ClaimLife\<close> the reconciliations of one claim, with the
  appliance changing in between; \<open>Fleet\<close> those of many claims and their hosts; \<open>System\<close> a pool with its webhook, controller, claims
  and address objects. Panics are values of their own, not errors. Only the deep copies
  are about sharing: there objects hold references into a memory of arrays, and a pointer is a
  slice of length one. Everywhere else objects are values: the client's cache returns such copies.

  \<^bold>\<open>Parameters\<close> stand for code that is not in the repository: connector and object manager of
  infoblox-go-client, the reads of the Kubernetes client, \<open>kube_lib\<close>, the manager of
  controller-runtime, and the sort of slices of more than twelve elements (shorter ones are
  sorted by insertion, which is modelled). Hypotheses on them are named: \<open>lib_ok\<close> (setting a
  condition and finalizers), \<open>refs_ok\<close>, \<open>wapi_ok\<close> and \<open>wapi_queue_ok\<close> (records have references,
  queries do not write, a record just written is the one that is found), \<open>wapi_apart\<close> (a write for
  one host leaves the others alone, and what is newly assigned no other host holds),
  \<open>entries_ok\<close> (an entry keeps the text it is made from), \<open>permutes_refs\<close> (the
  sort returns a permutation), \<open>copy_lib_ok\<close> (the library's copies of metadata and conditions are
  deep), \<open>gomock_ok\<close> (an expected call is found and returns what was scripted), \<open>scheme_lib_ok\<close>.
  Each is shown to hold for a concrete instance.

  \<^bold>\<open>What the lemmas show.\<close>
  \<^item> Addresses: what allocation returns is in the subnet, repeated allocation returns the same
    address, the writes are exactly those wanted, release takes out exactly one address, and
    both together refine a queue of addresses for each host.
  \<^item> Claims: no two claims with different hostnames share an address, and those with the same
    hostname do; the address object that results, all failures reported, one hostname over the
    life of a claim, and with one subnet one address; that with several subnets an earlier one can
    take over, and the host then holds two addresses; that releasing undoes ensuring and frees every subnet; and bounds on
    the requests sent.
  \<^item> Pools and instances: Ready is set exactly if all that is needed exists, and else the condition says
    what is missing first; the handler requests only what was checked; the finalizer keeps
    a pool while claims refer to it and is taken off when none does.
  \<^item> Webhook: exactly which pools are admitted, that admitted ones can be used by the
    controllers, that all faults are reported, and the inputs on which it panics.
  \<^item> The system: in every interleaving, an address object never outlives its pool and is always
    usable; the deletion of a pool can end if the pool can be fetched for every claim; but if the pool is
    not ready it stays for good, with the addresses, and dropping a subnet leaks those given out of it.
  \<^item> Hostnames: the search is sound, complete within its depth, reports the errors of fetches,
    visits references in a definite order, and ends on cyclic owner graphs.
  \<^item> Deep copies: what \<open>DeepCopyObject\<close> returns is equal to the original and shares nothing with it.
  \<^item> Instances' clients, indexes, event filters, error parsing, start-up, mocks: one property each or a lemma.

  \<^bold>\<open>Bounds and termination.\<close> The search for an owner recurses on \<open>MaxDepth - currentDepth\<close> and the
  rest of the references, so that it is total. The JSON parser has fuel \<open>2 * length + 2\<close>, one unit
  for a value and one for a bracket, more than the characters left can use, and the nesting
  limit 10000 of the library. Address bits are words of 32 and 128 bits, the prefix length of
  an address object a word of 32 bits; a bit count of at most 128 is not changed by it.

  \<^bold>\<open>Not modelled.\<close> Logging, contexts and markers of code generators; tests; the generic
  claim reconciler of the in-cluster provider, which calls the handler and is library code (\<open>System\<close>
  takes from it that it fetches the pool before it ensures or releases an address).
  Concurrent reconciliations of different claims do not occur:
  the provider sets their number to one. But the provider, the pool controller and the webhook run
  concurrently with each other, and read from a cache: \<open>PoolLifecycle\<close>, \<open>System\<close>, \<open>PoolEdits\<close> and
  \<open>Deadlock\<close> take every reconciliation and every webhook call as one atomic step on current
  caches, so that their properties say nothing of a claim that appears between the listing
  and the patch of one reconciliation, or of a listing from a cache that lags behind.
\<close>

section \<open>Properties that span components\<close>

subsection \<open>Validation and the pool controller\<close>

text \<open>C14: What the webhook admits, the controller can reconcile: for a pool whose creation was
admitted, and with a client for its instance, the reconciliation ends without an error and
sets the Ready condition, to true exactly if the views and networks of the pool exist.\<close>

theorem admitted_pool_reconciles:
  assumes "ValidateCreate (OInfobloxIPPool pool) = Inr None"
    and "getInfobloxClientForInstance (pr_reader r) (InstanceRef (p_Spec pool)) (pr_OperatorNamespace r)
           (pr_NewInfobloxClientFunc r) = Inr cl"
  shows "\<exists>c. pool_reconcile r pool = (pool_Set (pr_lib r) (default_network_view cl pool) c, None) \<and>
           cond_Type c = ReadyCondition \<and> (cond_Status c = ConditionTrue \<longleftrightarrow> pool_exists cl pool)"
  using assms(2)
proof (cases rule: pool_reconcile_client)
  case (unparsed sub)
  then show ?thesis using validated_usable [OF assms(1)] by fastforce
qed auto

lemma example_client_obtained:
  "getInfobloxClientForInstance (pr_reader example_pr) (InstanceRef (p_Spec example_pool))
     (pr_OperatorNamespace example_pr) (pr_NewInfobloxClientFunc example_pr) = Inr example_client"
  using credentials_of_example by (auto simp: client_for_instance_ok example_pr_def example_reader_def)

lemma example_admitted: "ValidateCreate (OInfobloxIPPool example_pool) = Inr None"
  by code_simp

theorem admitted_pool_reconciles_witness:
  "snd (pool_reconcile example_pr example_pool) = None"
  using admitted_pool_reconciles [OF example_admitted example_client_obtained] by auto

subsection \<open>Validation and the claim handler\<close>

text \<open>For a pool whose creation was admitted, an address that the handler writes and the
gateway it writes with it are addresses of the same family, the address in the subnet.\<close>

theorem address_and_gateway_family:
  assumes "ValidateCreate (OInfobloxIPPool pool) = Inr None" and "h_pool h = Some pool"
    and "h_ibclient h = Some (infoblox_Client c)"
    and "EnsureAddress env h address s = ((h', address', None), s')"
  shows "\<exists>sub p a gw. sub \<in> set (Subnets (p_Spec pool)) \<and> PrefixString p = CIDR sub \<and>
           ParseAddr (a_Address address') = Some a \<and> PrefixContains p a \<and>
           ParseAddr (a_Gateway address') = Some gw \<and> Is4 gw = Is4 a \<and> Is6 gw = Is6 a"
proof -
  obtain sub p a where a: "sub \<in> set (Subnets (p_Spec pool))" "ParsePrefix (CIDR sub) = Some p"
    "PrefixContains p a" "ParseAddr (a_Address address') = Some a" "a_Gateway address' = Gateway sub"
    using ensured_address [OF assms(4,3)] assms(2) by auto
  from validated_usable [OF assms(1)]
  have "\<forall>s \<in> set (Subnets (p_Spec pool)). \<exists>p gw. ParsePrefix (CIDR s) = Some p \<and> prefix_ok p \<and>
      PrefixString p = CIDR s \<and> ParseAddr (Gateway s) = Some gw \<and>
      Is4 gw = Is4 (PrefixAddr p) \<and> Is6 gw = Is6 (PrefixAddr p)" by (elim conjE)
  from bspec [OF this a(1)] a(2) obtain gw where gw: "ParseAddr (Gateway sub) = Some gw" "PrefixString p = CIDR sub"
    "Is4 gw = Is4 (PrefixAddr p)" "Is6 gw = Is6 (PrefixAddr p)"
    by auto
  have "Is4 gw = Is4 a" "Is6 gw = Is6 a"
    using gw(3,4) PrefixContains_same_kind [OF a(3)] by blast+
  with a(1,3,4,5) gw(1,2) show ?thesis
    by (intro exI [of _ sub] exI [of _ p] exI [of _ a] exI [of _ gw]) simp
qed

definition admitted_handler :: "HostRecord option claim_handler" where
  "admitted_handler = example_handler\<lparr>h_pool := Some example_pool\<rparr>"

theorem address_and_gateway_family_witness:
  "\<exists>h' address' s' a gw. EnsureAddress example_env admitted_handler new_address None = ((h', address', None), s') \<and>
     ParseAddr (a_Address address') = Some a \<and> ParseAddr (a_Gateway address') = Some gw \<and> Is4 gw = Is4 a"
proof -
  have "snd (snd (fst (EnsureAddress example_env admitted_handler new_address None))) = None"
    by code_simp
  then obtain h' address' s' where e: "EnsureAddress example_env admitted_handler new_address None =
      ((h', address', None), s')" by (metis prod.collapse)
  have h: "h_pool admitted_handler = Some example_pool"
    "h_ibclient admitted_handler = Some (infoblox_Client example_impl)"
    by (simp_all add: admitted_handler_def example_handler_def example_client_def)
  from address_and_gateway_family [OF example_admitted h e] e show ?thesis by blast
qed

text \<open>For a pool whose creation was admitted, a failed allocation reports one error for each
of the pool's subnets, and at least one.\<close>

theorem admitted_pool_errors:
  assumes "ValidateCreate (OInfobloxIPPool pool) = Inr None" and "h_pool h = Some pool"
    and "h_ibclient h = Some cl" and "ensureHostname env h = (h1, Inr hn)"
    and "EnsureAddress env h address s = ((h', address', Some err), s')" and "panic_of err = None"
  shows "\<exists>errs. err = Joined errs \<and> length errs = length (Subnets (p_Spec pool)) \<and> errs \<noteq> []"
proof -
  have v: "Subnets (p_Spec pool) \<noteq> []" "\<forall>sub \<in> set (Subnets (p_Spec pool)). ParsePrefix (CIDR sub) \<noteq> None"
    using validated_usable [OF assms(1)] by auto
  have all: "filter (\<lambda>sub. ParsePrefix (CIDR sub) \<noteq> None) (Subnets (p_Spec pool)) = Subnets (p_Spec pool)"
    using v(2) by (intro filter_True) blast
  have some: "\<exists>sub \<in> set (Subnets (p_Spec pool)). ParsePrefix (CIDR sub) \<noteq> None"
    using v last_in_set by blast
  from failure_reported [OF assms(5,4,2,3,6)] obtain errs where "err = Joined errs"
    and "length errs = length (filter (\<lambda>sub. ParsePrefix (CIDR sub) \<noteq> None) (Subnets (p_Spec pool)))"
    unfolding if_P [OF some] by blast
  with v(1) show ?thesis unfolding all by auto
qed

text \<open>A client whose appliance always fails, for the example.\<close>

definition failing_client :: "unit ib_client" where
  "failing_client =
     \<lparr>cl_GetOrAllocateAddress = (\<lambda>nv dv p h z s. (Inl (OfIB (IBError ''down'')), s)),
      cl_ReleaseAddress = (\<lambda>nv dv p h s. (None, s)), cl_CheckNetworkViewExists = (\<lambda>v. Inr True),
      cl_CheckDNSViewExists = (\<lambda>v. Inr True), cl_CheckNetworkExists = (\<lambda>v p. Inr True),
      cl_GetHostConfig = \<lparr>hc_Host = [], hc_Version = [], hc_DisableTLSVerification = False, hc_CustomCAPath = [],
        hc_DefaultNetworkView = [], hc_DefaultDNSView = []\<rparr>\<rparr>"

definition failing_env :: "unit claim_env" where
  "failing_env =
     \<lparr>ce_lib = example_lib, ce_reader = example_reader, ce_get = example_get, ce_pdq = insertionSort,
      ce_newInfobloxClientFunc = (\<lambda>cfg. Inr failing_client), ce_operatorNamespace = ''system''\<rparr>"

definition failing_handler :: "unit claim_handler" where
  "failing_handler =
     \<lparr>h_claim = example_claim, h_pool = Some example_pool, h_ibclient = Some failing_client\<rparr>"

theorem admitted_pool_errors_witness:
  "\<exists>errs. snd (snd (fst (EnsureAddress failing_env failing_handler new_address ()))) = Some (Joined errs) \<and>
     length errs = 2"
proof -
  have r: "case snd (snd (fst (EnsureAddress failing_env failing_handler new_address ()))) of
      None \<Rightarrow> False | Some e \<Rightarrow> (case e of Panic m \<Rightarrow> False | _ \<Rightarrow> True)"
    by code_simp
  obtain h' a' e s' where e: "EnsureAddress failing_env failing_handler new_address () = ((h', a', e), s')"
    by (metis prod.collapse)
  with r obtain err where err: "e = Some err" "panic_of err = None"
    by (auto simp: panic_of_def split: option.splits error.splits)
  have "is_ok (snd (ensureHostname failing_env failing_handler))" by code_simp
  then obtain hn where hn: "ensureHostname failing_env failing_handler =
      (fst (ensureHostname failing_env failing_handler), Inr hn)"
    by (metis is_okE prod.collapse)
  have h: "h_pool failing_handler = Some example_pool" "h_ibclient failing_handler = Some failing_client"
    by (simp_all add: failing_handler_def)
  have "length (Subnets (p_Spec example_pool)) = 2" by (simp add: example_pool_def)
  with admitted_pool_errors [OF example_admitted h hn e [unfolded err(1)] err(2)] e err(1) show ?thesis
    by auto
qed

subsection \<open>Allocation and release\<close>

text \<open>C8: Releasing undoes ensuring: for a pool with one subnet, after \<open>EnsureAddress\<close> has
written an address, the release of the same claim, in any environment, asks the appliance for
exactly one write, which takes exactly this address out of the host's record: the record is
deleted if the address was its only entry, and otherwise updated without it.\<close>

theorem release_undoes_ensure:
  assumes "EnsureAddress env h address s = ((h', address', None), s')"
    and "h_ibclient h = Some (infoblox_Client c)" and "wapi_ok (connector c)" and "refs_ok (connector c)"
    and "h_pool h = Some pool" and "Subnets (p_Spec pool) = [sub]"
    and "annotation (h_claim h') hostnameAnnotation = hn" and "hn \<noteq> []"
  shows "\<exists>p a rec rec1 as.
           ParsePrefix (CIDR sub) = Some p \<and> ParseAddr (a_Address address') = Some a \<and>
           con_List (connector c) (record_query (NetworkView (p_Spec pool)) hn) s' = (Inr [rec], s') \<and>
           addrs_in rec p = a # as \<and> addrs_in rec1 p = as \<and>
           length (record_texts rec) = Suc (length (record_texts rec1)) \<and> hr_Ref rec1 = hr_Ref rec \<and>
           Handler_ReleaseAddress env2 h' s' =
             (None, snd (if record_texts rec1 = [] then con_Delete (connector c) (hr_Ref rec) s'
                         else con_Update (connector c) (prepareHostRecordForUpdate rec1) (hr_Ref rec) s'))"
proof -
  let ?con = "connector c"
  let ?nv = "NetworkView (p_Spec pool)" and ?dv = "handler_view pool (infoblox_Client c)"
    and ?z = "DNSZone (p_Spec pool)"
  obtain h1 hn' a p sub' where e: "ensureHostname env h = (h1, Inr hn')"
    and l: "allocate_loop pool (Some (infoblox_Client c)) hn' [sub] [] s = (Allocated a p sub', s')"
    and a': "address' = address\<lparr>a_Address := AddrString a, a_Prefix := Some (of_nat (Bits p)), a_Gateway := Gateway sub'\<rparr>"
    and h': "h' = h1\<lparr>h_claim := claim_Set (ce_lib env) (h_claim h1) (ready_cond ConditionTrue AddressAllocatedReason (Text []))\<rparr>"
    using EnsureAddress_ok [OF assms(1)] assms(2,5,6) by (metis option.inject)
  have eh: "hn' = hn" "h_pool h1 = Some pool" "h_ibclient h1 = Some (infoblox_Client c)"
    using ensureHostname_ok [OF e] assms(2,5,7) h' by auto
  obtain p0: "ParsePrefix (CIDR sub) = Some p"
    and g: "cl_GetOrAllocateAddress (infoblox_Client c) ?nv ?dv p hn ?z s = (Inr a, s')"
    using allocate_single [OF l] eh(1) by blast
  have g': "GetOrAllocateAddress ?con ?nv ?dv p hn ?z s = (Inr a, s')"
    using g by (simp add: infoblox_Client_def)
  obtain rec as where r: "con_List ?con (record_query ?nv hn) s' = (Inr [rec], s')" "addrs_in rec p = a # as"
    using allocate_listed [OF assms(3,4) g'] by blast
  obtain rec1 pre t post where one: "record_texts rec = pre @ t # post" "record_texts rec1 = pre @ post"
    "addrs_in rec1 p = as" "hr_Ref rec1 = hr_Ref rec"
    and w: "ReleaseAddress ?con ?nv ?dv p hn s' =
      (if record_texts rec1 = []
       then apfst (write_result ''failed to delete Infoblox host record: %w'') (con_Delete ?con (hr_Ref rec) s')
       else apfst (write_result ''failed to update Infoblox host record: %w'')
              (con_Update ?con (prepareHostRecordForUpdate rec1) (hr_Ref rec) s'))"
    using release_one [OF r, of ?dv] by blast
  have "getHostname env2 h' = Inr hn" using assms(7,8) by (rule getHostname_annotated)
  then have "Handler_ReleaseAddress env2 h' s' = (None, snd (ReleaseAddress ?con ?nv ?dv p hn s'))"
    using release_every [of env2 h' hn pool c s'] assms(6) p0 h' eh by (simp add: map_filter_simps)
  moreover have "ParseAddr (a_Address address') = Some a"
    using client.allocated_text [OF g] a' by simp
  ultimately show ?thesis
    using p0 r one w
    by (intro exI [of _ p] exI [of _ a] exI [of _ rec] exI [of _ rec1] exI [of _ as]) auto
qed

theorem release_undoes_ensure_witness:
  "\<exists>h' address' s' rec1. EnsureAddress example_env example_handler new_address None = ((h', address', None), s') \<and>
     Handler_ReleaseAddress example_env h' s' =
       (None, snd (if record_texts rec1 = [] then con_Delete example_con (hr_Ref rec1) s'
                   else con_Update example_con (prepareHostRecordForUpdate rec1) (hr_Ref rec1) s'))"
proof -
  obtain h' address' s' where e: "EnsureAddress example_env example_handler new_address None = ((h', address', None), s')"
    using example_ensure by (metis prod.collapse)
  have "annotation (h_claim (fst (fst (EnsureAddress example_env example_handler new_address None)))) hostnameAnnotation = ''c1''"
    by code_simp
  with e have n: "annotation (h_claim h') hostnameAnnotation = ''c1''" by simp
  have c: "h_ibclient example_handler = Some (infoblox_Client example_impl)" "h_pool example_handler = Some claim_pool"
    "Subnets (p_Spec claim_pool) = [\<lparr>CIDR = ''10.0.0.0/24'', Gateway = ''10.0.0.1''\<rparr>]"
    by (simp_all add: example_handler_def example_client_def claim_pool_def deleted_pool_def)
  have w: "wapi_ok (connector example_impl)" "refs_ok (connector example_impl)"
    by (simp_all add: example_impl_def example_wapi_ok example_refs_ok)
  obtain rec rec1 :: HostRecord where "hr_Ref rec1 = hr_Ref rec"
    and "Handler_ReleaseAddress example_env h' s' =
      (None, snd (if record_texts rec1 = [] then con_Delete (connector example_impl) (hr_Ref rec) s'
                  else con_Update (connector example_impl) (prepareHostRecordForUpdate rec1) (hr_Ref rec) s'))"
    using release_undoes_ensure [OF e c(1) w c(2,3) n list.distinct(2), of example_env] by blast
  then show ?thesis
    using e by (intro exI [of _ h'] exI [of _ address'] exI [of _ s'] exI [of _ rec1]) (simp add: example_impl_def)
qed

end
